theory Spec2Isabelle
  imports Main "HOL-Library.Sublist" "HOL-Library.Char_ord"
begin

section \<open>JavaScript values used by the server\<close>

text \<open>
  The server (\<^verbatim>\<open>src/index.ts\<close> of the repository) is TypeScript on Node. A JavaScript
  string is modelled as a \<^typ>\<open>string\<close>: one \<^typ>\<open>char\<close> stands for one UTF-16 code unit, which
  is exact for text whose code units are below 256 (Maven logs and Java sources are
  ASCII in the main). \<^verbatim>\<open>length\<close>, \<^verbatim>\<open>slice\<close> and the regular expressions count these
  units, as the source does.
\<close>

definition str_includes :: "string \<Rightarrow> string \<Rightarrow> bool" where
  \<comment> \<open>\<^verbatim>\<open>s.includes(needle)\<close>: the needle is literal text, never a pattern.\<close>
  "str_includes s needle = sublist needle s"

definition slice_tail :: "nat \<Rightarrow> string \<Rightarrow> string" where
  \<comment> \<open>\<^verbatim>\<open>s.slice(-n)\<close> for \<open>n > 0\<close>: the last \<open>n\<close> units, the whole string when it is shorter.\<close>
  "slice_tail n s = drop (length s - n) s"

definition slice_head :: "nat \<Rightarrow> 'a list \<Rightarrow> 'a list" where
  \<comment> \<open>\<^verbatim>\<open>xs.slice(0, n)\<close> on a string or an array.\<close>
  "slice_head n xs = take n xs"

definition is_digit :: "char \<Rightarrow> bool" where
  "is_digit c = (CHR ''0'' \<le> c \<and> c \<le> CHR ''9'')"

definition is_letter :: "char \<Rightarrow> bool" where
  "is_letter c = ((CHR ''A'' \<le> c \<and> c \<le> CHR ''Z'') \<or> (CHR ''a'' \<le> c \<and> c \<le> CHR ''z''))"

definition is_word :: "char \<Rightarrow> bool" where
  \<comment> \<open>\<^verbatim>\<open>\w\<close>\<close>
  "is_word c = (is_letter c \<or> is_digit c \<or> c = CHR ''_'')"

definition is_space :: "char \<Rightarrow> bool" where
  \<comment> \<open>\<^verbatim>\<open>\s\<close> and what \<^verbatim>\<open>trim\<close> strips: tab, LF, VT, FF, CR, space, NBSP (the members below 256).\<close>
  "is_space c = (c \<in> set [CHR 0x09, CHR 0x0A, CHR 0x0B, CHR 0x0C, CHR 0x0D, CHR 0x20, CHR 0xA0])"

definition is_line_terminator :: "char \<Rightarrow> bool" where
  \<comment> \<open>what \<^verbatim>\<open>.\<close> refuses: LF and CR (the members below 256).\<close>
  "is_line_terminator c = (c = CHR 0x0A \<or> c = CHR 0x0D)"

definition trim :: "string \<Rightarrow> string" where
  "trim s = rev (dropWhile is_space (rev (dropWhile is_space s)))"

definition parseInt :: "string \<Rightarrow> nat" where
  \<comment> \<open>the integer a string of decimal digits writes (the only strings \<^verbatim>\<open>parseInt\<close> is given
     here)\<close>
  "parseInt ds = foldl (\<lambda>n d. 10 * n + (of_char d - of_char CHR ''0'')) 0 ds"

fun show_digits :: "nat \<Rightarrow> nat \<Rightarrow> string" where
  \<comment> \<open>the decimal digits of \<open>n\<close>; the first argument bounds the number of digits\<close>
  "show_digits 0 n = []"
| "show_digits (Suc f) n =
     (if n < 10 then [char_of (48 + n)] else show_digits f (n div 10) @ [char_of (48 + n mod 10)])"

definition show_nat :: "nat \<Rightarrow> string" where
  \<comment> \<open>a number inside a template string: \<^verbatim>\<open>`${n}`\<close>\<close>
  "show_nat n = show_digits (Suc n) n"

fun js_join :: "string \<Rightarrow> string list \<Rightarrow> string" where
  \<comment> \<open>\<^verbatim>\<open>xs.join(sep)\<close>\<close>
  "js_join sep [] = []"
| "js_join sep [x] = x"
| "js_join sep (x # xs) = x @ sep @ js_join sep xs"

datatype json =
    JNull
  | JBool bool
  | JNum nat
  | JApprox string
  | JDec string
  | JStr string
  | JArr "json list"
  | JObj "(string \<times> json) list"

text \<open>
  Every tool returns \<^verbatim>\<open>JSON.stringify(obj, null, 2)\<close> of an object literal. The model
  returns the object: \<^term>\<open>JObj\<close> lists the keys in the order the literal writes them,
  which is the order \<^verbatim>\<open>JSON.stringify\<close> prints them in. \<^term>\<open>JNum\<close> is a count the tool
  computed; \<^term>\<open>JDec\<close> is a number the XML parser produced, kept as the text it prints as.

  A number of the source is a double. Every integer up to \<open>2^53\<close> is a double and is printed
  with all its digits. Above that \<^verbatim>\<open>parseInt\<close> gives a double near the integer the digits
  write, printed in a form that depends on its size; the model does not compute it and keeps
  the digits: \<^term>\<open>JApprox\<close>.
\<close>

definition count_json :: "string \<Rightarrow> json" where
  \<comment> \<open>\<^verbatim>\<open>parseInt(ds)\<close> as a value of the returned object\<close>
  "count_json ds = (if parseInt ds \<le> 2 ^ 53 then JNum (parseInt ds) else JApprox ds)"

definition jget :: "json \<Rightarrow> string \<Rightarrow> json option" where
  "jget j key = (case j of JObj kvs \<Rightarrow> map_of kvs key | _ \<Rightarrow> None)"

definition jkeys :: "json \<Rightarrow> string list" where
  "jkeys j = (case j of JObj kvs \<Rightarrow> map fst kvs | _ \<Rightarrow> [])"

datatype js_error = TypeError | IoError

datatype 'a outcome =
    Return 'a
  | Throw js_error
  | Never

text \<open>
  \<^term>\<open>Return\<close> is a promise that resolves, \<^term>\<open>Throw\<close> one that rejects (the exception
  reaches the caller), \<^term>\<open>Never\<close> a call whose loop does not end.
\<close>

section \<open>Regular expressions\<close>

text \<open>
  The patterns of the source use literals, character classes, greedy and lazy repetition of
  one class, optional groups, alternation, capture groups and one lookahead. The matcher is
  the backtracking one of JavaScript: alternatives are tried in order, a greedy repetition
  tries the longest run first, a lazy one the shortest, and the first success wins.
\<close>

datatype cls =
    CDigit
  | CWord
  | CSpace
  | CDot
  | COneOf string
  | CRange char char
  | CUnion cls cls
  | CNot cls

fun in_cls :: "cls \<Rightarrow> char \<Rightarrow> bool" where
  "in_cls CDigit c = is_digit c"
| "in_cls CWord c = is_word c"
| "in_cls CSpace c = is_space c"
| "in_cls CDot c = (\<not> is_line_terminator c)"
| "in_cls (COneOf cs) c = (c \<in> set cs)"
| "in_cls (CRange a b) c = (a \<le> c \<and> c \<le> b)"
| "in_cls (CUnion x y) c = (in_cls x c \<or> in_cls y c)"
| "in_cls (CNot x) c = (\<not> in_cls x c)"

datatype re =
    Lit string
  | One cls
  | Star cls
  | Plus cls
  | LazyStar cls
  | Opt re
  | Seq re re
  | Alt re re
  | Grp nat re
  | Ahead re

type_synonym caps = "(nat \<times> string) list"

fun greedy :: "cls \<Rightarrow> string \<Rightarrow> (string \<Rightarrow> 'a option) \<Rightarrow> 'a option" where
  "greedy cl [] k = k []"
| "greedy cl (x # xs) k =
     (if in_cls cl x
      then (case greedy cl xs k of Some r \<Rightarrow> Some r | None \<Rightarrow> k (x # xs))
      else k (x # xs))"

fun lazy :: "cls \<Rightarrow> string \<Rightarrow> (string \<Rightarrow> 'a option) \<Rightarrow> 'a option" where
  "lazy cl [] k = k []"
| "lazy cl (x # xs) k =
     (case k (x # xs) of Some r \<Rightarrow> Some r
      | None \<Rightarrow> if in_cls cl x then lazy cl xs k else None)"

fun re_match :: "re \<Rightarrow> string \<Rightarrow> caps \<Rightarrow> (string \<Rightarrow> caps \<Rightarrow> (string \<times> caps) option)
                 \<Rightarrow> (string \<times> caps) option" where
  \<comment> \<open>match at the head of the string, then hand the rest and the captures to the continuation\<close>
  "re_match (Lit l) s c k = (if prefix l s then k (drop (length l) s) c else None)"
| "re_match (One cl) s c k =
     (case s of [] \<Rightarrow> None | x # xs \<Rightarrow> if in_cls cl x then k xs c else None)"
| "re_match (Star cl) s c k = greedy cl s (\<lambda>s'. k s' c)"
| "re_match (Plus cl) s c k =
     (case s of [] \<Rightarrow> None
      | x # xs \<Rightarrow> if in_cls cl x then greedy cl xs (\<lambda>s'. k s' c) else None)"
| "re_match (LazyStar cl) s c k = lazy cl s (\<lambda>s'. k s' c)"
| "re_match (Opt r) s c k = (case re_match r s c k of Some x \<Rightarrow> Some x | None \<Rightarrow> k s c)"
| "re_match (Seq r1 r2) s c k = re_match r1 s c (\<lambda>s' c'. re_match r2 s' c' k)"
| "re_match (Alt r1 r2) s c k =
     (case re_match r1 s c k of Some x \<Rightarrow> Some x | None \<Rightarrow> re_match r2 s c k)"
| "re_match (Grp i r) s c k =
     re_match r s c (\<lambda>s' c'. k s' ((i, take (length s - length s') s) # c'))"
| "re_match (Ahead r) s c k =
     (case re_match r s c (\<lambda>s' c'. Some (s', c')) of None \<Rightarrow> None | Some (u, c') \<Rightarrow> k s c')"

fun cat :: "re list \<Rightarrow> re" where
  \<comment> \<open>a pattern written as the sequence of its parts\<close>
  "cat [] = Lit []"
| "cat [r] = r"
| "cat (r # rs) = Seq r (cat rs)"

record hit =
  skipped :: string
  matched :: string
  groups :: caps
  remaining :: string

definition hit_at :: "re \<Rightarrow> string \<Rightarrow> hit option" where
  "hit_at r s =
     (case re_match r s [] (\<lambda>s' c'. Some (s', c')) of
        None \<Rightarrow> None
      | Some (s', c') \<Rightarrow>
          Some \<lparr>skipped = [], matched = take (length s - length s') s, groups = c', remaining = s'\<rparr>)"

fun re_search :: "re \<Rightarrow> string \<Rightarrow> hit option" where
  \<comment> \<open>the leftmost match: \<^verbatim>\<open>s.match(r)\<close>, or \<^verbatim>\<open>r.exec(s)\<close> from \<^verbatim>\<open>lastIndex = 0\<close>\<close>
  "re_search r [] = hit_at r []"
| "re_search r (x # xs) =
     (case hit_at r (x # xs) of
        Some h \<Rightarrow> Some h
      | None \<Rightarrow> map_option (\<lambda>h. h\<lparr>skipped := x # skipped h\<rparr>) (re_search r xs))"

definition grp :: "caps \<Rightarrow> nat \<Rightarrow> string" where
  \<comment> \<open>\<^verbatim>\<open>match[i]\<close>; every group read below takes part in every match of its pattern\<close>
  "grp c i = (case map_of c i of Some t \<Rightarrow> t | None \<Rightarrow> [])"

fun min_len :: "re \<Rightarrow> nat" where
  \<comment> \<open>a lower bound on the length of what a pattern matches\<close>
  "min_len (Lit l) = length l"
| "min_len (One cl) = 1"
| "min_len (Star cl) = 0"
| "min_len (Plus cl) = 1"
| "min_len (LazyStar cl) = 0"
| "min_len (Opt r) = 0"
| "min_len (Seq r1 r2) = min_len r1 + min_len r2"
| "min_len (Alt r1 r2) = min (min_len r1) (min_len r2)"
| "min_len (Grp i r) = min_len r"
| "min_len (Ahead r) = 0"

subsection \<open>Every match is a piece of the text\<close>

text \<open>
  The continuation is only ever given a suffix of the text, so a match splits the text into
  what was skipped, what matched and what remains. The loops over all matches rest on it.
\<close>

lemma greedy_suffix:
  "greedy cl s k = Some r \<Longrightarrow> \<exists>s'. suffix s' s \<and> k s' = Some r"
proof (induction s)
  case Nil
  then show ?case by auto
next
  case (Cons x xs)
  show ?case
  proof (cases "in_cls cl x \<and> greedy cl xs k \<noteq> None")
    case True
    then have "greedy cl xs k = Some r" using Cons.prems by auto
    then obtain s' where "suffix s' xs" "k s' = Some r" using Cons.IH by blast
    then show ?thesis by (meson suffix_Cons)
  next
    case False
    then have "k (x # xs) = Some r" using Cons.prems by (auto split: if_splits option.splits)
    then show ?thesis by blast
  qed
qed

lemma lazy_suffix:
  "lazy cl s k = Some r \<Longrightarrow> \<exists>s'. suffix s' s \<and> k s' = Some r"
proof (induction s)
  case Nil
  then show ?case by auto
next
  case (Cons x xs)
  show ?case
  proof (cases "k (x # xs)")
    case None
    then have "lazy cl xs k = Some r" using Cons.prems by (auto split: if_splits)
    then obtain s' where "suffix s' xs" "k s' = Some r" using Cons.IH by blast
    then show ?thesis by (meson suffix_Cons)
  next
    case (Some a)
    then show ?thesis using Cons.prems by auto
  qed
qed

lemma re_match_min_len:
  "re_match r s c k = Some x \<Longrightarrow>
     \<exists>s' c'. suffix s' s \<and> length s' + min_len r \<le> length s \<and> k s' c' = Some x"
proof (induction r arbitrary: s c k)
  case (Lit l)
  then have p: "prefix l s" and k: "k (drop (length l) s) c = Some x" by (auto split: if_splits)
  have "length l \<le> length s" using p by (simp add: prefix_length_le)
  then show ?case using k by (intro exI[of _ "drop (length l) s"] exI[of _ c]) (simp add: suffix_drop)
next
  case (One cl)
  then show ?case by (auto split: list.splits if_splits intro!: suffix_ConsI)
next
  case (Star cl)
  then show ?case using greedy_suffix[of cl s "\<lambda>s'. k s' c" x]
    by (auto dest: suffix_length_le)
next
  case (Plus cl)
  then obtain a xs where s: "s = a # xs" and g: "greedy cl xs (\<lambda>s'. k s' c) = Some x"
    by (auto split: list.splits if_splits)
  from greedy_suffix[OF g] obtain s' where s': "suffix s' xs" "k s' c = Some x" by blast
  then have "length s' \<le> length xs" by (simp add: suffix_length_le)
  then show ?case using s s' by (intro exI[of _ s'] exI[of _ c]) (simp add: suffix_ConsI)
next
  case (LazyStar cl)
  then show ?case using lazy_suffix[of cl s "\<lambda>s'. k s' c" x]
    by (auto dest: suffix_length_le)
next
  case (Opt r)
  show ?case
  proof (cases "re_match r s c k")
    case None
    then show ?thesis using Opt.prems by auto
  next
    case (Some a)
    then have "re_match r s c k = Some x" using Opt.prems by simp
    from Opt.IH[OF this] show ?thesis by auto
  qed
next
  case (Seq r1 r2)
  from Seq.prems have "re_match r1 s c (\<lambda>s' c'. re_match r2 s' c' k) = Some x" by simp
  from Seq.IH(1)[OF this] obtain s1 c1 where
    s1: "suffix s1 s" "length s1 + min_len r1 \<le> length s" "re_match r2 s1 c1 k = Some x"
    by blast
  from Seq.IH(2)[OF s1(3)] obtain s2 c2 where
    s2: "suffix s2 s1" "length s2 + min_len r2 \<le> length s1" "k s2 c2 = Some x" by blast
  have "suffix s2 s" using s1(1) s2(1) suffix_order.trans by blast
  moreover have "length s2 + min_len (Seq r1 r2) \<le> length s" using s1(2) s2(2) by simp
  ultimately show ?case using s2(3) by blast
next
  case (Alt r1 r2)
  show ?case
  proof (cases "re_match r1 s c k")
    case None
    then have "re_match r2 s c k = Some x" using Alt.prems by simp
    from Alt.IH(2)[OF this] show ?thesis by auto
  next
    case (Some a)
    then have "re_match r1 s c k = Some x" using Alt.prems by simp
    from Alt.IH(1)[OF this] show ?thesis by auto
  qed
next
  case (Grp i r)
  from Grp.prems have "re_match r s c (\<lambda>s' c'. k s' ((i, take (length s - length s') s) # c')) = Some x"
    by simp
  from Grp.IH[OF this] show ?case by auto
next
  case (Ahead r)
  then show ?case by (auto split: option.splits prod.splits)
qed

lemma re_match_suffix:
  "re_match r s c k = Some x \<Longrightarrow> \<exists>s' c'. suffix s' s \<and> k s' c' = Some x"
  using re_match_min_len by blast

lemma hit_at_split:
  "hit_at r s = Some h \<Longrightarrow> s = skipped h @ matched h @ remaining h"
proof -
  assume a: "hit_at r s = Some h"
  then obtain s' c' where m: "re_match r s [] (\<lambda>s' c'. Some (s', c')) = Some (s', c')"
    and h: "h = \<lparr>skipped = [], matched = take (length s - length s') s, groups = c', remaining = s'\<rparr>"
    by (auto simp: hit_at_def split: option.splits)
  from re_match_suffix[OF m] have "suffix s' s" by auto
  then obtain p where "s = p @ s'" by (auto simp: suffix_def)
  then show ?thesis using h by simp
qed

lemma re_search_split:
  "re_search r s = Some h \<Longrightarrow> s = skipped h @ matched h @ remaining h"
proof (induction s arbitrary: h)
  case Nil
  then show ?case using hit_at_split by simp
next
  case (Cons x xs)
  show ?case
  proof (cases "hit_at r (x # xs)")
    case None
    then obtain h' where h': "re_search r xs = Some h'" "h = h'\<lparr>skipped := x # skipped h'\<rparr>"
      using Cons.prems by auto
    then show ?thesis using Cons.IH[OF h'(1)] by simp
  next
    case (Some a)
    then show ?thesis using Cons.prems hit_at_split by simp
  qed
qed

lemma hit_at_min_len:
  assumes "hit_at r s = Some h"
  shows "min_len r \<le> length (matched h)"
proof -
  from assms obtain s' c' where m: "re_match r s [] (\<lambda>s' c'. Some (s', c')) = Some (s', c')"
    and h: "matched h = take (length s - length s') s"
    by (auto simp: hit_at_def split: option.splits)
  from re_match_min_len[OF m] have "length s' + min_len r \<le> length s" by auto
  then show ?thesis using h by simp
qed

lemma re_search_min_len:
  "re_search r s = Some h \<Longrightarrow> min_len r \<le> length (matched h)"
proof (induction s arbitrary: h)
  case Nil
  then show ?case using hit_at_min_len by simp
next
  case (Cons x xs)
  show ?case
  proof (cases "hit_at r (x # xs)")
    case None
    then obtain h' where "re_search r xs = Some h'" "h = h'\<lparr>skipped := x # skipped h'\<rparr>"
      using Cons.prems by auto
    then show ?thesis using Cons.IH by simp
  next
    case (Some a)
    then show ?thesis using Cons.prems hit_at_min_len by simp
  qed
qed

text \<open>
  \<^verbatim>\<open>while ((match = pattern.exec(text)) !== null) { ... }\<close> with a \<^verbatim>\<open>/g\<close> pattern: each
  search starts where the last match ended. After an empty match \<^verbatim>\<open>lastIndex\<close> stays where
  it is and the loop finds the same match for ever: the result is \<^term>\<open>None\<close>.
\<close>

function exec_all :: "re \<Rightarrow> string \<Rightarrow> caps list option" where
  "exec_all r s =
     (case re_search r s of
        None \<Rightarrow> Some []
      | Some h \<Rightarrow>
          if matched h = [] then None
          else map_option ((#) (groups h)) (exec_all r (remaining h)))"
  by pat_completeness auto
termination
proof (relation "measure (\<lambda>(r, s). length s)")
  show "wf (measure (\<lambda>(r, s). length s))" by simp
next
  fix r s h
  assume "re_search r s = Some h" "matched h \<noteq> []"
  then show "((r, remaining h), (r, s)) \<in> measure (\<lambda>(r, s). length s)"
    using re_search_split[of r s h] by (cases "matched h") (auto dest: arg_cong[where f=length])
qed

lemma exec_all_returns:
  "0 < min_len r \<Longrightarrow> \<exists>ms. exec_all r s = Some ms"
proof (induction r s rule: exec_all.induct)
  case (1 r s)
  show ?case
  proof (cases "re_search r s")
    case None
    then show ?thesis by (simp add: exec_all.simps)
  next
    case (Some h)
    have ne: "matched h \<noteq> []" using re_search_min_len[OF Some] "1.prems" by auto
    from "1.IH"[OF Some ne "1.prems"] obtain ms where "exec_all r (remaining h) = Some ms" by blast
    then show ?thesis using Some ne by (subst exec_all.simps) simp
  qed
qed

text \<open>
  \<^verbatim>\<open>text.matchAll(pattern)\<close>: as above, but the iterator steps over one unit after an empty
  match, so it always ends.
\<close>

function match_all :: "re \<Rightarrow> string \<Rightarrow> caps list" where
  "match_all r s =
     (case re_search r s of
        None \<Rightarrow> []
      | Some h \<Rightarrow>
          groups h #
          (if matched h = []
           then (case remaining h of [] \<Rightarrow> [] | x # xs \<Rightarrow> match_all r xs)
           else match_all r (remaining h)))"
  by pat_completeness auto
termination
proof (relation "measure (\<lambda>(r, s). length s)")
  show "wf (measure (\<lambda>(r, s). length s))" by simp
next
  fix r s h x xs
  assume "re_search r s = Some h" "remaining h = x # xs"
  then show "((r, xs), (r, s)) \<in> measure (\<lambda>(r, s). length s)"
    using re_search_split[of r s h] by (auto dest: arg_cong[where f=length])
next
  fix r s h
  assume "re_search r s = Some h" "matched h \<noteq> []"
  then show "((r, remaining h), (r, s)) \<in> measure (\<lambda>(r, s). length s)"
    using re_search_split[of r s h] by (cases "matched h") (auto dest: arg_cong[where f=length])
qed

definition replace_first :: "re \<Rightarrow> (caps \<Rightarrow> string) \<Rightarrow> string \<Rightarrow> string" where
  \<comment> \<open>\<^verbatim>\<open>s.replace(pattern, replacement)\<close> with a pattern that is not global\<close>
  "replace_first r f s =
     (case re_search r s of None \<Rightarrow> s | Some h \<Rightarrow> skipped h @ f (groups h) @ remaining h)"

declare exec_all.simps [simp del] match_all.simps [simp del]

section \<open>The environment of the server\<close>

text \<open>
  What the server reads from outside is a parameter of the model: the platform name, the
  \<^verbatim>\<open>MCP_WORKSPACE\<close> variable, the promisified \<^verbatim>\<open>child_process.exec\<close>, the \<^verbatim>\<open>glob\<close> package,
  \<^verbatim>\<open>fs.readFile\<close> and \<^verbatim>\<open>fs.access\<close>, the two functions of \<^verbatim>\<open>path\<close> the tools call, the XML
  parser and the working directory of the server.

  A call of \<^verbatim>\<open>execAsync\<close> resolves with the two captured streams when the command exits with
  status 0 in time. It rejects otherwise (another exit status, the timeout, a command that
  cannot be started); the error then carries \<^verbatim>\<open>stdout\<close> and \<^verbatim>\<open>stderr\<close> with what was captured.
  The handlers type the error as \<^verbatim>\<open>any\<close> and \<^verbatim>\<open>validateMavenCompile\<close> guards its read with
  \<^verbatim>\<open>error.stderr || ""\<close>, so a field may be missing: \<^term>\<open>None\<close> is \<^verbatim>\<open>undefined\<close>.
\<close>

datatype exec_result =
    Resolved string string
  | Rejected "string option" "string option"

datatype jsv =
    VUndefined
  | VNull
  | VBool bool
  | VNum string
  | VStr string
  | VArr "jsv list"
  | VObj "(string \<times> jsv) list"

text \<open>
  \<^typ>\<open>jsv\<close> is a value of the object the XML parser returns for \<^verbatim>\<open>pom.xml\<close>: nested objects,
  text, and numbers and booleans where the parser converts text (\<^term>\<open>VNum\<close> holds the text
  the number prints as).
\<close>

record env =
  platform :: string
  MCP_WORKSPACE :: "string option"
  execAsync :: "string \<Rightarrow> string \<Rightarrow> nat \<Rightarrow> exec_result"
  glob :: "string \<Rightarrow> string list"
  readFile :: "string \<Rightarrow> string option"
  path_join :: "string list \<Rightarrow> string"
  path_basename :: "string \<Rightarrow> string option \<Rightarrow> string"
  XMLParser_parse :: "string \<Rightarrow> jsv option"
  access :: "string \<Rightarrow> bool"
  process_cwd :: string

text \<open>
  \<^term>\<open>execAsync e cmd cwd ms\<close> is \<^verbatim>\<open>execAsync(cmd, {cwd, timeout: ms})\<close>;
  \<^term>\<open>readFile e p\<close> is \<^term>\<open>None\<close> when \<^verbatim>\<open>readFile(p, "utf-8")\<close> rejects;
  \<^term>\<open>XMLParser_parse e t\<close> is \<^verbatim>\<open>new XMLParser().parse(t)\<close>, \<^term>\<open>None\<close> when it throws;
  \<^term>\<open>access e p\<close> holds when \<^verbatim>\<open>access(p)\<close> resolves. A call \<^verbatim>\<open>execAsync(cmd)\<close> with no options
  runs in the working directory of the server with the default \<^verbatim>\<open>timeout: 0\<close>, which is no
  timeout: it is \<^term>\<open>execAsync e cmd (process_cwd e) 0\<close>.
\<close>

definition DEFAULT_WORKSPACE :: "env \<Rightarrow> string" where
  \<comment> \<open>\<^verbatim>\<open>process.env.MCP_WORKSPACE || "/workspace"\<close>\<close>
  "DEFAULT_WORKSPACE e =
     (case MCP_WORKSPACE e of None \<Rightarrow> ''/workspace'' | Some w \<Rightarrow> if w = [] then ''/workspace'' else w)"

definition getMavenCommand :: "env \<Rightarrow> string" where
  "getMavenCommand e = (if platform e = ''win32'' then ''mvn.cmd'' else ''mvn'')"

definition driveLetterPattern :: re where
  \<comment> \<open>\<^verbatim>\<open>/^[A-Za-z]:\\/\<close>, matched at the start of the text only\<close>
  "driveLetterPattern =
     cat [One (CUnion (CRange CHR ''A'' CHR ''Z'') (CRange CHR ''a'' CHR ''z'')), Lit [CHR '':'', CHR 0x5C]]"

definition resolveProjectPath :: "env \<Rightarrow> string option \<Rightarrow> string" where
  "resolveProjectPath e input =
     (case input of
        None \<Rightarrow> DEFAULT_WORKSPACE e
      | Some i \<Rightarrow>
          if i = [] \<or> trim i = [] then DEFAULT_WORKSPACE e
          else if hit_at driveLetterPattern i \<noteq> None then DEFAULT_WORKSPACE e
          else i)"

section \<open>The build tools\<close>

definition check_mark :: string where
  \<comment> \<open>U+2713, written as its UTF-8 bytes\<close>
  "check_mark = [CHR 0xE2, CHR 0x9C, CHR 0x93]"

definition cross_mark :: string where
  \<comment> \<open>U+2717, written as its UTF-8 bytes\<close>
  "cross_mark = [CHR 0xE2, CHR 0x9C, CHR 0x97]"

definition errorPattern :: re where
  \<comment> \<open>\<^verbatim>\<open>/\[ERROR\]\s+(.+)/g\<close>\<close>
  "errorPattern = cat [Lit ''[ERROR]'', Plus CSpace, Grp 1 (Plus CDot)]"

definition collect_errors :: "string \<Rightarrow> string list option" where
  \<comment> \<open>the loop that pushes \<^verbatim>\<open>match[1]\<close> of every match of the error pattern\<close>
  "collect_errors stderr = map_option (map (\<lambda>c. grp c 1)) (exec_all errorPattern stderr)"

definition validateMavenCompile :: "env \<Rightarrow> string \<Rightarrow> json outcome" where
  "validateMavenCompile e projectPath =
     (case execAsync e (getMavenCommand e @ '' clean compile test-compile'') projectPath 180000 of
        Resolved stdout stderr \<Rightarrow>
          (let success = str_includes stdout ''BUILD SUCCESS'' in
           case (if \<not> success then collect_errors stderr else Some []) of
             None \<Rightarrow> Never
           | Some errors \<Rightarrow>
               Return (JObj
                 [(''success'', JBool success),
                  (''message'', JStr (if success then check_mark @ '' BUILD SUCCESS''
                                      else cross_mark @ '' BUILD FAILED'')),
                  (''errors'', JArr (map JStr (slice_head 10 errors))),
                  (''recommendation'', JStr (if success then ''Proceed to writing tests''
                                             else ''Fix compilation errors before writing tests''))]))
      | Rejected out err \<Rightarrow>
          (let stderr = (case err of None \<Rightarrow> [] | Some t \<Rightarrow> t) in
           case collect_errors stderr of
             None \<Rightarrow> Never
           | Some errors \<Rightarrow>
               Return (JObj
                 [(''success'', JBool False),
                  (''message'', JStr (cross_mark @ '' BUILD FAILED'')),
                  (''errors'', JArr (map JStr (slice_head 10 errors))),
                  (''recommendation'', JStr ''Fix compilation errors before writing tests'')])))"

definition testsRunPattern :: re where
  \<comment> \<open>\<^verbatim>\<open>/Tests run: (\d+), Failures: (\d+), Errors: (\d+), Skipped: (\d+)/\<close>\<close>
  "testsRunPattern =
     cat [Lit ''Tests run: '', Grp 1 (Plus CDigit), Lit '', Failures: '', Grp 2 (Plus CDigit),
          Lit '', Errors: '', Grp 3 (Plus CDigit), Lit '', Skipped: '', Grp 4 (Plus CDigit)]"

definition failurePattern :: re where
  \<comment> \<open>\<^verbatim>\<open>/<<< FAILURE![^>]*\n([\s\S]*?)(?=\n\n|\nTests run:)/g\<close>\<close>
  "failurePattern =
     cat [Lit ''<<< FAILURE!'', Star (CNot (COneOf ''>'')), Lit [CHR 0x0A],
          Grp 1 (LazyStar (CUnion CSpace (CNot CSpace))),
          Ahead (Alt (Lit [CHR 0x0A, CHR 0x0A]) (Lit (CHR 0x0A # ''Tests run:'')))]"

definition collect_failures :: "string \<Rightarrow> string list option" where
  \<comment> \<open>the loop that pushes \<^verbatim>\<open>failMatch[1].trim().slice(0, 200)\<close>\<close>
  "collect_failures output =
     map_option (map (\<lambda>c. slice_head 200 (trim (grp c 1)))) (exec_all failurePattern output)"

fun js_plus :: "string option \<Rightarrow> string option \<Rightarrow> string option" where
  \<comment> \<open>\<^verbatim>\<open>a + b\<close> on values that are strings or \<^verbatim>\<open>undefined\<close>: text when either is a string,
     the number \<^verbatim>\<open>NaN\<close> (here \<^term>\<open>None\<close>) when neither is\<close>
  "js_plus (Some a) (Some b) = Some (a @ b)"
| "js_plus (Some a) None = Some (a @ ''undefined'')"
| "js_plus None (Some b) = Some (''undefined'' @ b)"
| "js_plus None None = None"

definition runTestCheckpoint :: "env \<Rightarrow> string \<Rightarrow> string \<Rightarrow> string option \<Rightarrow> json outcome" where
  "runTestCheckpoint e projectPath testClass testMethod =
     (let testSpec = (case testMethod of
                        None \<Rightarrow> testClass
                      | Some m \<Rightarrow> if m = [] then testClass else testClass @ ''#'' @ m)
      in case execAsync e (getMavenCommand e @ '' test -Dtest='' @ testSpec) projectPath 120000 of
        Resolved stdout stderr \<Rightarrow>
          (let output = stdout @ stderr in
           case re_search testsRunPattern output of
             None \<Rightarrow>
               Return (JObj
                 [(''success'', JBool False),
                  (''message'', JStr ''Could not parse test results''),
                  (''output'', JStr (slice_tail 500 output))])
           | Some mt \<Rightarrow>
               (let run = grp (groups mt) 1;
                    failures = grp (groups mt) 2;
                    errors = grp (groups mt) 3;
                    skipped = grp (groups mt) 4;
                    success = (failures = ''0'' \<and> errors = ''0'')
                in case (if \<not> success then collect_failures output else Some []) of
                  None \<Rightarrow> Never
                | Some failureMessages \<Rightarrow>
                    Return (JObj
                      [(''success'', JBool success),
                       (''testsRun'', count_json run),
                       (''failures'', count_json failures),
                       (''errors'', count_json errors),
                       (''skipped'', count_json skipped),
                       (''failureMessages'', JArr (map JStr (slice_head 5 failureMessages))),
                       (''recommendation'', JStr (if success
                          then check_mark @ '' Tests passed - continue to next batch''
                          else cross_mark @ '' Fix failures before continuing''))])))
      | Rejected out err \<Rightarrow>
          (case js_plus out err of
             None \<Rightarrow> Throw TypeError
           | Some output \<Rightarrow>
               Return (JObj
                 [(''success'', JBool False),
                  (''message'', JStr ''Test execution failed''),
                  (''output'', JStr (slice_tail 1000 output))])))"

section \<open>The extractors\<close>

text \<open>
  An extractor locates files with \<^verbatim>\<open>glob\<close>, reads them and scans the text. None of them has
  a handler of its own: a file that cannot be read makes the call throw.
\<close>

definition quote_chars :: string where
  \<comment> \<open>the class \<^verbatim>\<open>["']\<close>: the double and the single quote\<close>
  "quote_chars = [CHR 0x22, CHR 0x27]"

definition any_char :: cls where
  \<comment> \<open>\<^verbatim>\<open>[\s\S]\<close>\<close>
  "any_char = CUnion CSpace (CNot CSpace)"

definition new_Set :: "'a list \<Rightarrow> 'a list" where
  \<comment> \<open>the elements of \<^verbatim>\<open>new Set(xs)\<close> in iteration order: each value once, where it came first\<close>
  "new_Set xs = foldl (\<lambda>acc x. if x \<in> set acc then acc else acc @ [x]) [] xs"

definition obj_set :: "(string \<times> json) list \<Rightarrow> string \<Rightarrow> json \<Rightarrow> (string \<times> json) list" where
  \<comment> \<open>\<^verbatim>\<open>obj[key] = v\<close>: a new key goes last, an old one keeps its place\<close>
  "obj_set kvs key v =
     (if key \<in> fst ` set kvs then map (\<lambda>(k, w). if k = key then (k, v) else (k, w)) kvs
      else kvs @ [(key, v)])"

definition findJavaFiles :: "env \<Rightarrow> string \<Rightarrow> string \<Rightarrow> string list" where
  "findJavaFiles e projectPath pattern =
     glob e (path_join e [projectPath, ''src'', ''main'', ''java''] @ ''/**/'' @ pattern @ ''.java'')"

definition getClaimPattern :: re where
  \<comment> \<open>\<^verbatim>\<open>/\.get(?:Claim)?\(['"]([\w_]+)['"]\)/g\<close>\<close>
  "getClaimPattern =
     cat [Lit ''.get'', Opt (Lit ''Claim''), Lit ''('', One (COneOf quote_chars),
          Grp 1 (Plus (CUnion CWord (COneOf ''_''))), One (COneOf quote_chars), Lit '')'']"

definition customClaimPattern :: re where
  \<comment> \<open>\<^verbatim>\<open>/claims\.get\(['"]([\w_]+)['"]\)/g\<close>\<close>
  "customClaimPattern =
     cat [Lit ''claims.get('', One (COneOf quote_chars),
          Grp 1 (Plus (CUnion CWord (COneOf ''_''))), One (COneOf quote_chars), Lit '')'']"

definition jwt_file :: "string \<Rightarrow> string list \<times> (string \<times> json) list \<Rightarrow> string list \<times> (string \<times> json) list" where
  \<comment> \<open>the body of the loop over the JWT files, on the text of one file\<close>
  "jwt_file content st =
     (let (claims, claimMethods) = st;
          claims = claims @ map (\<lambda>c. grp c 1) (match_all getClaimPattern content);
          claimMethods = (if str_includes content ''.getId()''
                          then obj_set claimMethods ''jti'' (JStr ''getUserId() or similar'')
                          else claimMethods);
          claimMethods = (if str_includes content ''.getSubject()''
                          then obj_set claimMethods ''sub'' (JStr ''getEmail() or username'')
                          else claimMethods);
          claims = claims @ map (\<lambda>c. grp c 1) (match_all customClaimPattern content)
      in (claims, claimMethods))"

fun jwt_files :: "env \<Rightarrow> string list \<Rightarrow> string list \<times> (string \<times> json) list
                   \<Rightarrow> (string list \<times> (string \<times> json) list) outcome" where
  "jwt_files e [] st = Return st"
| "jwt_files e (file # files) st =
     (case readFile e file of
        None \<Rightarrow> Throw IoError
      | Some content \<Rightarrow> jwt_files e files (jwt_file content st))"

definition investigateJwtClaims :: "env \<Rightarrow> string \<Rightarrow> json outcome" where
  "investigateJwtClaims e projectPath =
     (let jwtUtilFiles = findJavaFiles e projectPath ''*JwtTokenUtil*'';
          jwtFilterFiles = findJavaFiles e projectPath ''*JwtRequestFilter*'';
          jwtFiles = jwtUtilFiles @ jwtFilterFiles
      in if length jwtFiles = 0
         then Return (JObj
           [(''found'', JBool False),
            (''message'', JStr (''No JWT utility files found. Search for files containing ''
                                @ [CHR 0x27] @ ''Jwt'' @ [CHR 0x27]))])
         else case jwt_files e jwtFiles ([], []) of
           Return (claims, claimMethods) \<Rightarrow>
             Return (JObj
               [(''found'', JBool True),
                (''file'', JStr (path_basename e (hd jwtFiles) None)),
                (''standardClaims'', JObj claimMethods),
                (''customClaims'', JArr (map JStr (new_Set claims))),
                (''recommendation'', JStr ''Include these claims in BaseIntegrationTest.generateTestToken()'')])
         | Throw x \<Rightarrow> Throw x
         | Never \<Rightarrow> Never)"

definition wrapperPattern :: re where
  \<comment> \<open>\<^verbatim>\<open>/class\s+\w+\s*\{[^}]*(\w+)\s*:/\<close>\<close>
  "wrapperPattern =
     cat [Lit ''class'', Plus CSpace, Plus CWord, Star CSpace, Lit ''{'', Star (CNot (COneOf ''}'')),
          Grp 1 (Plus CWord), Star CSpace, Lit '':'']"

record wrapper_state =
  hasWrapper :: bool
  wrapperClass :: string
  wrapperField :: string

definition wrapper_file :: "env \<Rightarrow> string \<Rightarrow> string \<Rightarrow> wrapper_state \<Rightarrow> wrapper_state" where
  "wrapper_file e file content st =
     (if str_includes content ''ResponseBodyAdvice'' \<or> str_includes content ''@ControllerAdvice''
      then (let st = st\<lparr>hasWrapper := True, wrapperClass := path_basename e file (Some ''.java'')\<rparr>
            in case re_search wrapperPattern content of
                 None \<Rightarrow> st
               | Some mt \<Rightarrow> st\<lparr>wrapperField := grp (groups mt) 1\<rparr>)
      else st)"

fun wrapper_files :: "env \<Rightarrow> string list \<Rightarrow> wrapper_state \<Rightarrow> wrapper_state outcome" where
  "wrapper_files e [] st = Return st"
| "wrapper_files e (file # files) st =
     (case readFile e file of
        None \<Rightarrow> Throw IoError
      | Some content \<Rightarrow> wrapper_files e files (wrapper_file e file content st))"

definition investigateResponseWrapper :: "env \<Rightarrow> string \<Rightarrow> json outcome" where
  "investigateResponseWrapper e projectPath =
     (let adviceFiles = findJavaFiles e projectPath ''*Advice*'';
          configFiles = findJavaFiles e projectPath ''*Response*'';
          allFiles = adviceFiles @ configFiles
      in case wrapper_files e allFiles \<lparr>hasWrapper = False, wrapperClass = [], wrapperField = ''data''\<rparr> of
           Return st \<Rightarrow>
             Return (JObj
               [(''hasWrapper'', JBool (hasWrapper st)),
                (''wrapperClass'', JStr (if hasWrapper st then wrapperClass st else ''None'')),
                (''wrapperField'', JStr (if hasWrapper st then wrapperField st else ''N/A'')),
                (''jsonPathPrefix'', JStr (if hasWrapper st then ''$.'' @ wrapperField st else ''$'')),
                (''recommendation'', JStr (if hasWrapper st
                   then ''Use jsonPath('' @ [CHR 0x22] @ ''$.'' @ wrapperField st @ ''.id'' @ [CHR 0x22]
                        @ '') in controller tests''
                   else ''Use jsonPath('' @ [CHR 0x22] @ ''$.id'' @ [CHR 0x22]
                        @ '') directly in controller tests''))])
         | Throw x \<Rightarrow> Throw x
         | Never \<Rightarrow> Never)"

definition manyToOnePattern :: re where
  \<comment> \<open>\<^verbatim>\<open>/@ManyToOne[\s\S]*?private\s+(\w+)\s+(\w+);/g\<close>\<close>
  "manyToOnePattern =
     cat [Lit ''@ManyToOne'', LazyStar any_char, Lit ''private'', Plus CSpace, Grp 1 (Plus CWord),
          Plus CSpace, Grp 2 (Plus CWord), Lit '';'']"

definition oneToManyPattern :: re where
  \<comment> \<open>\<^verbatim>\<open>/@OneToMany[\s\S]*?private\s+(?:List|Set)<(\w+)>\s+(\w+);/g\<close>\<close>
  "oneToManyPattern =
     cat [Lit ''@OneToMany'', LazyStar any_char, Lit ''private'', Plus CSpace,
          Alt (Lit ''List'') (Lit ''Set''), Lit ''<'', Grp 1 (Plus CWord), Lit ''>'',
          Plus CSpace, Grp 2 (Plus CWord), Lit '';'']"

definition inheritancePattern :: re where
  \<comment> \<open>\<^verbatim>\<open>/extends\s+(\w+)/\<close>\<close>
  "inheritancePattern = cat [Lit ''extends'', Plus CSpace, Grp 1 (Plus CWord)]"

definition warning_sign :: string where
  \<comment> \<open>U+26A0 U+FE0F, written as their UTF-8 bytes\<close>
  "warning_sign = [CHR 0xE2, CHR 0x9A, CHR 0xA0, CHR 0xEF, CHR 0xB8, CHR 0x8F]"

definition manyToOne_entry :: "string \<Rightarrow> caps \<Rightarrow> json" where
  \<comment> \<open>the object pushed for one match of the to-one pattern; the argument of \<^verbatim>\<open>includes\<close> is
     the text \<^verbatim>\<open>@JoinColumn.*\<close>field\<^verbatim>\<open>.*nullable.*true\<close>, dots and stars included\<close>
  "manyToOne_entry content c =
     JObj [(''type'', JStr (grp c 1)),
           (''field'', JStr (grp c 2)),
           (''required'', JBool (\<not> str_includes content (''@JoinColumn.*'' @ grp c 2 @ ''.*nullable.*true'')))]"

definition oneToMany_entry :: "caps \<Rightarrow> json" where
  "oneToMany_entry c = JObj [(''type'', JStr (grp c 1)), (''field'', JStr (grp c 2))]"

definition entry_type :: "json \<Rightarrow> string" where
  \<comment> \<open>\<^verbatim>\<open>r.type\<close> of a pushed entry\<close>
  "entry_type r = (case jget r ''type'' of Some (JStr t) \<Rightarrow> t | _ \<Rightarrow> [])"

definition investigateEntityRelationships :: "env \<Rightarrow> string \<Rightarrow> string \<Rightarrow> json outcome" where
  "investigateEntityRelationships e projectPath entityName =
     (let entityFiles = findJavaFiles e projectPath entityName
      in if length entityFiles = 0
         then Return (JObj
           [(''found'', JBool False),
            (''message'', JStr (''Entity '' @ entityName @ '' not found''))])
         else case readFile e (hd entityFiles) of
           None \<Rightarrow> Throw IoError
         | Some content \<Rightarrow>
             (case exec_all manyToOnePattern content of
                None \<Rightarrow> Never
              | Some ms1 \<Rightarrow>
                  (case exec_all oneToManyPattern content of
                     None \<Rightarrow> Never
                   | Some ms2 \<Rightarrow>
                       (let manyToOne = map (manyToOne_entry content) ms1;
                            oneToMany = map oneToMany_entry ms2;
                            inheritance = (case re_search inheritancePattern content of
                                             None \<Rightarrow> JNull
                                           | Some mt \<Rightarrow> JStr (grp (groups mt) 1));
                            hasDiscriminator = str_includes content ''@DiscriminatorColumn''
                        in Return (JObj
                          [(''found'', JBool True),
                           (''entity'', JStr entityName),
                           (''inheritance'', inheritance),
                           (''discriminator'', JBool hasDiscriminator),
                           (''relationships'', JObj
                              [(''manyToOne'', JArr manyToOne),
                               (''oneToMany'', JArr oneToMany),
                               (''oneToOne'', JArr []),
                               (''manyToMany'', JArr [])]),
                           (''creationOrder'', JArr (map JStr
                              (map (\<lambda>r. ''1. Create '' @ entry_type r @ '' first (required dependency)'') manyToOne
                               @ [''2. Create '' @ entityName]
                               @ map (\<lambda>r. ''3. Create '' @ entry_type r @ '' (children)'') oneToMany))),
                           (''warning'', (if hasDiscriminator
                              then JStr (warning_sign @ '' This entity uses inheritance - use specific subclass, not base ''
                                         @ entityName @ '' class'')
                              else JNull))])))))"

fun indexOf :: "string \<Rightarrow> string \<Rightarrow> int" where
  \<comment> \<open>\<^verbatim>\<open>s.indexOf(needle)\<close>: where the needle first starts, \<open>-1\<close> when it does not occur\<close>
  "indexOf [] needle = (if needle = [] then 0 else -1)"
| "indexOf (x # xs) needle =
     (if prefix needle (x # xs) then 0
      else (let i = indexOf xs needle in if i < 0 then -1 else i + 1))"

definition toUpperCase :: "string \<Rightarrow> string" where
  \<comment> \<open>on ASCII letters, which is all the five verb names hold\<close>
  "toUpperCase s =
     map (\<lambda>c. if CHR ''a'' \<le> c \<and> c \<le> CHR ''z'' then char_of (of_char c - (32::nat)) else c) s"

definition mappingPattern :: re where
  \<comment> \<open>\<^verbatim>\<open>/@(Get|Post|Put|Delete|Patch)Mapping\([^)]*["']([^"']+)["'][^)]*\)\s+public\s+[\w<>]+\s+(\w+)/g\<close>\<close>
  "mappingPattern =
     cat [Lit ''@'',
          Grp 1 (Alt (Lit ''Get'') (Alt (Lit ''Post'') (Alt (Lit ''Put'') (Alt (Lit ''Delete'') (Lit ''Patch''))))),
          Lit ''Mapping('', Star (CNot (COneOf '')'')), One (COneOf quote_chars),
          Grp 2 (Plus (CNot (COneOf quote_chars))), One (COneOf quote_chars),
          Star (CNot (COneOf '')'')), Lit '')'', Plus CSpace, Lit ''public'', Plus CSpace,
          Plus (CUnion CWord (COneOf ''<>'')), Plus CSpace, Grp 3 (Plus CWord)]"

definition basePathPattern :: re where
  \<comment> \<open>\<^verbatim>\<open>/@RequestMapping\(["']([^"']+)["']\)/\<close>\<close>
  "basePathPattern =
     cat [Lit ''@RequestMapping('', One (COneOf quote_chars), Grp 1 (Plus (CNot (COneOf quote_chars))),
          One (COneOf quote_chars), Lit '')'']"

definition analyzeController :: "env \<Rightarrow> string \<Rightarrow> string \<Rightarrow> json outcome" where
  "analyzeController e projectPath controllerName =
     (let controllerFiles = findJavaFiles e projectPath controllerName
      in if length controllerFiles = 0
         then Return (JObj
           [(''found'', JBool False),
            (''message'', JStr (''Controller '' @ controllerName @ '' not found''))])
         else case readFile e (hd controllerFiles) of
           None \<Rightarrow> Throw IoError
         | Some content \<Rightarrow>
             (case exec_all mappingPattern content of
                None \<Rightarrow> Never
              | Some ms \<Rightarrow>
                  (let requiresAuth = (str_includes content ''@PreAuthorize'' \<or> \<not> str_includes content ''@PermitAll'');
                       basePath = (case re_search basePathPattern content of
                                     None \<Rightarrow> []
                                   | Some mt \<Rightarrow> grp (groups mt) 1)
                   in Return (JObj
                     [(''found'', JBool True),
                      (''controller'', JStr controllerName),
                      (''basePath'', JStr basePath),
                      (''requiresAuth'', JBool requiresAuth),
                      (''endpointCount'', JNum (length ms)),
                      (''endpoints'', JArr (map (\<lambda>c. JObj
                         [(''method'', JStr (toUpperCase (grp c 1))),
                          (''path'', JStr (grp c 2)),
                          (''handlerMethod'', JStr (grp c 3)),
                          (''fullPath'', JStr (basePath @ grp c 2))]) ms)),
                      (''testRecommendation'', JObj
                         [(''authTests'', JStr (if requiresAuth then ''Write auth tests first (401 unauthorized)''
                                                else ''No auth required'')),
                          (''crudTests'', JStr (''Write tests for '' @ show_nat (length ms) @ '' endpoints''))])]))))"

definition methodPattern :: re where
  \<comment> \<open>\<^verbatim>\<open>/(?:@Query[^)]*\))?\s*([\w<>]+)\s+(\w+)\s*\([^)]*\)/g\<close>\<close>
  "methodPattern =
     cat [Opt (cat [Lit ''@Query'', Star (CNot (COneOf '')'')), Lit '')'']), Star CSpace,
          Grp 1 (Plus (CUnion CWord (COneOf ''<>''))), Plus CSpace, Grp 2 (Plus CWord), Star CSpace,
          Lit ''('', Star (CNot (COneOf '')'')), Lit '')'']"

definition is_query_method :: "string \<Rightarrow> bool" where
  \<comment> \<open>the names the loop does not skip\<close>
  "is_query_method name =
     (prefix ''find'' name \<or> prefix ''count'' name \<or> prefix ''exists'' name \<or> prefix ''delete'' name)"

definition is_custom :: "json \<Rightarrow> bool" where
  \<comment> \<open>\<^verbatim>\<open>m.isCustomQuery\<close> of a pushed entry\<close>
  "is_custom m = (jget m ''isCustomQuery'' = Some (JBool True))"

definition analyzeRepository :: "env \<Rightarrow> string \<Rightarrow> string \<Rightarrow> json outcome" where
  "analyzeRepository e projectPath repositoryName =
     (let repoFiles = findJavaFiles e projectPath repositoryName
      in if length repoFiles = 0
         then Return (JObj
           [(''found'', JBool False),
            (''message'', JStr (''Repository '' @ repositoryName @ '' not found''))])
         else case readFile e (hd repoFiles) of
           None \<Rightarrow> Throw IoError
         | Some content \<Rightarrow>
             (case exec_all methodPattern content of
                None \<Rightarrow> Never
              | Some ms \<Rightarrow>
                  (let queryMethods =
                         map (\<lambda>c. JObj
                           [(''returnType'', JStr (grp c 1)),
                            (''methodName'', JStr (grp c 2)),
                            (''isCustomQuery'', JBool (str_includes content ''@Query'' \<and>
                                 indexOf content ''@Query'' < indexOf content (grp c 2)))])
                           (filter (\<lambda>c. is_query_method (grp c 2)) ms);
                       hasSoftDelete = (str_includes content ''@Where'' \<and> str_includes content ''deleted'')
                   in Return (JObj
                     [(''found'', JBool True),
                      (''repository'', JStr repositoryName),
                      (''queryMethodCount'', JNum (length queryMethods)),
                      (''queryMethods'', JArr (slice_head 10 queryMethods)),
                      (''hasSoftDelete'', JBool hasSoftDelete),
                      (''testRecommendation'', JObj
                         [(''softDeleteWarning'', (if hasSoftDelete
                              then JStr (warning_sign @ '' Always set .deleted(false) in test data'')
                              else JNull)),
                          (''customQueryTests'', JStr (if length (filter is_custom queryMethods) > 0
                              then ''Write tests for custom @Query methods''
                              else ''Standard Spring Data methods can use template''))])]))))"

definition autowiredPattern :: re where
  \<comment> \<open>\<^verbatim>\<open>/@Autowired\s+(?:private\s+)?(\w+Repository)\s+\w+/g\<close>\<close>
  "autowiredPattern =
     cat [Lit ''@Autowired'', Plus CSpace, Opt (cat [Lit ''private'', Plus CSpace]),
          Grp 1 (cat [Plus CWord, Lit ''Repository'']), Plus CSpace, Plus CWord]"

definition publicMethodPattern :: re where
  \<comment> \<open>\<^verbatim>\<open>/public\s+[\w<>]+\s+(\w+)\s*\(/g\<close>\<close>
  "publicMethodPattern =
     cat [Lit ''public'', Plus CSpace, Plus (CUnion CWord (COneOf ''<>'')), Plus CSpace,
          Grp 1 (Plus CWord), Star CSpace, Lit ''('']"

definition throwPattern :: re where
  \<comment> \<open>\<^verbatim>\<open>/throw\s+new\s+(\w+Exception)/g\<close>\<close>
  "throwPattern =
     cat [Lit ''throw'', Plus CSpace, Lit ''new'', Plus CSpace, Grp 1 (cat [Plus CWord, Lit ''Exception''])]"

definition investigateService :: "env \<Rightarrow> string \<Rightarrow> string \<Rightarrow> json outcome" where
  "investigateService e projectPath serviceName =
     (let serviceFiles = findJavaFiles e projectPath serviceName
      in if length serviceFiles = 0
         then Return (JObj
           [(''found'', JBool False),
            (''message'', JStr (''Service '' @ serviceName @ '' not found''))])
         else case readFile e (hd serviceFiles) of
           None \<Rightarrow> Throw IoError
         | Some content \<Rightarrow>
             (case exec_all autowiredPattern content of
                None \<Rightarrow> Never
              | Some ms1 \<Rightarrow>
             (case exec_all publicMethodPattern content of
                None \<Rightarrow> Never
              | Some ms2 \<Rightarrow>
             (case exec_all throwPattern content of
                None \<Rightarrow> Never
              | Some ms3 \<Rightarrow>
                  (let repositories = map (\<lambda>c. grp c 1) ms1;
                       publicMethods = map (\<lambda>c. grp c 1) ms2;
                       exceptions = new_Set (map (\<lambda>c. grp c 1) ms3);
                       isTransactional = str_includes content ''@Transactional''
                   in Return (JObj
                     [(''found'', JBool True),
                      (''service'', JStr serviceName),
                      (''isTransactional'', JBool isTransactional),
                      (''repositoryDependencies'', JArr (map JStr repositories)),
                      (''publicMethodCount'', JNum (length publicMethods)),
                      (''publicMethods'', JArr (map JStr (slice_head 10 publicMethods))),
                      (''exceptionTypes'', JArr (map JStr exceptions)),
                      (''testRecommendation'', JObj
                         [(''setup'', JStr (''Autowire: '' @ serviceName @ '' and '' @ js_join '', '' repositories)),
                          (''happyPath'', JStr (''Test '' @ show_nat (length publicMethods) @ '' public methods'')),
                          (''exceptions'', JStr (if length exceptions > 0
                              then ''Write tests for '' @ js_join '', '' exceptions
                              else ''No explicit exception tests needed''))])]))))))"

definition valuePattern :: re where
  \<comment> \<open>\<^verbatim>\<open>/@Value\(["'](\$\{[^}]+\})["']\)/g\<close>\<close>
  "valuePattern =
     cat [Lit ''@Value('', One (COneOf quote_chars),
          Grp 1 (cat [Lit ''${'', Plus (CNot (COneOf ''}'')), Lit ''}'']),
          One (COneOf quote_chars), Lit '')'']"

definition propNamePattern :: re where
  \<comment> \<open>\<^verbatim>\<open>/\$\{([^:}]+).*\}/\<close>\<close>
  "propNamePattern = cat [Lit ''${'', Grp 1 (Plus (CNot (COneOf '':}''))), Star CDot, Lit ''}'']"

definition file_properties :: "string \<Rightarrow> string list \<Rightarrow> string list option" where
  \<comment> \<open>the inner loop on the text of one file: \<^verbatim>\<open>properties.add(propName)\<close> for every match\<close>
  "file_properties content properties =
     map_option
       (foldl (\<lambda>acc c. let propName = replace_first propNamePattern (\<lambda>g. grp g 1) (grp c 1)
                        in if propName \<in> set acc then acc else acc @ [propName]) properties)
       (exec_all valuePattern content)"

fun scan_properties :: "env \<Rightarrow> string list \<Rightarrow> string list \<Rightarrow> string list outcome" where
  "scan_properties e [] properties = Return properties"
| "scan_properties e (file # files) properties =
     (case readFile e file of
        None \<Rightarrow> Throw IoError
      | Some content \<Rightarrow>
          (case file_properties content properties of
             None \<Rightarrow> Never
           | Some properties' \<Rightarrow> scan_properties e files properties'))"

definition findMissingProperties :: "env \<Rightarrow> string \<Rightarrow> json outcome" where
  "findMissingProperties e projectPath =
     (let srcPath = path_join e [projectPath, ''src'', ''main'', ''java''];
          javaFiles = glob e (srcPath @ ''/**/*.java'')
      in case scan_properties e javaFiles [] of
           Throw x \<Rightarrow> Throw x
         | Never \<Rightarrow> Never
         | Return properties \<Rightarrow>
             (let testPropsPath = path_join e [projectPath, ''src'', ''test'', ''resources'',
                                               ''application-test.properties'']
              in case readFile e testPropsPath of
                   None \<Rightarrow>
                     Return (JObj
                       [(''found'', JBool True),
                        (''totalProperties'', JNum (length properties)),
                        (''missingProperties'', JArr (map JStr properties)),
                        (''testPropertiesFileExists'', JBool False),
                        (''action'', JStr ''Create src/test/resources/application-test.properties with these properties'')])
                 | Some testProps \<Rightarrow>
                     (let missingProps = filter (\<lambda>prop. \<not> str_includes testProps prop) properties
                      in Return (JObj
                        [(''found'', JBool True),
                         (''totalProperties'', JNum (length properties)),
                         (''missingProperties'', JArr (map JStr missingProps)),
                         (''testPropertiesFileExists'', JBool True),
                         (''action'', JStr (if length missingProps > 0
                            then ''Add these '' @ show_nat (length missingProps) @ '' properties to application-test.properties''
                            else ''All properties are defined in test config '' @ check_mark))]))))"

fun split_on :: "char \<Rightarrow> string \<Rightarrow> string list" where
  \<comment> \<open>\<^verbatim>\<open>s.split(c)\<close> with a separator of one character\<close>
  "split_on c [] = [[]]"
| "split_on c (x # xs) =
     (if x = c then [] # split_on c xs
      else (case split_on c xs of [] \<Rightarrow> [[x]] | y # ys \<Rightarrow> (x # y) # ys))"

fun remove_first :: "string \<Rightarrow> string \<Rightarrow> string" where
  \<comment> \<open>\<^verbatim>\<open>s.replace(text, "")\<close> with literal text: its first occurrence is cut out\<close>
  "remove_first t [] = []"
| "remove_first t (x # xs) =
     (if prefix t (x # xs) then drop (length t) (x # xs) else x # remove_first t xs)"

definition toLowerCase :: "string \<Rightarrow> string" where
  \<comment> \<open>on ASCII letters; the keywords it is compared with are ASCII\<close>
  "toLowerCase s =
     map (\<lambda>c. if CHR ''A'' \<le> c \<and> c \<le> CHR ''Z'' then char_of (of_char c + (32::nat)) else c) s"

definition bump :: "(string \<times> nat) list \<Rightarrow> string \<Rightarrow> (string \<times> nat) list" where
  \<comment> \<open>\<^verbatim>\<open>strategies[key] = (strategies[key] || 0) + 1\<close>\<close>
  "bump kvs key =
     (if key \<in> fst ` set kvs then map (\<lambda>(k, n). if k = key then (k, n + 1) else (k, n)) kvs
      else kvs @ [(key, 1)])"

definition naming_file :: "string \<Rightarrow> (string \<times> nat) list \<Rightarrow> (string \<times> nat) list" where
  "naming_file content strategies =
     (if str_includes content ''@JsonNaming(PropertyNamingStrategies.SnakeCaseStrategy''
      then bump strategies ''snake_case''
      else if str_includes content ''@JsonNaming'' then bump strategies ''other''
      else bump strategies ''camelCase'')"

fun naming_files :: "env \<Rightarrow> string list \<Rightarrow> (string \<times> nat) list \<Rightarrow> (string \<times> nat) list outcome" where
  "naming_files e [] strategies = Return strategies"
| "naming_files e (file # files) strategies =
     (case readFile e file of
        None \<Rightarrow> Throw IoError
      | Some content \<Rightarrow> naming_files e files (naming_file content strategies))"

definition checkJsonNamingStrategy :: "env \<Rightarrow> string \<Rightarrow> string \<Rightarrow> json outcome" where
  "checkJsonNamingStrategy e projectPath dtoPackage =
     (let dtoPath = path_join e ([projectPath, ''src'', ''main'', ''java''] @ split_on CHR ''.'' dtoPackage);
          dtoFiles = glob e (dtoPath @ ''/**/*.java'')
      in case naming_files e dtoFiles [] of
           Throw x \<Rightarrow> Throw x
         | Never \<Rightarrow> Never
         | Return strategies \<Rightarrow>
             (let sorted_entries = sort_key (\<lambda>(k, n). - int n) strategies;
                  snake = (sorted_entries \<noteq> [] \<and> fst (hd sorted_entries) = ''snake_case'')
              in Return (JObj
                [(''dtoPackage'', JStr dtoPackage),
                 (''filesAnalyzed'', JNum (length dtoFiles)),
                 (''strategies'', JObj (map (\<lambda>(k, n). (k, JNum n)) strategies)),
                 (''primaryStrategy'', JStr (if sorted_entries \<noteq> [] then fst (hd sorted_entries)
                                             else ''camelCase'')),
                 (''recommendation'', JStr (if snake
                    then ''Use snake_case in JSON: {'' @ [CHR 0x22] @ ''company_id'' @ [CHR 0x22] @ '': 100}''
                    else ''Use camelCase in JSON: {'' @ [CHR 0x22] @ ''companyId'' @ [CHR 0x22] @ '': 100}''))])))"

definition exclusion_keywords :: "string list" where
  \<comment> \<open>the array \<^verbatim>\<open>keywords\<close> of the source\<close>
  "exclusion_keywords = [''aws'', ''tenant'', ''secret'', ''s3'', ''dynamo'', ''sqs'', ''sns'']"

definition bean_file :: "env \<Rightarrow> string \<Rightarrow> string \<Rightarrow> string \<Rightarrow> json list \<Rightarrow> json list" where
  \<comment> \<open>the body of the loop over the source files, on one file and its text\<close>
  "bean_file e projectPath file content beansToExclude =
     (let fileName = path_basename e file (Some ''.java'');
          isBean = (str_includes content ''@Configuration'' \<or> str_includes content ''@Service''
                    \<or> str_includes content ''@Component'');
          hit = (\<lambda>k. str_includes (toLowerCase fileName) k \<or> str_includes (toLowerCase content) k)
      in if isBean \<and> list_ex hit exclusion_keywords \<and> \<not> str_includes content ''@Profile''
         then beansToExclude @
              [JObj [(''file'', JStr fileName),
                     (''path'', JStr (remove_first projectPath file)),
                     (''reason'', JArr (map JStr (filter hit exclusion_keywords)))]]
         else beansToExclude)"

fun bean_files :: "env \<Rightarrow> string \<Rightarrow> string list \<Rightarrow> json list \<Rightarrow> json list outcome" where
  "bean_files e projectPath [] beans = Return beans"
| "bean_files e projectPath (file # files) beans =
     (case readFile e file of
        None \<Rightarrow> Throw IoError
      | Some content \<Rightarrow> bean_files e projectPath files (bean_file e projectPath file content beans))"

definition findBeansNeedingExclusion :: "env \<Rightarrow> string \<Rightarrow> json outcome" where
  "findBeansNeedingExclusion e projectPath =
     (let srcPath = path_join e [projectPath, ''src'', ''main'', ''java''];
          javaFiles = glob e (srcPath @ ''/**/*.java'')
      in case bean_files e projectPath javaFiles [] of
           Throw x \<Rightarrow> Throw x
         | Never \<Rightarrow> Never
         | Return beansToExclude \<Rightarrow>
             Return (JObj
               [(''found'', JNum (length beansToExclude)),
                (''beansToExclude'', JArr beansToExclude),
                (''recommendation'', JStr (if length beansToExclude > 0
                   then ''Add @Profile('' @ [CHR 0x22] @ ''!test'' @ [CHR 0x22] @ '') to these ''
                        @ show_nat (length beansToExclude) @ '' classes''
                   else ''No beans found that need exclusion'')),
                (''action'', JStr (''Add: @Profile('' @ [CHR 0x22] @ ''!test'' @ [CHR 0x22]
                                   @ '') above @Configuration/@Service/@Component''))]))"

subsection \<open>The manifest\<close>

definition js_prop :: "jsv \<Rightarrow> string \<Rightarrow> jsv" where
  \<comment> \<open>\<^verbatim>\<open>v?.[key]\<close>: the property of an object, \<^verbatim>\<open>undefined\<close> on anything else\<close>
  "js_prop v key = (case v of VObj kvs \<Rightarrow> (case map_of kvs key of None \<Rightarrow> VUndefined | Some x \<Rightarrow> x)
                 | _ \<Rightarrow> VUndefined)"

fun truthy :: "jsv \<Rightarrow> bool" where
  "truthy VUndefined = False"
| "truthy VNull = False"
| "truthy (VBool b) = b"
| "truthy (VNum t) = (t \<notin> set [''0'', ''-0'', ''NaN''])"
| "truthy (VStr s) = (s \<noteq> [])"
| "truthy (VArr xs) = True"
| "truthy (VObj kvs) = True"

definition js_or :: "jsv \<Rightarrow> jsv \<Rightarrow> jsv" where
  \<comment> \<open>\<^verbatim>\<open>a || b\<close>\<close>
  "js_or a b = (if truthy a then a else b)"

fun js_toString :: "jsv \<Rightarrow> string option" where
  \<comment> \<open>the conversion of a value to a string; \<^term>\<open>None\<close> is the \<^verbatim>\<open>TypeError\<close> of an object
     whose own \<^verbatim>\<open>toString\<close> is a parsed value, which cannot be called\<close>
  "js_toString VUndefined = Some ''undefined''"
| "js_toString VNull = Some ''null''"
| "js_toString (VBool b) = Some (if b then ''true'' else ''false'')"
| "js_toString (VNum t) = Some t"
| "js_toString (VStr s) = Some s"
| "js_toString (VArr xs) =
     (let parts = map (\<lambda>x. if x = VUndefined \<or> x = VNull then Some [] else js_toString x) xs
      in if None \<in> set parts then None else Some (js_join '','' (map the parts)))"
| "js_toString (VObj kvs) =
     (if ''toString'' \<in> set (map fst kvs) then None else Some ''[object Object]'')"

fun to_json :: "jsv \<Rightarrow> json" where
  \<comment> \<open>what \<^verbatim>\<open>JSON.stringify\<close> prints for a value of the parser\<close>
  "to_json VUndefined = JNull"
| "to_json VNull = JNull"
| "to_json (VBool b) = JBool b"
| "to_json (VNum t) = (if t \<in> set [''NaN'', ''Infinity'', ''-Infinity''] then JNull else JDec t)"
| "to_json (VStr s) = JStr s"
| "to_json (VArr xs) = JArr (map to_json xs)"
| "to_json (VObj kvs) = JObj (map (\<lambda>(k, v). (k, to_json v)) (filter (\<lambda>(k, v). v \<noteq> VUndefined) kvs))"

definition digit_value :: "nat \<Rightarrow> char \<Rightarrow> nat option" where
  \<comment> \<open>the value of a digit in radix 10 or 16\<close>
  "digit_value radix c =
     (if is_digit c then Some (of_char c - 48)
      else if radix = 16 \<and> CHR ''a'' \<le> c \<and> c \<le> CHR ''f'' then Some (of_char c - 87)
      else if radix = 16 \<and> CHR ''A'' \<le> c \<and> c \<le> CHR ''F'' then Some (of_char c - 55)
      else None)"

definition js_parseInt :: "string \<Rightarrow> int option" where
  \<comment> \<open>\<^verbatim>\<open>parseInt(s)\<close> with no radix: white space, a sign, \<^verbatim>\<open>0x\<close> for radix 16, then the
     longest run of digits; \<^term>\<open>None\<close> is \<^verbatim>\<open>NaN\<close>\<close>
  "js_parseInt s =
     (let s1 = dropWhile is_space s;
          neg = (s1 \<noteq> [] \<and> hd s1 = CHR ''-'');
          s2 = (if s1 \<noteq> [] \<and> (hd s1 = CHR ''-'' \<or> hd s1 = CHR ''+'') then tl s1 else s1);
          hex = (prefix ''0x'' s2 \<or> prefix ''0X'' s2);
          radix = (if hex then 16 else 10);
          s3 = (if hex then drop 2 s2 else s2);
          ds = takeWhile (\<lambda>c. digit_value radix c \<noteq> None) s3;
          n = foldl (\<lambda>n c. radix * n + the (digit_value radix c)) 0 ds
      in if ds = [] then None else Some (if neg then - int n else int n))"

definition pom_error :: json where
  "pom_error = JObj [(''error'', JStr ''Could not parse pom.xml''),
                     (''message'', JStr ''Ensure pom.xml exists and is valid XML'')]"

definition checkSpringBootVersion :: "env \<Rightarrow> string \<Rightarrow> json outcome" where
  "checkSpringBootVersion e projectPath =
     (let pomPath = path_join e [projectPath, ''pom.xml'']
      in case readFile e pomPath of
           None \<Rightarrow> Return pom_error
         | Some pomContent \<Rightarrow>
             (case XMLParser_parse e pomContent of
                None \<Rightarrow> Return pom_error
              | Some pom \<Rightarrow>
                  if pom = VUndefined \<or> pom = VNull then Return pom_error
                  else
                    (let project = js_prop pom ''project'';
                         springBootVersion =
                           js_or (js_prop (js_prop project ''parent'') ''version'')
                             (js_or (js_prop (js_prop project ''properties'') ''spring-boot.version'') (VStr ''Unknown''));
                         javaVersion =
                           js_or (js_prop (js_prop project ''properties'') ''java.version'')
                             (js_or (js_prop (js_prop project ''properties'') ''maven.compiler.source'') (VStr ''Unknown''))
                     in case (springBootVersion, js_toString javaVersion) of
                          (VStr version, Some javaText) \<Rightarrow>
                            (let isSpringBoot3 = prefix ''3'' version;
                                 isJava17Plus = (case js_parseInt javaText of
                                                   None \<Rightarrow> False | Some n \<Rightarrow> n \<ge> 17)
                             in Return (JObj
                               [(''springBootVersion'', JStr version),
                                (''javaVersion'', to_json javaVersion),
                                (''isSpringBoot3'', JBool isSpringBoot3),
                                (''persistenceApi'', JStr (if isSpringBoot3 then ''jakarta.persistence.*''
                                                           else ''javax.persistence.*'')),
                                (''recommendations'', JObj
                                   [(''imports'', JStr (if isSpringBoot3 then ''Use jakarta.persistence.* imports''
                                                        else ''Use javax.persistence.* imports'')),
                                    (''testDependencies'', JStr (if isJava17Plus
                                        then ''Use JUnit 5.10+, Mockito 5.x+''
                                        else ''Use JUnit 5.11.4, Mockito 5.14.2 (Java 11 compatible)'')),
                                    (''moduleOpens'', JStr (if isJava17Plus
                                        then ''Add --add-opens flags to maven-surefire-plugin''
                                        else ''Module opens optional but recommended for Orika''))])]))
                        | _ \<Rightarrow> Return pom_error)))"

section \<open>Reading a result\<close>

definition field :: "json outcome \<Rightarrow> string \<Rightarrow> json option" where
  \<comment> \<open>a key of the object a call returns; nothing when the call does not return\<close>
  "field r key = (case r of Return j \<Rightarrow> jget j key | _ \<Rightarrow> None)"


definition test_cmd :: "env \<Rightarrow> string \<Rightarrow> string option \<Rightarrow> string" where
  \<comment> \<open>the command line \<^verbatim>\<open>runTestCheckpoint\<close> runs\<close>
  "test_cmd e testClass testMethod =
     getMavenCommand e @ '' test -Dtest='' @
       (case testMethod of None \<Rightarrow> testClass
        | Some m \<Rightarrow> if m = [] then testClass else testClass @ ''#'' @ m)"

section \<open>A small environment\<close>

text \<open>
  The concrete runs below happen on a Linux host with no \<^verbatim>\<open>MCP_WORKSPACE\<close> and an empty
  project, where every command ends the way the argument says.
\<close>

definition posix_join :: "string list \<Rightarrow> string" where
  "posix_join parts = js_join ''/'' parts"

definition build_env :: "exec_result \<Rightarrow> env" where
  "build_env r =
     \<lparr>platform = ''linux'', MCP_WORKSPACE = None, execAsync = (\<lambda>cmd cwd ms. r),
      glob = (\<lambda>pat. []), readFile = (\<lambda>p. None), path_join = posix_join,
      path_basename = (\<lambda>p ext. p), XMLParser_parse = (\<lambda>t. None),
      access = (\<lambda>p. False), process_cwd = ''/srv''\<rparr>"

text \<open>
  A project is given by what each glob pattern finds and by the text of each file.
\<close>

definition file_env :: "(string \<times> string list) list \<Rightarrow> (string \<times> string) list \<Rightarrow> env" where
  "file_env globs files =
     \<lparr>platform = ''linux'', MCP_WORKSPACE = None, execAsync = (\<lambda>cmd cwd ms. Rejected None None),
      glob = (\<lambda>pat. case map_of globs pat of None \<Rightarrow> [] | Some fs \<Rightarrow> fs),
      readFile = map_of files, path_join = posix_join,
      path_basename = (\<lambda>p ext. p), XMLParser_parse = (\<lambda>t. None),
      access = (\<lambda>p. False), process_cwd = ''/srv''\<rparr>"

section \<open>Compiling\<close>

lemma collect_errors_returns: "\<exists>errs. collect_errors t = Some errs"
  using exec_all_returns[of errorPattern t] by (auto simp: collect_errors_def errorPattern_def)

text \<open>
  C3, as the code has it. A compile run reports \<^verbatim>\<open>success: true\<close> with an empty \<^verbatim>\<open>errors\<close> list
  exactly when the build command exits normally (the promise of \<^verbatim>\<open>execAsync\<close> resolves) and
  its standard output contains \<^verbatim>\<open>BUILD SUCCESS\<close>. A run whose promise rejects reports a failure
  whatever it printed.
\<close>

theorem validateMavenCompile_success_iff:
  "(field (validateMavenCompile e p) ''success'' = Some (JBool True) \<and>
    field (validateMavenCompile e p) ''errors'' = Some (JArr []))
   \<longleftrightarrow> (\<exists>out err. execAsync e (getMavenCommand e @ '' clean compile test-compile'') p 180000 = Resolved out err
                  \<and> str_includes out ''BUILD SUCCESS'')"
proof (cases "execAsync e (getMavenCommand e @ '' clean compile test-compile'') p 180000")
  case (Resolved out err)
  obtain errs where "collect_errors err = Some errs" using collect_errors_returns by blast
  then show ?thesis using Resolved
    by (cases "str_includes out ''BUILD SUCCESS''")
       (simp_all add: validateMavenCompile_def field_def jget_def slice_head_def Let_def)
next
  case (Rejected out err)
  obtain errs where "collect_errors (case err of None \<Rightarrow> [] | Some t \<Rightarrow> t) = Some errs"
    using collect_errors_returns by blast
  then show ?thesis using Rejected
    by (simp add: validateMavenCompile_def field_def jget_def Let_def)
qed

theorem validateMavenCompile_success_iff_witness:
  "field (validateMavenCompile (build_env (Resolved ''[INFO] BUILD SUCCESS'' [])) ''/workspace'') ''success''
     = Some (JBool True) \<and>
   field (validateMavenCompile (build_env (Resolved ''[INFO] BUILD SUCCESS'' [])) ''/workspace'') ''errors''
     = Some (JArr []) \<and>
   execAsync (build_env (Resolved ''[INFO] BUILD SUCCESS'' [])) ''mvn clean compile test-compile'' ''/workspace'' 180000
     = Resolved ''[INFO] BUILD SUCCESS'' [] \<and>
   str_includes ''[INFO] BUILD SUCCESS'' ''BUILD SUCCESS''"
proof -
  let ?e = "build_env (Resolved ''[INFO] BUILD SUCCESS'' [])"
  have c: "getMavenCommand ?e @ '' clean compile test-compile'' = ''mvn clean compile test-compile''"
    by (simp add: getMavenCommand_def build_env_def)
  have x: "execAsync ?e ''mvn clean compile test-compile'' ''/workspace'' 180000 = Resolved ''[INFO] BUILD SUCCESS'' []"
    by (simp add: build_env_def)
  have i: "str_includes ''[INFO] BUILD SUCCESS'' ''BUILD SUCCESS''" by code_simp
  from x i c have "\<exists>out err. execAsync ?e (getMavenCommand ?e @ '' clean compile test-compile'') ''/workspace'' 180000
      = Resolved out err \<and> str_includes out ''BUILD SUCCESS''" by simp
  then show ?thesis using validateMavenCompile_success_iff[of ?e "''/workspace''"] x i by simp
qed

text \<open>
  C3 as it is written fails: the sentinel is in the captured output of this run, which ended
  with a rejected promise, and the run is reported as failed.
\<close>

theorem validateMavenCompile_rejected_sentinel:
  "str_includes ''[INFO] BUILD SUCCESS'' ''BUILD SUCCESS'' \<and>
   validateMavenCompile (build_env (Rejected (Some ''[INFO] BUILD SUCCESS'') (Some []))) ''/workspace'' =
     Return (JObj
       [(''success'', JBool False),
        (''message'', JStr (cross_mark @ '' BUILD FAILED'')),
        (''errors'', JArr []),
        (''recommendation'', JStr ''Fix compilation errors before writing tests'')])"
proof -
  have i: "str_includes ''[INFO] BUILD SUCCESS'' ''BUILD SUCCESS''" by code_simp
  have c: "collect_errors [] = Some []" by code_simp
  show ?thesis using i
    by (simp add: validateMavenCompile_def build_env_def c slice_head_def)
qed

subsection \<open>The error list\<close>

text \<open>
  The words of C7, to compare with the code: the captured text as a sequence of lines. A
  marker line holds the marker \<^verbatim>\<open>[ERROR]\<close>, white space and a text; something may stand before
  the marker, and the line may end with a carriage return. The other lines are without the
  marker.
\<close>

datatype log_line = Marked string string string bool | Plain string

fun render :: "log_line \<Rightarrow> string" where
  \<comment> \<open>a line as it is printed, without the line feed that ends it\<close>
  "render (Marked pre ws t cr) = pre @ ''[ERROR]'' @ ws @ t @ (if cr then [CHR 0x0D] else [])"
| "render (Plain u) = u"

fun well_formed :: "log_line \<Rightarrow> bool" where
  \<comment> \<open>a marker line: its first marker is followed by spaces or tabs and by a text that starts
     with a visible character; a plain line has no marker\<close>
  "well_formed (Marked pre ws t cr) =
     (\<not> sublist ''[ERROR]'' pre \<and> CHR 0x0A \<notin> set pre \<and>
      ws \<noteq> [] \<and> (\<forall>c \<in> set ws. is_space c \<and> \<not> is_line_terminator c) \<and>
      t \<noteq> [] \<and> \<not> is_space (hd t) \<and> (\<forall>c \<in> set t. \<not> is_line_terminator c))"
| "well_formed (Plain u) = (\<not> sublist ''[ERROR]'' u \<and> CHR 0x0A \<notin> set u)"

fun marked_texts :: "log_line list \<Rightarrow> string list" where
  \<comment> \<open>the texts of the marker lines in order: what follows the marker and the white space\<close>
  "marked_texts [] = []"
| "marked_texts (Marked pre ws t cr # ls) = t # marked_texts ls"
| "marked_texts (Plain u # ls) = marked_texts ls"

definition log_text :: "log_line list \<Rightarrow> string" where
  "log_text ls = js_join [CHR 0x0A] (map render ls)"

definition fifteen_errors :: "log_line list" where
  "fifteen_errors =
     [Marked [] '' '' ''e01'' False,
      Marked [] '' '' ''e02'' True,
      Marked [] ''   '' ''e03'' False,
      Plain ''[INFO] 3 errors'',
      Marked [] [CHR 0x09] ''e04'' False,
      Marked ''12:00:01 '' '' '' ''e05'' False,
      Marked [] '' '' ''e06 [ERROR] again'' False,
      Plain [CHR 0x0D],
      Marked [] '' '' ''e07'' True,
      Marked [] '' '' ''e08'' False,
      Marked [] '' '' ''e09'' False,
      Marked [] '' '' ''e10'' False,
      Marked [] '' '' ''e11'' False,
      Marked [] '' '' ''e12'' False,
      Marked [] '' '' ''e13'' False,
      Marked [] '' '' ''e14'' False,
      Marked [] '' '' ''e15'' False]"

lemma greedy_all:
  "\<forall>c \<in> set xs. in_cls cl c \<Longrightarrow> (s = [] \<or> \<not> in_cls cl (hd s)) \<Longrightarrow> k s = Some r \<Longrightarrow>
   greedy cl (xs @ s) k = Some r"
proof (induction xs)
  case Nil
  then show ?case by (cases s) auto
next
  case (Cons x xs)
  then show ?case by simp
qed

lemma hit_atI:
  "re_match r (m @ s) [] (\<lambda>s' c'. Some (s', c')) = Some (s, c) \<Longrightarrow>
   hit_at r (m @ s) = Some \<lparr>skipped = [], matched = m, groups = c, remaining = s\<rparr>"
  by (simp add: hit_at_def)

lemma text_group:
  assumes "t \<noteq> []" and "\<forall>c \<in> set t. \<not> is_line_terminator c"
    and "s = [] \<or> is_line_terminator (hd s)"
  shows "re_match (Grp 1 (Plus CDot)) (t @ s) [] (\<lambda>s' c'. Some (s', c')) = Some (s, [(1, t)])"
proof -
  from assms(1,2) obtain x xs where t: "t = x # xs" and x: "in_cls CDot x"
    and xs: "\<forall>c \<in> set xs. in_cls CDot c"
    by (cases t) auto
  have s: "s = [] \<or> \<not> in_cls CDot (hd s)" using assms(3) by auto
  have "greedy CDot (xs @ s)
          (\<lambda>s'. Some (s', [(Suc 0, take (length (t @ s) - length s') (t @ s))])) = Some (s, [(Suc 0, t)])"
    by (rule greedy_all[OF xs s]) simp
  then show ?thesis using x by (simp add: t)
qed

lemma hit_at_marked:
  assumes "ws \<noteq> []" and "\<forall>c \<in> set ws. is_space c"
    and "t \<noteq> []" and "\<not> is_space (hd t)" and "\<forall>c \<in> set t. \<not> is_line_terminator c"
    and "s = [] \<or> is_line_terminator (hd s)"
  shows "hit_at errorPattern ((''[ERROR]'' @ ws @ t) @ s) =
           Some \<lparr>skipped = [], matched = ''[ERROR]'' @ ws @ t, groups = [(1, t)], remaining = s\<rparr>"
proof -
  let ?K = "\<lambda>s' c'. Some (s', c')"
  from assms(1,2) obtain w ws' where ws: "ws = w # ws'" and w: "in_cls CSpace w"
    and ws': "\<forall>c \<in> set ws'. in_cls CSpace c"
    by (cases ws) auto
  have h: "t @ s = [] \<or> \<not> in_cls CSpace (hd (t @ s))" using assms(3,4) by simp
  have g: "greedy CSpace (ws' @ t @ s) (\<lambda>s'. re_match (Grp 1 (Plus CDot)) s' [] ?K) = Some (s, [(1, t)])"
    by (rule greedy_all[OF ws' h]) (rule text_group[OF assms(3,5,6)])
  have "re_match (Plus CSpace) (ws @ t @ s) [] (\<lambda>s' c'. re_match (Grp 1 (Plus CDot)) s' c' ?K) = Some (s, [(1, t)])"
    using g w by (simp add: ws del: re_match.simps(9))
  then have "re_match errorPattern (''[ERROR]'' @ ws @ t @ s) [] ?K = Some (s, [(1, t)])"
    by (simp add: errorPattern_def del: re_match.simps(4,9))
  then have "re_match errorPattern ((''[ERROR]'' @ ws @ t) @ s) [] ?K = Some (s, [(1, t)])"
    by simp
  then show ?thesis by (rule hit_atI)
qed

lemma hit_at_no_marker:
  "\<not> prefix ''[ERROR]'' s \<Longrightarrow> hit_at errorPattern s = None"
  by (simp add: hit_at_def errorPattern_def)

lemma exec_all_skip:
  "hit_at r (x # xs) = None \<Longrightarrow> exec_all r (x # xs) = exec_all r xs"
  by (subst (1 2) exec_all.simps) (auto split: option.splits)

lemma exec_all_skip_many:
  "\<forall>v. v \<noteq> [] \<and> suffix v u \<longrightarrow> hit_at r (v @ s) = None \<Longrightarrow> exec_all r (u @ s) = exec_all r s"
proof (induction u)
  case Nil
  then show ?case by simp
next
  case (Cons x u)
  have "hit_at r ((x # u) @ s) = None" using Cons.prems[rule_format, of "x # u"] by simp
  then have "exec_all r ((x # u) @ s) = exec_all r (u @ s)" using exec_all_skip by simp
  moreover have "exec_all r (u @ s) = exec_all r s"
    using Cons.IH Cons.prems by (meson suffix_ConsI)
  ultimately show ?case by simp
qed

lemma exec_all_hit:
  assumes "hit_at r (m @ s) = Some \<lparr>skipped = [], matched = m, groups = c, remaining = s\<rparr>" and "m \<noteq> []"
  shows "exec_all r (m @ s) = map_option ((#) c) (exec_all r s)"
proof -
  have "re_search r (m @ s) = Some \<lparr>skipped = [], matched = m, groups = c, remaining = s\<rparr>"
    using assms by (cases "m @ s") auto
  then show ?thesis using assms(2) by (subst exec_all.simps) simp
qed

lemma prefix_before:
  assumes "prefix l (v @ y # ys)" and "v \<noteq> [] \<or> l \<noteq> []" and "y \<notin> set (tl l)" and "v = [] \<longrightarrow> y \<noteq> hd l"
  shows "prefix l v"
proof (rule ccontr)
  assume n: "\<not> prefix l v"
  with assms(1) obtain us where us: "l = v @ us" "prefix us (y # ys)"
    by (auto simp: prefix_append)
  have ne: "us \<noteq> []" using n us(1) by auto
  then have y: "hd us = y" using us(2) by (cases us) auto
  show False
  proof (cases v)
    case Nil
    then show ?thesis using us(1) y assms(4) by simp
  next
    case (Cons a v')
    then have "tl l = v' @ us" using us(1) by simp
    then have "y \<in> set (tl l)" using ne y by (cases us) auto
    then show ?thesis using assms(3) by simp
  qed
qed

lemma no_marker_across:
  assumes "\<not> sublist ''[ERROR]'' u" and "suffix v u"
    and "s = [] \<or> hd s = CHR 0x0A \<or> (v \<noteq> [] \<and> hd s = CHR ''['')"
  shows "\<not> prefix ''[ERROR]'' (v @ s)"
proof
  assume p: "prefix ''[ERROR]'' (v @ s)"
  have "prefix ''[ERROR]'' v"
  proof (cases s)
    case Nil
    then show ?thesis using p by simp
  next
    case (Cons y ys)
    then have y: "y = CHR 0x0A \<or> (v \<noteq> [] \<and> y = CHR ''['')" using assms(3) by simp
    have q: "prefix ''[ERROR]'' (v @ y # ys)" using p Cons by simp
    show ?thesis
    proof (rule prefix_before[OF q])
      show "v \<noteq> [] \<or> ''[ERROR]'' \<noteq> []" by simp
      show "y \<notin> set (tl ''[ERROR]'')" using y by auto
      show "v = [] \<longrightarrow> y \<noteq> hd ''[ERROR]''" using y by auto
    qed
  qed
  then have "sublist ''[ERROR]'' v" by (rule prefix_imp_sublist)
  moreover have "sublist v u" using assms(2) by (rule suffix_imp_sublist)
  ultimately have "sublist ''[ERROR]'' u" by (rule sublist_order.order.trans)
  then show False using assms(1) by (rule notE[rotated])
qed

lemma exec_all_quiet:
  assumes "\<not> sublist ''[ERROR]'' u" and "s = [] \<or> hd s = CHR 0x0A \<or> hd s = CHR ''[''"
  shows "exec_all errorPattern (u @ s) = exec_all errorPattern s"
proof (rule exec_all_skip_many, intro allI impI)
  fix v
  assume v: "v \<noteq> [] \<and> suffix v u"
  then have "s = [] \<or> hd s = CHR 0x0A \<or> (v \<noteq> [] \<and> hd s = CHR ''['')" using assms(2) by auto
  with assms(1) v have "\<not> prefix ''[ERROR]'' (v @ s)" by (intro no_marker_across) auto
  then show "hit_at errorPattern (v @ s) = None" by (rule hit_at_no_marker)
qed

lemma log_text_Cons:
  "log_text (l # ls) = render l @ (if ls = [] then [] else CHR 0x0A # log_text ls)"
  by (cases ls) (simp_all add: log_text_def)

lemma exec_all_empty: "exec_all errorPattern [] = Some []"
  by (simp add: exec_all.simps hit_at_no_marker)

lemma exec_all_log_text:
  "\<forall>l \<in> set ls. well_formed l \<Longrightarrow>
   exec_all errorPattern (log_text ls) = Some (map (\<lambda>t. [(1, t)]) (marked_texts ls))"
proof (induction ls)
  case Nil
  then show ?case by (simp add: log_text_def exec_all_empty)
next
  case (Cons l ls)
  define s where "s = (if ls = [] then [] else CHR 0x0A # log_text ls)"
  have s: "s = [] \<or> hd s = CHR 0x0A" by (simp add: s_def)
  have rest: "exec_all errorPattern s = Some (map (\<lambda>t. [(1, t)]) (marked_texts ls))"
  proof (cases "ls = []")
    case True
    then show ?thesis by (simp add: s_def exec_all_empty)
  next
    case False
    have "hit_at errorPattern (CHR 0x0A # log_text ls) = None" by (simp add: hit_at_no_marker)
    then have "exec_all errorPattern (CHR 0x0A # log_text ls) = exec_all errorPattern (log_text ls)"
      by (rule exec_all_skip)
    then show ?thesis using False Cons by (simp add: s_def)
  qed
  show ?case
  proof (cases l)
    case (Marked pre ws t cr)
    then have wf: "\<not> sublist ''[ERROR]'' pre" "ws \<noteq> []" "\<forall>c \<in> set ws. is_space c"
      "t \<noteq> []" "\<not> is_space (hd t)" "\<forall>c \<in> set t. \<not> is_line_terminator c"
      using Cons.prems by simp_all
    define e where "e = (if cr then [CHR 0x0D] else []) @ s"
    have e: "e = [] \<or> is_line_terminator (hd e)"
      using s by (auto simp: e_def is_line_terminator_def)
    have "hit_at errorPattern (CHR 0x0D # s) = None" by (simp add: hit_at_no_marker)
    then have "exec_all errorPattern (CHR 0x0D # s) = exec_all errorPattern s" by (rule exec_all_skip)
    then have tail: "exec_all errorPattern e = Some (map (\<lambda>t. [(1, t)]) (marked_texts ls))"
      using rest by (simp add: e_def)
    have "exec_all errorPattern ((''[ERROR]'' @ ws @ t) @ e) = map_option ((#) [(1, t)]) (exec_all errorPattern e)"
      by (rule exec_all_hit[OF hit_at_marked[OF wf(2-6) e]]) simp
    then have m: "exec_all errorPattern ((''[ERROR]'' @ ws @ t) @ e)
                  = Some ([(1, t)] # map (\<lambda>t. [(1, t)]) (marked_texts ls))"
      using tail by simp
    have "exec_all errorPattern (pre @ ((''[ERROR]'' @ ws @ t) @ e)) = exec_all errorPattern ((''[ERROR]'' @ ws @ t) @ e)"
      by (rule exec_all_quiet[OF wf(1)]) simp
    moreover have "log_text (l # ls) = pre @ ((''[ERROR]'' @ ws @ t) @ e)"
      using Marked by (simp add: log_text_Cons s_def e_def)
    ultimately show ?thesis using m Marked by simp
  next
    case (Plain u)
    then have wf: "\<not> sublist ''[ERROR]'' u" using Cons.prems by simp
    have "exec_all errorPattern (u @ s) = exec_all errorPattern s"
      using s by (intro exec_all_quiet[OF wf]) auto
    then show ?thesis using Plain rest by (simp add: log_text_Cons s_def)
  qed
qed

lemma collect_errors_log_text:
  "\<forall>l \<in> set ls. well_formed l \<Longrightarrow> collect_errors (log_text ls) = Some (marked_texts ls)"
  by (simp add: collect_errors_def exec_all_log_text grp_def comp_def)

text \<open>
  C7, as the code has it. The error list of a failed compile run is read from the captured
  standard error alone. When every line of that text is a marker line or a line without the
  marker, the list holds the texts of the marker lines in their order, each without what
  stands before it, the marker and the white space, cut after the tenth.
\<close>

theorem validateMavenCompile_marked_lines:
  assumes "execAsync e (getMavenCommand e @ '' clean compile test-compile'') p 180000 = r"
    and "(r = Rejected out err \<and> (case err of None \<Rightarrow> [] | Some t \<Rightarrow> t) = log_text ls) \<or>
         (r = Resolved out' (log_text ls) \<and> \<not> str_includes out' ''BUILD SUCCESS'')"
    and "\<forall>l \<in> set ls. well_formed l"
  shows "validateMavenCompile e p =
           Return (JObj
             [(''success'', JBool False),
              (''message'', JStr (cross_mark @ '' BUILD FAILED'')),
              (''errors'', JArr (map JStr (take 10 (marked_texts ls)))),
              (''recommendation'', JStr ''Fix compilation errors before writing tests'')])"
  using assms collect_errors_log_text[OF assms(3)]
  by (auto simp: validateMavenCompile_def slice_head_def Let_def)

theorem validateMavenCompile_marked_lines_witness:
  "execAsync (build_env (Rejected (Some []) (Some (log_text fifteen_errors))))
     (getMavenCommand (build_env (Rejected (Some []) (Some (log_text fifteen_errors)))) @ '' clean compile test-compile'')
     ''/workspace'' 180000 = Rejected (Some []) (Some (log_text fifteen_errors)) \<and>
   list_all well_formed fifteen_errors \<and>
   length (marked_texts fifteen_errors) = 15 \<and>
   validateMavenCompile (build_env (Rejected (Some []) (Some (log_text fifteen_errors)))) ''/workspace'' =
     Return (JObj
       [(''success'', JBool False),
        (''message'', JStr (cross_mark @ '' BUILD FAILED'')),
        (''errors'', JArr [JStr ''e01'', JStr ''e02'', JStr ''e03'', JStr ''e04'', JStr ''e05'',
                           JStr ''e06 [ERROR] again'', JStr ''e07'', JStr ''e08'', JStr ''e09'', JStr ''e10'']),
        (''recommendation'', JStr ''Fix compilation errors before writing tests'')])"
proof -
  let ?r = "Rejected (Some []) (Some (log_text fifteen_errors))"
  have x: "execAsync (build_env ?r) (getMavenCommand (build_env ?r) @ '' clean compile test-compile'')
             ''/workspace'' 180000 = ?r"
    by (simp add: build_env_def)
  have w: "list_all well_formed fifteen_errors" by code_simp
  then have w': "\<forall>l \<in> set fifteen_errors. well_formed l" by (simp add: list_all_iff)
  have m: "marked_texts fifteen_errors =
     [''e01'', ''e02'', ''e03'', ''e04'', ''e05'', ''e06 [ERROR] again'', ''e07'', ''e08'', ''e09'', ''e10'',
      ''e11'', ''e12'', ''e13'', ''e14'', ''e15'']"
    by (simp add: fifteen_errors_def)
  show ?thesis
    using validateMavenCompile_marked_lines[OF x _ w', of "Some []" "Some (log_text fifteen_errors)" "[]"] x w m
    by simp
qed

text \<open>
  C7 as it is written fails: the marked line in the captured standard output of this run is
  not in the list.
\<close>

theorem validateMavenCompile_stdout_marker:
  "str_includes ''[ERROR] COMPILATION ERROR'' ''[ERROR] '' \<and>
   validateMavenCompile (build_env (Rejected (Some ''[ERROR] COMPILATION ERROR'') (Some []))) ''/workspace'' =
     Return (JObj
       [(''success'', JBool False),
        (''message'', JStr (cross_mark @ '' BUILD FAILED'')),
        (''errors'', JArr []),
        (''recommendation'', JStr ''Fix compilation errors before writing tests'')])"
proof -
  have i: "str_includes ''[ERROR] COMPILATION ERROR'' ''[ERROR] ''" by code_simp
  have c: "collect_errors [] = Some []" by code_simp
  show ?thesis using i
    by (simp add: validateMavenCompile_def build_env_def c slice_head_def)
qed

text \<open>
  A marked line with nothing behind the marker is outside the theorem above, and the code
  does not skip it: the white space of the pattern runs over the line break, the whole next
  line is captured with its marker, and that line is not matched on its own. Maven prints
  such lines in its failure report.
\<close>

lemma validateMavenCompile_blank_marker_line:
  "validateMavenCompile
     (build_env (Rejected (Some []) (Some (''[ERROR] COMPILATION ERROR'' @ [CHR 0x0A] @ ''[ERROR] '' @ [CHR 0x0A] @
                                           ''[ERROR] To see the full stack trace, re-run Maven with the -e switch.''))))
     ''/workspace'' =
     Return (JObj
       [(''success'', JBool False),
        (''message'', JStr (cross_mark @ '' BUILD FAILED'')),
        (''errors'', JArr [JStr ''COMPILATION ERROR'',
                           JStr ''[ERROR] To see the full stack trace, re-run Maven with the -e switch.'']),
        (''recommendation'', JStr ''Fix compilation errors before writing tests'')])"
proof -
  have c: "collect_errors (''[ERROR] COMPILATION ERROR'' @ [CHR 0x0A] @ ''[ERROR] '' @ [CHR 0x0A] @
                           ''[ERROR] To see the full stack trace, re-run Maven with the -e switch.'')
           = Some [''COMPILATION ERROR'', ''[ERROR] To see the full stack trace, re-run Maven with the -e switch.'']"
    by code_simp
  show ?thesis by (simp add: validateMavenCompile_def build_env_def c slice_head_def del: append.simps)
qed

section \<open>Running tests\<close>

lemma hit_at_no_summary: "\<not> prefix ''Tests run: '' s \<Longrightarrow> hit_at testsRunPattern s = None"
  by (simp add: hit_at_def testsRunPattern_def)

lemma no_summary_without_T: "CHR ''T'' \<notin> set s \<Longrightarrow> re_search testsRunPattern s = None"
proof (induction s)
  case Nil
  then show ?case by (simp add: hit_at_no_summary)
next
  case (Cons x xs)
  then have "\<not> prefix ''Tests run: '' (x # xs)" by auto
  then have "hit_at testsRunPattern (x # xs) = None" by (rule hit_at_no_summary)
  then show ?case using Cons by simp
qed

lemma collect_failures_returns: "\<exists>msgs. collect_failures t = Some msgs"
  using exec_all_returns[of failurePattern t] by (auto simp: collect_failures_def failurePattern_def)




subsection \<open>The counts\<close>

text \<open>
  C1 fails on the code. Maven ends with a status other than 0 when a test fails, so the
  promise of \<^verbatim>\<open>execAsync\<close> rejects for the run of the claim's own example. The handler of the
  rejection does not look for the summary line that the run printed: the result has no count
  and no failure message, where the documentation of the tool shows \<^verbatim>\<open>testsRun\<close>, \<^verbatim>\<open>failures\<close>
  and \<^verbatim>\<open>failureMessages\<close> for a run with failures.
\<close>

theorem runTestCheckpoint_rejected_summary:
  "re_search testsRunPattern ''Tests run: 5, Failures: 2, Errors: 0, Skipped: 0'' \<noteq> None \<and>
   runTestCheckpoint
     (build_env (Rejected (Some ''Tests run: 5, Failures: 2, Errors: 0, Skipped: 0'') (Some [])))
     ''/workspace'' ''SmokeTest'' None =
     Return (JObj
       [(''success'', JBool False),
        (''message'', JStr ''Test execution failed''),
        (''output'', JStr ''Tests run: 5, Failures: 2, Errors: 0, Skipped: 0'')])"
proof -
  have m: "re_search testsRunPattern ''Tests run: 5, Failures: 2, Errors: 0, Skipped: 0'' \<noteq> None"
    by code_simp
  have "runTestCheckpoint
     (build_env (Rejected (Some ''Tests run: 5, Failures: 2, Errors: 0, Skipped: 0'') (Some [])))
     ''/workspace'' ''SmokeTest'' None =
     Return (JObj
       [(''success'', JBool False),
        (''message'', JStr ''Test execution failed''),
        (''output'', JStr ''Tests run: 5, Failures: 2, Errors: 0, Skipped: 0'')])"
    by (simp add: runTestCheckpoint_def build_env_def slice_tail_def)
  then show ?thesis using m by blast
qed

text \<open>
  The other path does what the claim says. When the test command exits normally, the counts
  of the first summary line are returned, and \<^verbatim>\<open>success\<close> is true exactly when the failure
  count and the error count are both zero, as long as these two are written without leading
  zeros.
\<close>

definition no_leading_zero :: "string \<Rightarrow> bool" where
  \<comment> \<open>a count as Maven writes it: \<^verbatim>\<open>0\<close>, or digits that do not start with \<^verbatim>\<open>0\<close>\<close>
  "no_leading_zero d = (d = ''0'' \<or> hd d \<noteq> CHR ''0'')"

lemma greedy_run:
  "greedy cl s k = Some r \<Longrightarrow> \<exists>pre s'. s = pre @ s' \<and> (\<forall>c \<in> set pre. in_cls cl c) \<and> k s' = Some r"
proof (induction s)
  case Nil
  then show ?case by auto
next
  case (Cons x xs)
  show ?case
  proof (cases "in_cls cl x \<and> greedy cl xs k \<noteq> None")
    case True
    then have "greedy cl xs k = Some r" using Cons.prems by auto
    then obtain pre s' where "xs = pre @ s'" "\<forall>c \<in> set pre. in_cls cl c" "k s' = Some r"
      using Cons.IH by blast
    then have "x # xs = (x # pre) @ s' \<and> (\<forall>c \<in> set (x # pre). in_cls cl c) \<and> k s' = Some r"
      using True by simp
    then show ?thesis by blast
  next
    case False
    then have "k (x # xs) = Some r" using Cons.prems by (auto split: if_splits option.splits)
    then have "x # xs = [] @ (x # xs) \<and> (\<forall>c \<in> set []. in_cls cl c) \<and> k (x # xs) = Some r" by simp
    then show ?thesis by blast
  qed
qed

lemma digits_group:
  assumes "re_match (Grp i (Plus CDigit)) s c k = Some r"
  shows "\<exists>d s'. s = d @ s' \<and> d \<noteq> [] \<and> (\<forall>x \<in> set d. is_digit x) \<and> k s' ((i, d) # c) = Some r"
proof -
  from assms obtain x xs where s: "s = x # xs" and x: "is_digit x"
    and g: "greedy CDigit xs (\<lambda>s'. k s' ((i, take (length s - length s') s) # c)) = Some r"
    by (auto split: list.splits if_splits)
  from greedy_run[OF g] obtain pre s' where p: "xs = pre @ s'" "\<forall>c \<in> set pre. in_cls CDigit c"
    and k: "k s' ((i, take (length s - length s') s) # c) = Some r" by blast
  have "take (length s - length s') s = x # pre" using s p(1) by simp
  then have "s = (x # pre) @ s' \<and> x # pre \<noteq> [] \<and> (\<forall>y \<in> set (x # pre). is_digit y)
             \<and> k s' ((i, x # pre) # c) = Some r"
    using s p x k by simp
  then show ?thesis by blast
qed

lemma lit_step:
  "re_match (Lit l) s c k = Some r \<Longrightarrow> \<exists>s'. s = l @ s' \<and> k s' c = Some r"
  by (auto simp: prefix_def split: if_splits)

lemma testsRun_groups:
  assumes "hit_at testsRunPattern s = Some h"
  shows "\<exists>d1 d2 d3 d4. groups h = [(4, d4), (3, d3), (2, d2), (1, d1)] \<and>
           d2 \<noteq> [] \<and> (\<forall>x \<in> set d2. is_digit x) \<and> d3 \<noteq> [] \<and> (\<forall>x \<in> set d3. is_digit x)"
proof -
  let ?K = "\<lambda>s' c'. Some (s', c')"
  let ?r4 = "Grp 4 (Plus CDigit)"
  let ?r3 = "Seq (Grp 3 (Plus CDigit)) (Seq (Lit '', Skipped: '') ?r4)"
  let ?r2 = "Seq (Grp 2 (Plus CDigit)) (Seq (Lit '', Errors: '') ?r3)"
  let ?r1 = "Seq (Grp 1 (Plus CDigit)) (Seq (Lit '', Failures: '') ?r2)"
  from assms obtain s' c' where m: "re_match testsRunPattern s [] ?K = Some (s', c')"
    and h: "groups h = c'"
    by (auto simp: hit_at_def split: option.splits)
  have "re_match (Lit ''Tests run: '') s [] (\<lambda>t c. re_match ?r1 t c ?K) = Some (s', c')"
    using m unfolding testsRunPattern_def cat.simps re_match.simps(7) .
  from lit_step[OF this] obtain t0 where "re_match ?r1 t0 [] ?K = Some (s', c')" by blast
  then have "re_match (Grp 1 (Plus CDigit)) t0 []
               (\<lambda>t c. re_match (Lit '', Failures: '') t c (\<lambda>t c. re_match ?r2 t c ?K)) = Some (s', c')"
    unfolding re_match.simps(7) .
  from digits_group[OF this] obtain d1 t1 where
    "re_match (Lit '', Failures: '') t1 [(1, d1)] (\<lambda>t c. re_match ?r2 t c ?K) = Some (s', c')"
    by blast
  from lit_step[OF this] obtain t2 where "re_match ?r2 t2 [(1, d1)] ?K = Some (s', c')" by blast
  then have "re_match (Grp 2 (Plus CDigit)) t2 [(1, d1)]
               (\<lambda>t c. re_match (Lit '', Errors: '') t c (\<lambda>t c. re_match ?r3 t c ?K)) = Some (s', c')"
    unfolding re_match.simps(7) .
  from digits_group[OF this] obtain d2 t3 where d2: "d2 \<noteq> []" "\<forall>x \<in> set d2. is_digit x" and
    "re_match (Lit '', Errors: '') t3 [(2, d2), (1, d1)] (\<lambda>t c. re_match ?r3 t c ?K) = Some (s', c')"
    by blast
  from lit_step[OF this(3)] obtain t4 where "re_match ?r3 t4 [(2, d2), (1, d1)] ?K = Some (s', c')" by blast
  then have "re_match (Grp 3 (Plus CDigit)) t4 [(2, d2), (1, d1)]
               (\<lambda>t c. re_match (Lit '', Skipped: '') t c (\<lambda>t c. re_match ?r4 t c ?K)) = Some (s', c')"
    unfolding re_match.simps(7) .
  from digits_group[OF this] obtain d3 t5 where d3: "d3 \<noteq> []" "\<forall>x \<in> set d3. is_digit x" and
    "re_match (Lit '', Skipped: '') t5 [(3, d3), (2, d2), (1, d1)] (\<lambda>t c. re_match ?r4 t c ?K) = Some (s', c')"
    by blast
  from lit_step[OF this(3)] obtain t6 where "re_match ?r4 t6 [(3, d3), (2, d2), (1, d1)] ?K = Some (s', c')"
    by blast
  from digits_group[OF this] obtain d4 t7 where "?K t7 [(4, d4), (3, d3), (2, d2), (1, d1)] = Some (s', c')"
    by blast
  then have "c' = [(4, d4), (3, d3), (2, d2), (1, d1)]" by simp
  then have "groups h = [(4, d4), (3, d3), (2, d2), (1, d1)] \<and>
             d2 \<noteq> [] \<and> (\<forall>x \<in> set d2. is_digit x) \<and> d3 \<noteq> [] \<and> (\<forall>x \<in> set d3. is_digit x)"
    using h d2 d3 by simp
  then show ?thesis by (intro exI)
qed

lemma re_search_groups:
  "re_search r s = Some h \<Longrightarrow> \<exists>t h0. hit_at r t = Some h0 \<and> groups h = groups h0"
proof (induction s arbitrary: h)
  case Nil
  then show ?case by auto
next
  case (Cons x xs)
  show ?case
  proof (cases "hit_at r (x # xs)")
    case None
    then obtain h' where "re_search r xs = Some h'" "h = h'\<lparr>skipped := x # skipped h'\<rparr>"
      using Cons.prems by auto
    then show ?thesis using Cons.IH by fastforce
  next
    case (Some a)
    then show ?thesis using Cons.prems by auto
  qed
qed

lemma digit_zero: "is_digit x \<Longrightarrow> of_char x - of_char CHR ''0'' = (0::nat) \<Longrightarrow> x = CHR ''0''"
proof -
  assume a: "is_digit x" "of_char x - of_char CHR ''0'' = (0::nat)"
  then have "(of_char x :: nat) = of_char CHR ''0''"
    by (simp add: is_digit_def less_eq_char_def)
  then show ?thesis using of_char_eq_iff by blast
qed

lemma parseInt_acc:
  "\<forall>x \<in> set d. is_digit x \<Longrightarrow>
   foldl (\<lambda>n c. 10 * n + (of_char c - of_char CHR ''0'')) a d = (0::nat)
     \<longleftrightarrow> a = 0 \<and> (\<forall>x \<in> set d. x = CHR ''0'')"
proof (induction d arbitrary: a)
  case Nil
  then show ?case by simp
next
  case (Cons x d)
  have dx: "is_digit x" and dd: "\<forall>y \<in> set d. is_digit y" using Cons.prems by simp_all
  have v: "of_char x - of_char CHR ''0'' = (0::nat) \<longleftrightarrow> x = CHR ''0''"
    using digit_zero[OF dx] by fastforce
  have "foldl (\<lambda>n c. 10 * n + (of_char c - of_char CHR ''0'')) a (x # d) = (0::nat)
        \<longleftrightarrow> 10 * a + (of_char x - of_char CHR ''0'') = (0::nat) \<and> (\<forall>y \<in> set d. y = CHR ''0'')"
    using Cons.IH[OF dd] by simp
  also have "\<dots> \<longleftrightarrow> a = 0 \<and> x = CHR ''0'' \<and> (\<forall>y \<in> set d. y = CHR ''0'')"
    using v by simp
  finally show ?case by simp
qed

lemma parseInt_zero:
  assumes "d \<noteq> []" "\<forall>x \<in> set d. is_digit x" "no_leading_zero d"
  shows "d = ''0'' \<longleftrightarrow> parseInt d = 0"
proof
  assume "d = ''0''"
  then show "parseInt d = 0" by (simp add: parseInt_def)
next
  assume "parseInt d = 0"
  then have "\<forall>x \<in> set d. x = CHR ''0''" using parseInt_acc[OF assms(2), of 0] by (simp add: parseInt_def)
  then have "hd d = CHR ''0''" using assms(1) by (cases d) auto
  then show "d = ''0''" using assms(3) by (simp add: no_leading_zero_def)
qed

lemma runTestCheckpoint_resolved_counts:
  assumes "execAsync e (test_cmd e testClass testMethod) p 120000 = Resolved out err"
    and "re_search testsRunPattern (out @ err) = Some h"
    and "no_leading_zero (grp (groups h) 2)"
    and "no_leading_zero (grp (groups h) 3)"
  shows "\<exists>msgs. runTestCheckpoint e p testClass testMethod =
           Return (JObj
             [(''success'', JBool (parseInt (grp (groups h) 2) = 0 \<and> parseInt (grp (groups h) 3) = 0)),
              (''testsRun'', count_json (grp (groups h) 1)),
              (''failures'', count_json (grp (groups h) 2)),
              (''errors'', count_json (grp (groups h) 3)),
              (''skipped'', count_json (grp (groups h) 4)),
              (''failureMessages'', JArr msgs),
              (''recommendation'', JStr
                 (if parseInt (grp (groups h) 2) = 0 \<and> parseInt (grp (groups h) 3) = 0
                  then check_mark @ '' Tests passed - continue to next batch''
                  else cross_mark @ '' Fix failures before continuing''))])"
proof -
  from re_search_groups[OF assms(2)] obtain t h0 where
    "hit_at testsRunPattern t = Some h0" "groups h = groups h0" by blast
  with testsRun_groups obtain d1 d2 d3 d4 where g: "groups h = [(4, d4), (3, d3), (2, d2), (1, d1)]"
    and d: "d2 \<noteq> []" "\<forall>x \<in> set d2. is_digit x" "d3 \<noteq> []" "\<forall>x \<in> set d3. is_digit x"
    by metis
  have z: "d2 = ''0'' \<longleftrightarrow> parseInt d2 = 0" "d3 = ''0'' \<longleftrightarrow> parseInt d3 = 0"
    using parseInt_zero d assms(3,4) g by (simp_all add: grp_def)
  obtain msgs where f: "collect_failures (out @ err) = Some msgs"
    using collect_failures_returns by blast
  show ?thesis
  proof (cases "d2 = ''0'' \<and> d3 = ''0''")
    case True
    then show ?thesis using assms(1,2) g z
      by (simp add: runTestCheckpoint_def test_cmd_def grp_def Let_def slice_head_def del: re_search.simps)
  next
    case False
    then show ?thesis using assms(1,2) g z f
      by (auto simp: runTestCheckpoint_def test_cmd_def grp_def Let_def slice_head_def simp del: re_search.simps)
  qed
qed

lemma runTestCheckpoint_resolved_example:
  "runTestCheckpoint (build_env (Resolved ''Tests run: 5, Failures: 2, Errors: 0, Skipped: 0'' [])) ''/workspace'' ''SmokeTest'' None =
     Return (JObj
       [(''success'', JBool False),
        (''testsRun'', JNum 5),
        (''failures'', JNum 2),
        (''errors'', JNum 0),
        (''skipped'', JNum 0),
        (''failureMessages'', JArr []),
        (''recommendation'', JStr (cross_mark @ '' Fix failures before continuing''))])"
proof -
  let ?out = "''Tests run: 5, Failures: 2, Errors: 0, Skipped: 0''"
  have m: "map_option groups (re_search testsRunPattern (?out @ [])) = Some [(4, ''0''), (3, ''0''), (2, ''2''), (1, ''5'')]"
    by code_simp
  then obtain h where h: "re_search testsRunPattern (?out @ []) = Some h"
    "groups h = [(4, ''0''), (3, ''0''), (2, ''2''), (1, ''5'')]" by auto
  have p: "count_json ''5'' = JNum 5" "count_json ''2'' = JNum 2" "count_json ''0'' = JNum 0"
    by (simp_all add: count_json_def parseInt_def)
  have f: "collect_failures ?out = Some []" by code_simp
  show ?thesis
    using h f p
    by (simp add: runTestCheckpoint_def build_env_def grp_def slice_head_def Let_def del: re_search.simps)
qed

text \<open>
  A count written with a leading zero: the code compares the matched digits with the text
  \<^verbatim>\<open>"0"\<close> and reports the counts through \<^verbatim>\<open>parseInt\<close>, so such a count is reported as 0 while
  \<^verbatim>\<open>success\<close> is false.
\<close>

lemma runTestCheckpoint_leading_zero:
  "runTestCheckpoint (build_env (Resolved ''Tests run: 1, Failures: 00, Errors: 0, Skipped: 0'' [])) ''/workspace'' ''SmokeTest'' None =
     Return (JObj
       [(''success'', JBool False),
        (''testsRun'', JNum 1),
        (''failures'', JNum 0),
        (''errors'', JNum 0),
        (''skipped'', JNum 0),
        (''failureMessages'', JArr []),
        (''recommendation'', JStr (cross_mark @ '' Fix failures before continuing''))])"
proof -
  let ?out = "''Tests run: 1, Failures: 00, Errors: 0, Skipped: 0''"
  have m: "map_option groups (re_search testsRunPattern ?out) = Some [(4, ''0''), (3, ''0''), (2, ''00''), (1, ''1'')]"
    by code_simp
  then obtain h where h: "re_search testsRunPattern ?out = Some h"
    "groups h = [(4, ''0''), (3, ''0''), (2, ''00''), (1, ''1'')]" by auto
  have f: "collect_failures ?out = Some []" by code_simp
  have p: "count_json ''1'' = JNum 1" "count_json ''00'' = JNum 0" "count_json ''0'' = JNum 0"
    by (simp_all add: count_json_def parseInt_def)
  show ?thesis
    by (simp add: runTestCheckpoint_def build_env_def h grp_def f p slice_head_def Let_def
             del: re_search.simps)
qed

section \<open>A build that does not end normally\<close>




text \<open>
  An error that carries neither \<^verbatim>\<open>stdout\<close> nor \<^verbatim>\<open>stderr\<close> is outside the theorem above: the sum
  of the two is then not text, and the handler of the test tool throws in its turn.
\<close>

lemma runTestCheckpoint_no_captured_text:
  "runTestCheckpoint (build_env (Rejected None None)) ''/workspace'' ''SmokeTest'' None = Throw TypeError"
  by (simp add: runTestCheckpoint_def build_env_def)

section \<open>Nothing located\<close>

lemma file_env_nothing: "findJavaFiles (file_env [] []) p pat = []"
  by (simp add: findJavaFiles_def file_env_def)

text \<open>
  C2, as the code has it. When nothing is located, the extractors for JWT claims, entity
  relationships, controllers, repositories and services return the object with the two keys
  \<^verbatim>\<open>found\<close> (false) and \<^verbatim>\<open>message\<close>, and nothing else. The response wrapper extractor has no
  \<^verbatim>\<open>found\<close> key: it returns its five keys with \<^verbatim>\<open>hasWrapper\<close> false and the fixed texts
  \<^verbatim>\<open>None\<close>, \<^verbatim>\<open>N/A\<close> and \<^verbatim>\<open>$\<close>. None of the six throws.
\<close>

theorem extractors_nothing_found:
  "(findJavaFiles e p ''*JwtTokenUtil*'' = [] \<and> findJavaFiles e p ''*JwtRequestFilter*'' = [] \<longrightarrow>
      investigateJwtClaims e p =
        Return (JObj [(''found'', JBool False),
                      (''message'', JStr (''No JWT utility files found. Search for files containing ''
                                          @ [CHR 0x27] @ ''Jwt'' @ [CHR 0x27]))]))
   \<and> (findJavaFiles e p name = [] \<longrightarrow>
        investigateEntityRelationships e p name =
          Return (JObj [(''found'', JBool False), (''message'', JStr (''Entity '' @ name @ '' not found''))])
      \<and> analyzeController e p name =
          Return (JObj [(''found'', JBool False), (''message'', JStr (''Controller '' @ name @ '' not found''))])
      \<and> analyzeRepository e p name =
          Return (JObj [(''found'', JBool False), (''message'', JStr (''Repository '' @ name @ '' not found''))])
      \<and> investigateService e p name =
          Return (JObj [(''found'', JBool False), (''message'', JStr (''Service '' @ name @ '' not found''))]))
   \<and> (findJavaFiles e p ''*Advice*'' = [] \<and> findJavaFiles e p ''*Response*'' = [] \<longrightarrow>
        investigateResponseWrapper e p =
          Return (JObj
            [(''hasWrapper'', JBool False),
             (''wrapperClass'', JStr ''None''),
             (''wrapperField'', JStr ''N/A''),
             (''jsonPathPrefix'', JStr ''$''),
             (''recommendation'', JStr (''Use jsonPath('' @ [CHR 0x22] @ ''$.id'' @ [CHR 0x22]
                                        @ '') directly in controller tests''))]))"
  by (simp add: investigateJwtClaims_def investigateEntityRelationships_def analyzeController_def
                analyzeRepository_def investigateService_def investigateResponseWrapper_def)

theorem extractors_nothing_found_witness:
  "findJavaFiles (file_env [] []) ''/workspace'' ''*JwtTokenUtil*'' = [] \<and>
   findJavaFiles (file_env [] []) ''/workspace'' ''*JwtRequestFilter*'' = [] \<and>
   findJavaFiles (file_env [] []) ''/workspace'' ''Order'' = [] \<and>
   findJavaFiles (file_env [] []) ''/workspace'' ''*Advice*'' = [] \<and>
   findJavaFiles (file_env [] []) ''/workspace'' ''*Response*'' = [] \<and>
   field (investigateJwtClaims (file_env [] []) ''/workspace'') ''found'' = Some (JBool False) \<and>
   investigateEntityRelationships (file_env [] []) ''/workspace'' ''Order'' =
     Return (JObj [(''found'', JBool False), (''message'', JStr ''Entity Order not found'')]) \<and>
   analyzeController (file_env [] []) ''/workspace'' ''Order'' =
     Return (JObj [(''found'', JBool False), (''message'', JStr ''Controller Order not found'')]) \<and>
   analyzeRepository (file_env [] []) ''/workspace'' ''Order'' =
     Return (JObj [(''found'', JBool False), (''message'', JStr ''Repository Order not found'')]) \<and>
   investigateService (file_env [] []) ''/workspace'' ''Order'' =
     Return (JObj [(''found'', JBool False), (''message'', JStr ''Service Order not found'')]) \<and>
   field (investigateResponseWrapper (file_env [] []) ''/workspace'') ''hasWrapper'' = Some (JBool False)"
  using extractors_nothing_found[of "file_env [] []" "''/workspace''" "''Order''"]
  by (simp add: file_env_nothing field_def jget_def)

text \<open>
  C2 as it is written fails for the response wrapper extractor: with no file located its
  result has no \<^verbatim>\<open>found\<close> key, and the keys that depend on a wrapper are filled in.
\<close>

theorem investigateResponseWrapper_no_files:
  "findJavaFiles (file_env [] []) ''/workspace'' ''*Advice*'' @
     findJavaFiles (file_env [] []) ''/workspace'' ''*Response*'' = [] \<and>
   investigateResponseWrapper (file_env [] []) ''/workspace'' =
     Return (JObj
       [(''hasWrapper'', JBool False),
        (''wrapperClass'', JStr ''None''),
        (''wrapperField'', JStr ''N/A''),
        (''jsonPathPrefix'', JStr ''$''),
        (''recommendation'', JStr (''Use jsonPath('' @ [CHR 0x22] @ ''$.id'' @ [CHR 0x22]
                                   @ '') directly in controller tests''))]) \<and>
   field (investigateResponseWrapper (file_env [] []) ''/workspace'') ''found'' = None"
  by (simp add: investigateResponseWrapper_def file_env_nothing field_def jget_def)

section \<open>Missing properties\<close>

text \<open>
  The keys the scan discovers: the property name of every \<^verbatim>\<open>@Value\<close> match, file by file in
  the order of the located files. The set the tool keeps holds each of them once.
\<close>

definition file_keys :: "string \<Rightarrow> string list" where
  \<comment> \<open>the keys in the text of one file, in the order of their matches\<close>
  "file_keys content =
     (case exec_all valuePattern content of
        None \<Rightarrow> []
      | Some ms \<Rightarrow> map (\<lambda>c. replace_first propNamePattern (\<lambda>g. grp g 1) (grp c 1)) ms)"

definition discovered_keys :: "env \<Rightarrow> string list \<Rightarrow> string list" where
  "discovered_keys e files =
     concat (map (\<lambda>f. case readFile e f of None \<Rightarrow> [] | Some content \<Rightarrow> file_keys content) files)"

definition a_java :: string where
  "a_java = ''class A { @Value('' @ [CHR 0x22] @ ''${app.name:demo}'' @ [CHR 0x22] @ '') String n; }''"

definition b_java :: string where
  "b_java = ''class B { @Value('' @ [CHR 0x27] @ ''${app.url}'' @ [CHR 0x27] @ '') String u; @Value(''
             @ [CHR 0x22] @ ''${app.name}'' @ [CHR 0x22] @ '') String m; }''"

definition props_env :: env where
  "props_env = file_env [(''/w/src/main/java/**/*.java'', [''/w/src/main/java/A.java'', ''/w/src/main/java/B.java''])]
                        [(''/w/src/main/java/A.java'', a_java), (''/w/src/main/java/B.java'', b_java)]"

lemma new_Set_step:
  "foldl (\<lambda>acc c. let propName = g c in if propName \<in> set acc then acc else acc @ [propName]) acc ms
   = foldl (\<lambda>acc x. if x \<in> set acc then acc else acc @ [x]) acc (map g ms)"
  by (induction ms arbitrary: acc) (simp_all add: Let_def)

lemma file_properties_keys:
  "file_properties content acc = Some (foldl (\<lambda>acc x. if x \<in> set acc then acc else acc @ [x]) acc (file_keys content))"
proof -
  obtain ms where "exec_all valuePattern content = Some ms"
    using exec_all_returns[of valuePattern content] by (auto simp: valuePattern_def)
  then show ?thesis by (simp add: file_properties_def file_keys_def new_Set_step)
qed

lemma scan_properties_returns:
  "\<forall>f \<in> set files. readFile e f \<noteq> None \<Longrightarrow>
   scan_properties e files acc =
     Return (foldl (\<lambda>acc x. if x \<in> set acc then acc else acc @ [x]) acc (discovered_keys e files))"
proof (induction files arbitrary: acc)
  case Nil
  then show ?case by (simp add: discovered_keys_def)
next
  case (Cons f files)
  then obtain content where c: "readFile e f = Some content" by auto
  have "scan_properties e files (foldl (\<lambda>acc x. if x \<in> set acc then acc else acc @ [x]) acc (file_keys content))
        = Return (foldl (\<lambda>acc x. if x \<in> set acc then acc else acc @ [x])
                   (foldl (\<lambda>acc x. if x \<in> set acc then acc else acc @ [x]) acc (file_keys content))
                   (discovered_keys e files))"
    using Cons by simp
  then show ?case using c by (simp add: file_properties_keys discovered_keys_def)
qed

text \<open>
  C5, as the code has it. When every located source file can be read and the test
  configuration file \<^verbatim>\<open>src/test/resources/application-test.properties\<close> cannot (it does not
  exist), the tool returns \<^verbatim>\<open>testPropertiesFileExists: false\<close>, and \<^verbatim>\<open>missingProperties\<close> is the
  list of all discovered keys, each once, with \<^verbatim>\<open>totalProperties\<close> their number.
\<close>

theorem findMissingProperties_no_test_file:
  assumes "\<forall>f \<in> set (glob e (path_join e [p, ''src'', ''main'', ''java''] @ ''/**/*.java'')). readFile e f \<noteq> None"
    and "readFile e (path_join e [p, ''src'', ''test'', ''resources'', ''application-test.properties'']) = None"
  shows "findMissingProperties e p =
     Return (JObj
       [(''found'', JBool True),
        (''totalProperties'', JNum (length (new_Set (discovered_keys e
            (glob e (path_join e [p, ''src'', ''main'', ''java''] @ ''/**/*.java'')))))),
        (''missingProperties'', JArr (map JStr (new_Set (discovered_keys e
            (glob e (path_join e [p, ''src'', ''main'', ''java''] @ ''/**/*.java'')))))),
        (''testPropertiesFileExists'', JBool False),
        (''action'', JStr ''Create src/test/resources/application-test.properties with these properties'')])"
  using assms scan_properties_returns[OF assms(1), of "[]"]
  by (simp add: findMissingProperties_def new_Set_def Let_def)

theorem findMissingProperties_no_test_file_witness:
  "glob props_env (path_join props_env [''/w'', ''src'', ''main'', ''java''] @ ''/**/*.java'')
     = [''/w/src/main/java/A.java'', ''/w/src/main/java/B.java''] \<and>
   readFile props_env ''/w/src/main/java/A.java'' = Some a_java \<and>
   readFile props_env ''/w/src/main/java/B.java'' = Some b_java \<and>
   readFile props_env (path_join props_env [''/w'', ''src'', ''test'', ''resources'', ''application-test.properties'']) = None \<and>
   findMissingProperties props_env ''/w'' =
     Return (JObj
       [(''found'', JBool True),
        (''totalProperties'', JNum 2),
        (''missingProperties'', JArr [JStr ''app.name'', JStr ''app.url'']),
        (''testPropertiesFileExists'', JBool False),
        (''action'', JStr ''Create src/test/resources/application-test.properties with these properties'')])"
proof -
  have g: "glob props_env (path_join props_env [''/w'', ''src'', ''main'', ''java''] @ ''/**/*.java'')
     = [''/w/src/main/java/A.java'', ''/w/src/main/java/B.java'']"
    by (simp add: props_env_def file_env_def posix_join_def)
  have r: "readFile props_env ''/w/src/main/java/A.java'' = Some a_java"
    "readFile props_env ''/w/src/main/java/B.java'' = Some b_java"
    "readFile props_env (path_join props_env [''/w'', ''src'', ''test'', ''resources'', ''application-test.properties'']) = None"
    by (simp_all add: props_env_def file_env_def posix_join_def)
  have k: "new_Set (discovered_keys props_env [''/w/src/main/java/A.java'', ''/w/src/main/java/B.java''])
           = [''app.name'', ''app.url'']"
    by code_simp
  have a: "\<forall>f \<in> set (glob props_env (path_join props_env [''/w'', ''src'', ''main'', ''java''] @ ''/**/*.java'')).
             readFile props_env f \<noteq> None"
    unfolding g using r by simp
  show ?thesis
    using findMissingProperties_no_test_file[OF a r(3)] g r k by simp
qed

text \<open>
  C5 as it is written fails: in this tree the pattern locates a path that cannot be read as a
  file (a directory whose name ends in \<^verbatim>\<open>.java\<close>). The loop that reads the sources has no
  handler, here or in any other extractor, and the call throws.
\<close>

definition unreadable_env :: env where
  "unreadable_env = file_env [(''/w/src/main/java/**/*.java'', [''/w/src/main/java/model.java''])] []"

theorem findMissingProperties_unreadable_source:
  "glob unreadable_env (path_join unreadable_env [''/w'', ''src'', ''main'', ''java''] @ ''/**/*.java'')
     = [''/w/src/main/java/model.java''] \<and>
   readFile unreadable_env ''/w/src/main/java/model.java'' = None \<and>
   readFile unreadable_env
     (path_join unreadable_env [''/w'', ''src'', ''test'', ''resources'', ''application-test.properties'']) = None \<and>
   findMissingProperties unreadable_env ''/w'' = Throw IoError"
  by (simp add: findMissingProperties_def unreadable_env_def file_env_def posix_join_def)

section \<open>Required relationships\<close>

definition nl :: string where
  \<comment> \<open>a line feed\<close>
  "nl = [CHR 0x0A]"

definition order_java :: string where
  "order_java =
     ''@Entity'' @ nl @
     ''public class Order extends BaseEntity {'' @ nl @
     ''  @ManyToOne'' @ nl @
     ''  @JoinColumn(name = '' @ [CHR 0x22] @ ''owner_id'' @ [CHR 0x22] @ '', nullable = false)'' @ nl @
     ''  private User owner;'' @ nl @
     ''  @ManyToOne'' @ nl @
     ''  private Shop shop;'' @ nl @
     ''  @OneToMany(mappedBy = '' @ [CHR 0x22] @ ''order'' @ [CHR 0x22] @ '')'' @ nl @
     ''  private List<Item> items;'' @ nl @
     ''}''"

definition ticket_java :: string where
  "ticket_java =
     ''@Entity'' @ nl @
     ''public class Ticket {'' @ nl @
     ''  @ManyToOne'' @ nl @
     ''  @JoinColumn(name = '' @ [CHR 0x22] @ ''owner_id'' @ [CHR 0x22] @ '', nullable = false)'' @ nl @
     ''  protected User owner;'' @ nl @
     ''}''"

definition entity_env :: "string \<Rightarrow> env" where
  "entity_env content =
     file_env [(''/w/src/main/java/**/Order.java'', [''/w/src/main/java/shop/Order.java''])]
              [(''/w/src/main/java/shop/Order.java'', content)]"

text \<open>
  The argument of \<^verbatim>\<open>includes\<close> spells a pattern: \<^verbatim>\<open>@JoinColumn\<close>, the name of the field,
  \<^verbatim>\<open>nullable\<close> and \<^verbatim>\<open>true\<close> in this order on one line. Read as a pattern it is the following;
  a file that holds the argument as it is written also holds a match of the pattern.
\<close>

definition nullable_pattern :: "string \<Rightarrow> re" where
  \<comment> \<open>\<^verbatim>\<open>/@JoinColumn.*\<close>field\<^verbatim>\<open>.*nullable.*true/\<close>\<close>
  "nullable_pattern f =
     cat [Lit ''@JoinColumn'', Star CDot, Lit f, Star CDot, Lit ''nullable'', Star CDot, Lit ''true'']"

lemma greedy_some:
  "\<forall>c \<in> set xs. in_cls cl c \<Longrightarrow> k s \<noteq> None \<Longrightarrow> greedy cl (xs @ s) k \<noteq> None"
proof (induction xs)
  case Nil
  then show ?case by (cases s) (auto split: option.splits)
next
  case (Cons x xs)
  then show ?case by (auto split: option.splits)
qed

lemma lit_some: "k s c \<noteq> None \<Longrightarrow> re_match (Lit l) (l @ s) c k \<noteq> None"
  by simp

lemma dots_some: "k s c \<noteq> None \<Longrightarrow> re_match (Star CDot) (''.*'' @ s) c k \<noteq> None"
proof -
  assume "k s c \<noteq> None"
  moreover have "\<forall>x \<in> set ''.*''. in_cls CDot x" by (simp add: is_line_terminator_def)
  ultimately have "greedy CDot (''.*'' @ s) (\<lambda>s'. k s' c) \<noteq> None" by (rule greedy_some[rotated])
  then show ?thesis by (simp del: greedy.simps)
qed

lemma hit_at_needle:
  "hit_at (nullable_pattern f) ((''@JoinColumn.*'' @ f @ ''.*nullable.*true'') @ post) \<noteq> None"
proof -
  let ?K = "\<lambda>s' c'. Some (s', c')"
  have 1: "re_match (Lit ''true'') (''true'' @ post) [] ?K \<noteq> None" by (rule lit_some) simp
  have 2: "re_match (Star CDot) (''.*'' @ ''true'' @ post) [] (\<lambda>s c. re_match (Lit ''true'') s c ?K) \<noteq> None"
    using 1 by (rule dots_some)
  have 3: "re_match (Lit ''nullable'') (''nullable'' @ ''.*'' @ ''true'' @ post) []
             (\<lambda>s c. re_match (Star CDot) s c (\<lambda>s c. re_match (Lit ''true'') s c ?K)) \<noteq> None"
    using 2 by (rule lit_some)
  have 4: "re_match (Star CDot) (''.*'' @ ''nullable'' @ ''.*'' @ ''true'' @ post) []
             (\<lambda>s c. re_match (Lit ''nullable'') s c
               (\<lambda>s c. re_match (Star CDot) s c (\<lambda>s c. re_match (Lit ''true'') s c ?K))) \<noteq> None"
    using 3 by (rule dots_some)
  have 5: "re_match (Lit f) (f @ ''.*'' @ ''nullable'' @ ''.*'' @ ''true'' @ post) []
             (\<lambda>s c. re_match (Star CDot) s c
               (\<lambda>s c. re_match (Lit ''nullable'') s c
                 (\<lambda>s c. re_match (Star CDot) s c (\<lambda>s c. re_match (Lit ''true'') s c ?K)))) \<noteq> None"
    using 4 by (rule lit_some)
  have 6: "re_match (Star CDot) (''.*'' @ f @ ''.*'' @ ''nullable'' @ ''.*'' @ ''true'' @ post) []
             (\<lambda>s c. re_match (Lit f) s c
               (\<lambda>s c. re_match (Star CDot) s c
                 (\<lambda>s c. re_match (Lit ''nullable'') s c
                   (\<lambda>s c. re_match (Star CDot) s c (\<lambda>s c. re_match (Lit ''true'') s c ?K))))) \<noteq> None"
    using 5 by (rule dots_some)
  have 7: "re_match (Lit ''@JoinColumn'') (''@JoinColumn'' @ ''.*'' @ f @ ''.*'' @ ''nullable'' @ ''.*'' @ ''true'' @ post) []
             (\<lambda>s c. re_match (Star CDot) s c
               (\<lambda>s c. re_match (Lit f) s c
                 (\<lambda>s c. re_match (Star CDot) s c
                   (\<lambda>s c. re_match (Lit ''nullable'') s c
                     (\<lambda>s c. re_match (Star CDot) s c (\<lambda>s c. re_match (Lit ''true'') s c ?K)))))) \<noteq> None"
    using 6 by (rule lit_some)
  have e: "(''@JoinColumn.*'' @ f @ ''.*nullable.*true'') @ post
           = ''@JoinColumn'' @ ''.*'' @ f @ ''.*'' @ ''nullable'' @ ''.*'' @ ''true'' @ post"
    by simp
  have "re_match (nullable_pattern f) ((''@JoinColumn.*'' @ f @ ''.*nullable.*true'') @ post) [] ?K \<noteq> None"
    unfolding e nullable_pattern_def cat.simps re_match.simps(7) using 7 .
  then show ?thesis by (auto simp: hit_at_def split: option.splits)
qed

lemma re_search_some: "hit_at r s \<noteq> None \<Longrightarrow> re_search r (pre @ s) \<noteq> None"
proof (induction pre)
  case Nil
  then show ?case by (cases s) auto
next
  case (Cons x pre)
  then show ?case by (cases "hit_at r (x # pre @ s)") auto
qed

lemma needle_matches:
  assumes "str_includes content (''@JoinColumn.*'' @ f @ ''.*nullable.*true'')"
  shows "re_search (nullable_pattern f) content \<noteq> None"
proof -
  from assms obtain pre post where "content = pre @ (''@JoinColumn.*'' @ f @ ''.*nullable.*true'') @ post"
    unfolding str_includes_def sublist_def by blast
  then show ?thesis using re_search_some[OF hit_at_needle] by simp
qed

text \<open>
  C6, as the code has it. The tool reports the to-one declarations that its pattern matches
  (\<^verbatim>\<open>@ManyToOne\<close>, then \<^verbatim>\<open>private\<close>, a type and a name), and decides \<^verbatim>\<open>required\<close> for each by
  looking in the whole file. A reported declaration is marked \<^verbatim>\<open>required: true\<close> whenever the
  file has no match of \<^verbatim>\<open>@JoinColumn.*\<close>field\<^verbatim>\<open>.*nullable.*true\<close> for its field: the declaration
  next to a \<^verbatim>\<open>nullable = false\<close> marker and the one with no marker alike.
\<close>

theorem manyToOne_required:
  assumes "findJavaFiles e p name = file # files"
    and "readFile e file = Some content"
  shows "\<exists>ms req rest. exec_all manyToOnePattern content = Some ms \<and>
           field (investigateEntityRelationships e p name) ''relationships'' =
             Some (JObj ((''manyToOne'', JArr (map (\<lambda>c. JObj [(''type'', JStr (grp c 1)),
                                                              (''field'', JStr (grp c 2)),
                                                              (''required'', JBool (req c))]) ms)) # rest)) \<and>
           (\<forall>c \<in> set ms. re_search (nullable_pattern (grp c 2)) content = None \<longrightarrow> req c)"
proof -
  let ?req = "\<lambda>c. \<not> str_includes content (''@JoinColumn.*'' @ grp c 2 @ ''.*nullable.*true'')"
  obtain ms1 where m1: "exec_all manyToOnePattern content = Some ms1"
    using exec_all_returns[of manyToOnePattern content] by (auto simp: manyToOnePattern_def)
  obtain ms2 where m2: "exec_all oneToManyPattern content = Some ms2"
    using exec_all_returns[of oneToManyPattern content] by (auto simp: oneToManyPattern_def)
  have r: "\<forall>c \<in> set ms1. re_search (nullable_pattern (grp c 2)) content = None \<longrightarrow> ?req c"
    using needle_matches by blast
  let ?rest = "[(''oneToMany'', JArr (map oneToMany_entry ms2)),
                (''oneToOne'', JArr []), (''manyToMany'', JArr [])]"
  have v: "field (investigateEntityRelationships e p name) ''relationships'' =
          Some (JObj ((''manyToOne'', JArr (map (\<lambda>c. JObj [(''type'', JStr (grp c 1)),
                                                           (''field'', JStr (grp c 2)),
                                                           (''required'', JBool (?req c))]) ms1))
                      # ?rest))"
    using assms m1 m2
    by (simp add: investigateEntityRelationships_def field_def jget_def Let_def manyToOne_entry_def)
  show ?thesis
  proof (rule exI[of _ ms1], rule exI[of _ ?req], rule exI[of _ ?rest], intro conjI)
    show "exec_all manyToOnePattern content = Some ms1" by (rule m1)
    show "field (investigateEntityRelationships e p name) ''relationships'' =
          Some (JObj ((''manyToOne'', JArr (map (\<lambda>c. JObj [(''type'', JStr (grp c 1)),
                                                           (''field'', JStr (grp c 2)),
                                                           (''required'', JBool (?req c))]) ms1))
                      # ?rest))" by (rule v)
    show "\<forall>c \<in> set ms1. re_search (nullable_pattern (grp c 2)) content = None \<longrightarrow> ?req c" by (rule r)
  qed
qed

theorem manyToOne_required_witness:
  "findJavaFiles (entity_env order_java) ''/w'' ''Order'' = [''/w/src/main/java/shop/Order.java''] \<and>
   readFile (entity_env order_java) ''/w/src/main/java/shop/Order.java'' = Some order_java \<and>
   str_includes order_java ''nullable = false'' \<and>
   re_search (nullable_pattern ''owner'') order_java = None \<and>
   re_search (nullable_pattern ''shop'') order_java = None \<and>
   field (investigateEntityRelationships (entity_env order_java) ''/w'' ''Order'') ''relationships'' =
     Some (JObj
       [(''manyToOne'', JArr
          [JObj [(''type'', JStr ''User''), (''field'', JStr ''owner''), (''required'', JBool True)],
           JObj [(''type'', JStr ''Shop''), (''field'', JStr ''shop''), (''required'', JBool True)]]),
        (''oneToMany'', JArr [JObj [(''type'', JStr ''Item''), (''field'', JStr ''items'')]]),
        (''oneToOne'', JArr []),
        (''manyToMany'', JArr [])])"
proof -
  have f: "findJavaFiles (entity_env order_java) ''/w'' ''Order'' = [''/w/src/main/java/shop/Order.java'']"
    by (simp add: findJavaFiles_def entity_env_def file_env_def posix_join_def)
  have r: "readFile (entity_env order_java) ''/w/src/main/java/shop/Order.java'' = Some order_java"
    by (simp add: entity_env_def file_env_def)
  have i: "str_includes order_java ''nullable = false''" by code_simp
  have n: "re_search (nullable_pattern ''owner'') order_java = None"
    "re_search (nullable_pattern ''shop'') order_java = None"
    by code_simp+
  have m: "exec_all manyToOnePattern order_java = Some [[(2, ''owner''), (1, ''User'')], [(2, ''shop''), (1, ''Shop'')]]"
    by code_simp
  have o: "exec_all oneToManyPattern order_java = Some [[(2, ''items''), (1, ''Item'')]]"
    by code_simp
  from manyToOne_required[OF f r] obtain ms req rest where
    ms: "exec_all manyToOnePattern order_java = Some ms"
    and v: "field (investigateEntityRelationships (entity_env order_java) ''/w'' ''Order'') ''relationships'' =
             Some (JObj ((''manyToOne'', JArr (map (\<lambda>c. JObj [(''type'', JStr (grp c 1)),
                                                              (''field'', JStr (grp c 2)),
                                                              (''required'', JBool (req c))]) ms)) # rest))"
    and q: "\<forall>c \<in> set ms. re_search (nullable_pattern (grp c 2)) order_java = None \<longrightarrow> req c"
    by blast
  have ms': "ms = [[(2, ''owner''), (1, ''User'')], [(2, ''shop''), (1, ''Shop'')]]" using ms m by simp
  have q': "req [(2, ''owner''), (1, ''User'')]" "req [(2, ''shop''), (1, ''Shop'')]"
    using q n by (simp_all add: ms' grp_def)
  have rest: "rest = [(''oneToMany'', JArr [JObj [(''type'', JStr ''Item''), (''field'', JStr ''items'')]]),
                      (''oneToOne'', JArr []), (''manyToMany'', JArr [])]"
    using v f r m o
    by (simp add: investigateEntityRelationships_def field_def jget_def Let_def oneToMany_entry_def grp_def)
  show ?thesis using f r i n v q' rest by (simp add: ms' grp_def)
qed

text \<open>
  C6 as it is written fails. In the first file the field \<^verbatim>\<open>owner\<close> stands next to a
  \<^verbatim>\<open>nullable = false\<close> marker and is reported with \<^verbatim>\<open>required: false\<close>, because a comment
  elsewhere in the file holds what the tool looks for. In the second file the field next to
  the marker is \<^verbatim>\<open>protected\<close>, and it is not reported at all.
\<close>

theorem investigateEntityRelationships_needle_text:
  "str_includes (''// @JoinColumn.*owner.*nullable.*true'' @ nl @ order_java) ''nullable = false)'' \<and>
   field (investigateEntityRelationships
            (entity_env (''// @JoinColumn.*owner.*nullable.*true'' @ nl @ order_java)) ''/w'' ''Order'')
         ''relationships'' =
     Some (JObj
       [(''manyToOne'', JArr
          [JObj [(''type'', JStr ''User''), (''field'', JStr ''owner''), (''required'', JBool False)],
           JObj [(''type'', JStr ''Shop''), (''field'', JStr ''shop''), (''required'', JBool True)]]),
        (''oneToMany'', JArr [JObj [(''type'', JStr ''Item''), (''field'', JStr ''items'')]]),
        (''oneToOne'', JArr []),
        (''manyToMany'', JArr [])]) \<and>
   str_includes ticket_java ''@ManyToOne'' \<and>
   str_includes ticket_java ''nullable = false)'' \<and>
   field (investigateEntityRelationships (entity_env ticket_java) ''/w'' ''Order'') ''relationships'' =
     Some (JObj
       [(''manyToOne'', JArr []),
        (''oneToMany'', JArr []),
        (''oneToOne'', JArr []),
        (''manyToMany'', JArr [])])"
  by code_simp

section \<open>The same corpus twice\<close>

text \<open>
  Two runs are two environments. What an extractor works on is what its glob patterns locate,
  in the order \<^verbatim>\<open>glob\<close> returns it, with the text of each located file, and for two extractors
  one more file read by its path: the test configuration and \<^verbatim>\<open>pom.xml\<close>. Everything else may
  differ between the runs: the platform, the variables, what commands do, every other file.
\<close>

definition same_files :: "env \<Rightarrow> env \<Rightarrow> string \<Rightarrow> bool" where
  \<comment> \<open>a pattern locates the same files, in the same order and with the same text\<close>
  "same_files e1 e2 pat =
     (glob e1 pat = glob e2 pat \<and> (\<forall>f \<in> set (glob e1 pat). readFile e1 f = readFile e2 f))"

definition same_library :: "env \<Rightarrow> env \<Rightarrow> bool" where
  \<comment> \<open>the functions of \<^verbatim>\<open>path\<close> and the XML parser are the same\<close>
  "same_library e1 e2 =
     (path_join e1 = path_join e2 \<and> path_basename e1 = path_basename e2 \<and>
      XMLParser_parse e1 = XMLParser_parse e2)"

definition src_pattern :: "env \<Rightarrow> string \<Rightarrow> string \<Rightarrow> string" where
  \<comment> \<open>the glob pattern of \<^verbatim>\<open>findJavaFiles\<close>\<close>
  "src_pattern e projectPath pattern =
     path_join e [projectPath, ''src'', ''main'', ''java''] @ ''/**/'' @ pattern @ ''.java''"

definition dto_pattern :: "env \<Rightarrow> string \<Rightarrow> string \<Rightarrow> string" where
  \<comment> \<open>the glob pattern of \<^verbatim>\<open>checkJsonNamingStrategy\<close>\<close>
  "dto_pattern e projectPath dtoPackage =
     path_join e ([projectPath, ''src'', ''main'', ''java''] @ split_on CHR ''.'' dtoPackage) @ ''/**/*.java''"

definition test_properties_path :: "env \<Rightarrow> string \<Rightarrow> string" where
  "test_properties_path e projectPath =
     path_join e [projectPath, ''src'', ''test'', ''resources'', ''application-test.properties'']"

definition first_run :: env where
  "first_run =
     file_env [(''/w/src/main/java/**/Order.java'', [''/w/src/main/java/shop/Order.java'']),
               (''/w/src/main/java/**/*.java'', [''/w/src/main/java/shop/Order.java''])]
              [(''/w/src/main/java/shop/Order.java'', order_java)]"

definition second_run :: env where
  "second_run =
     first_run\<lparr>platform := ''win32'', MCP_WORKSPACE := Some ''/srv'',
               execAsync := (\<lambda>cmd cwd ms. Resolved ''done'' []),
               readFile := (\<lambda>f. if f = ''/tmp/notes.txt'' then Some ''later'' else readFile first_run f)\<rparr>"

lemma jwt_files_same:
  "\<forall>f \<in> set files. readFile e1 f = readFile e2 f \<Longrightarrow> jwt_files e1 files st = jwt_files e2 files st"
  by (induction files arbitrary: st) (auto split: option.splits)

lemma wrapper_files_same:
  "\<forall>f \<in> set files. readFile e1 f = readFile e2 f \<Longrightarrow> path_basename e1 = path_basename e2 \<Longrightarrow>
   wrapper_files e1 files st = wrapper_files e2 files st"
  by (induction files arbitrary: st) (auto simp: wrapper_file_def split: option.splits)

lemma scan_properties_same:
  "\<forall>f \<in> set files. readFile e1 f = readFile e2 f \<Longrightarrow>
   scan_properties e1 files st = scan_properties e2 files st"
  by (induction files arbitrary: st) (auto split: option.splits)

lemma naming_files_same:
  "\<forall>f \<in> set files. readFile e1 f = readFile e2 f \<Longrightarrow>
   naming_files e1 files st = naming_files e2 files st"
  by (induction files arbitrary: st) (auto split: option.splits)

lemma bean_files_same:
  "\<forall>f \<in> set files. readFile e1 f = readFile e2 f \<Longrightarrow> path_basename e1 = path_basename e2 \<Longrightarrow>
   bean_files e1 p files st = bean_files e2 p files st"
  by (induction files arbitrary: st) (auto simp: bean_file_def split: option.splits)

lemma findJavaFiles_same:
  "same_library e1 e2 \<Longrightarrow> same_files e1 e2 (src_pattern e1 p pat) \<Longrightarrow>
   findJavaFiles e1 p pat = findJavaFiles e2 p pat \<and>
   (\<forall>f \<in> set (findJavaFiles e1 p pat). readFile e1 f = readFile e2 f)"
  by (simp add: same_library_def same_files_def src_pattern_def findJavaFiles_def)

lemma hd_same:
  "findJavaFiles e1 p pat = findJavaFiles e2 p pat \<Longrightarrow>
   \<forall>f \<in> set (findJavaFiles e1 p pat). readFile e1 f = readFile e2 f \<Longrightarrow>
   findJavaFiles e1 p pat \<noteq> [] \<Longrightarrow>
   readFile e1 (hd (findJavaFiles e1 p pat)) = readFile e2 (hd (findJavaFiles e2 p pat))"
  by (cases "findJavaFiles e1 p pat") auto

lemma jwt_same:
  assumes "same_library e1 e2"
    and "same_files e1 e2 (src_pattern e1 p ''*JwtTokenUtil*'')"
    and "same_files e1 e2 (src_pattern e1 p ''*JwtRequestFilter*'')"
  shows "investigateJwtClaims e1 p = investigateJwtClaims e2 p"
proof -
  note a = findJavaFiles_same[OF assms(1,2)] and b = findJavaFiles_same[OF assms(1,3)]
  have "\<forall>f \<in> set (findJavaFiles e1 p ''*JwtTokenUtil*'' @ findJavaFiles e1 p ''*JwtRequestFilter*'').
          readFile e1 f = readFile e2 f" using a b by auto
  from jwt_files_same[OF this] show ?thesis using a b assms(1)
    by (auto simp: investigateJwtClaims_def same_library_def Let_def split: outcome.splits)
qed

lemma wrapper_same:
  assumes "same_library e1 e2"
    and "same_files e1 e2 (src_pattern e1 p ''*Advice*'')"
    and "same_files e1 e2 (src_pattern e1 p ''*Response*'')"
  shows "investigateResponseWrapper e1 p = investigateResponseWrapper e2 p"
proof -
  note a = findJavaFiles_same[OF assms(1,2)] and b = findJavaFiles_same[OF assms(1,3)]
  have "\<forall>f \<in> set (findJavaFiles e1 p ''*Advice*'' @ findJavaFiles e1 p ''*Response*'').
          readFile e1 f = readFile e2 f" using a b by auto
  from wrapper_files_same[OF this] show ?thesis using a b assms(1)
    by (auto simp: investigateResponseWrapper_def same_library_def Let_def split: outcome.splits)
qed

lemma named_same:
  assumes "same_library e1 e2" and "same_files e1 e2 (src_pattern e1 p name)"
  shows "investigateEntityRelationships e1 p name = investigateEntityRelationships e2 p name"
    and "analyzeController e1 p name = analyzeController e2 p name"
    and "analyzeRepository e1 p name = analyzeRepository e2 p name"
    and "investigateService e1 p name = investigateService e2 p name"
proof -
  note a = findJavaFiles_same[OF assms]
  have h: "findJavaFiles e1 p name \<noteq> [] \<Longrightarrow>
           readFile e1 (hd (findJavaFiles e1 p name)) = readFile e2 (hd (findJavaFiles e2 p name))"
    using hd_same a by blast
  show "investigateEntityRelationships e1 p name = investigateEntityRelationships e2 p name"
    using a h by (simp add: investigateEntityRelationships_def Let_def)
  show "analyzeController e1 p name = analyzeController e2 p name"
    using a h by (simp add: analyzeController_def Let_def)
  show "analyzeRepository e1 p name = analyzeRepository e2 p name"
    using a h by (simp add: analyzeRepository_def Let_def)
  show "investigateService e1 p name = investigateService e2 p name"
    using a h by (simp add: investigateService_def Let_def)
qed

lemma tree_same:
  assumes "same_library e1 e2" and "same_files e1 e2 (src_pattern e1 p ''*'')"
  shows "readFile e1 (test_properties_path e1 p) = readFile e2 (test_properties_path e1 p) \<Longrightarrow>
         findMissingProperties e1 p = findMissingProperties e2 p"
    and "findBeansNeedingExclusion e1 p = findBeansNeedingExclusion e2 p"
proof -
  have g: "glob e1 (path_join e1 [p, ''src'', ''main'', ''java''] @ ''/**/*.java'')
           = glob e2 (path_join e2 [p, ''src'', ''main'', ''java''] @ ''/**/*.java'')"
    and r: "\<forall>f \<in> set (glob e1 (path_join e1 [p, ''src'', ''main'', ''java''] @ ''/**/*.java'')).
              readFile e1 f = readFile e2 f"
    and l: "path_join e1 = path_join e2" "path_basename e1 = path_basename e2"
    using assms by (simp_all add: same_library_def same_files_def src_pattern_def)
  show "readFile e1 (test_properties_path e1 p) = readFile e2 (test_properties_path e1 p) \<Longrightarrow>
         findMissingProperties e1 p = findMissingProperties e2 p"
    using scan_properties_same[OF r] g l
    by (auto simp: findMissingProperties_def test_properties_path_def Let_def split: outcome.splits)
  show "findBeansNeedingExclusion e1 p = findBeansNeedingExclusion e2 p"
    using bean_files_same[OF r l(2)] g l
    by (auto simp: findBeansNeedingExclusion_def Let_def split: outcome.splits)
qed

lemma naming_same:
  assumes "same_library e1 e2" and "same_files e1 e2 (dto_pattern e1 p pkg)"
  shows "checkJsonNamingStrategy e1 p pkg = checkJsonNamingStrategy e2 p pkg"
proof -
  have g: "glob e1 (path_join e1 ([p, ''src'', ''main'', ''java''] @ split_on CHR ''.'' pkg) @ ''/**/*.java'')
           = glob e2 (path_join e2 ([p, ''src'', ''main'', ''java''] @ split_on CHR ''.'' pkg) @ ''/**/*.java'')"
    and r: "\<forall>f \<in> set (glob e1 (path_join e1 ([p, ''src'', ''main'', ''java''] @ split_on CHR ''.'' pkg) @ ''/**/*.java'')).
              readFile e1 f = readFile e2 f"
    using assms by (simp_all add: same_library_def same_files_def dto_pattern_def)
  show ?thesis using naming_files_same[OF r] g
    by (auto simp: checkJsonNamingStrategy_def Let_def split: outcome.splits)
qed

lemma pom_same:
  assumes "same_library e1 e2"
    and "readFile e1 (path_join e1 [p, ''pom.xml'']) = readFile e2 (path_join e1 [p, ''pom.xml''])"
  shows "checkSpringBootVersion e1 p = checkSpringBootVersion e2 p"
  using assms by (auto simp: checkSpringBootVersion_def same_library_def Let_def split: option.splits)

subsection \<open>The same files in another order\<close>

text \<open>
  \<^verbatim>\<open>glob\<close> may return the same files in another order in the second run. The properties
  extractor then finds the same keys, and lists them in another order.
\<close>

definition swapped_env :: env where
  "swapped_env = props_env\<lparr>glob := (\<lambda>pat. rev (glob props_env pat))\<rparr>"

lemma keep_first_set:
  "set (foldl (\<lambda>acc x. if x \<in> set acc then acc else acc @ [x]) acc xs) = set acc \<union> set xs"
  by (induction xs arbitrary: acc) auto

lemma keep_first_distinct:
  "distinct acc \<Longrightarrow> distinct (foldl (\<lambda>acc x. if x \<in> set acc then acc else acc @ [x]) acc xs)"
  by (induction xs arbitrary: acc) auto

lemma discovered_keys_any_order:
  assumes "set fs1 = set fs2" and "\<forall>f \<in> set fs1. readFile e1 f = readFile e2 f"
  shows "set (discovered_keys e1 fs1) = set (discovered_keys e2 fs2)"
  using assms by (auto simp: discovered_keys_def)

lemma scanned_any_order:
  assumes "set fs1 = set fs2"
    and "\<forall>f \<in> set fs1. readFile e1 f \<noteq> None \<and> readFile e1 f = readFile e2 f"
  shows "\<exists>ps1 ps2. scan_properties e1 fs1 [] = Return ps1 \<and> scan_properties e2 fs2 [] = Return ps2 \<and>
           set ps1 = set ps2 \<and> distinct ps1 \<and> distinct ps2 \<and> length ps1 = length ps2"
proof -
  let ?ins = "\<lambda>acc x. if x \<in> set acc then acc else acc @ [x]"
  define ps1 where "ps1 = foldl ?ins [] (discovered_keys e1 fs1)"
  define ps2 where "ps2 = foldl ?ins [] (discovered_keys e2 fs2)"
  have r1: "\<forall>f \<in> set fs1. readFile e1 f \<noteq> None" using assms(2) by blast
  have rr: "\<forall>f \<in> set fs1. readFile e1 f = readFile e2 f" using assms(2) by blast
  have r2: "\<forall>f \<in> set fs2. readFile e2 f \<noteq> None" using assms by metis
  have s1: "scan_properties e1 fs1 [] = Return ps1" unfolding ps1_def by (rule scan_properties_returns[OF r1])
  have s2: "scan_properties e2 fs2 [] = Return ps2" unfolding ps2_def by (rule scan_properties_returns[OF r2])
  have ps: "set ps1 = set ps2" "distinct ps1" "distinct ps2"
    using discovered_keys_any_order[OF assms(1) rr]
    by (simp_all add: ps1_def ps2_def keep_first_set keep_first_distinct)
  have len: "length ps1 = length ps2"
    using distinct_card[OF ps(2)] distinct_card[OF ps(3)] ps(1) by simp
  show ?thesis using s1 s2 ps len by blast
qed

lemma scanned_absent:
  assumes "scan_properties e (glob e (path_join e [p, ''src'', ''main'', ''java''] @ ''/**/*.java'')) [] = Return ps"
    and "readFile e (path_join e [p, ''src'', ''test'', ''resources'', ''application-test.properties'']) = None"
  shows "findMissingProperties e p =
           Return (JObj
             [(''found'', JBool True), (''totalProperties'', JNum (length ps)),
              (''missingProperties'', JArr (map JStr ps)),
              (''testPropertiesFileExists'', JBool False),
              (''action'', JStr ''Create src/test/resources/application-test.properties with these properties'')])"
  using assms by (simp add: findMissingProperties_def Let_def)

lemma scanned_present:
  assumes "scan_properties e (glob e (path_join e [p, ''src'', ''main'', ''java''] @ ''/**/*.java'')) [] = Return ps"
    and "readFile e (path_join e [p, ''src'', ''test'', ''resources'', ''application-test.properties'']) = Some testProps"
    and "ms = filter (\<lambda>prop. \<not> str_includes testProps prop) ps"
  shows "findMissingProperties e p =
           Return (JObj
             [(''found'', JBool True), (''totalProperties'', JNum (length ps)),
              (''missingProperties'', JArr (map JStr ms)),
              (''testPropertiesFileExists'', JBool True),
              (''action'', JStr (if length ms > 0
                 then ''Add these '' @ show_nat (length ms) @ '' properties to application-test.properties''
                 else ''All properties are defined in test config '' @ check_mark))])"
  using assms by (simp add: findMissingProperties_def Let_def)

lemma missing_any_order:
  assumes "path_join e1 = path_join e2"
    and "set (glob e1 (src_pattern e1 p ''*'')) = set (glob e2 (src_pattern e1 p ''*''))"
    and "\<forall>f \<in> set (glob e1 (src_pattern e1 p ''*'')). readFile e1 f \<noteq> None \<and> readFile e1 f = readFile e2 f"
    and "readFile e1 (test_properties_path e1 p) = readFile e2 (test_properties_path e1 p)"
  shows "(\<forall>key. key \<noteq> ''missingProperties'' \<longrightarrow>
            field (findMissingProperties e1 p) key = field (findMissingProperties e2 p) key) \<and>
         (\<exists>ks1 ks2. field (findMissingProperties e1 p) ''missingProperties'' = Some (JArr (map JStr ks1)) \<and>
                    field (findMissingProperties e2 p) ''missingProperties'' = Some (JArr (map JStr ks2)) \<and>
                    set ks1 = set ks2 \<and> distinct ks1 \<and> distinct ks2)"
proof -
  let ?g1 = "glob e1 (path_join e1 [p, ''src'', ''main'', ''java''] @ ''/**/*.java'')"
  let ?g2 = "glob e2 (path_join e2 [p, ''src'', ''main'', ''java''] @ ''/**/*.java'')"
  let ?t1 = "readFile e1 (path_join e1 [p, ''src'', ''test'', ''resources'', ''application-test.properties''])"
  let ?t2 = "readFile e2 (path_join e2 [p, ''src'', ''test'', ''resources'', ''application-test.properties''])"
  have pat: "src_pattern e1 p ''*'' = path_join e1 [p, ''src'', ''main'', ''java''] @ ''/**/*.java''"
    by (simp add: src_pattern_def)
  have g: "set ?g1 = set ?g2" using assms(1,2) unfolding pat by simp
  have r: "\<forall>f \<in> set ?g1. readFile e1 f \<noteq> None \<and> readFile e1 f = readFile e2 f"
    using assms(3) unfolding pat .
  have t: "?t2 = ?t1" using assms(1,4) by (simp add: test_properties_path_def)
  from scanned_any_order[OF g r] obtain ps1 ps2 where
    s1: "scan_properties e1 ?g1 [] = Return ps1" and s2: "scan_properties e2 ?g2 [] = Return ps2"
    and ps: "set ps1 = set ps2" "distinct ps1" "distinct ps2" "length ps1 = length ps2"
    by blast
  show ?thesis
  proof (cases ?t1)
    case None
    then have n2: "?t2 = None" using t by simp
    note f1 = scanned_absent[OF s1 None] and f2 = scanned_absent[OF s2 n2]
    have k: "\<forall>key. key \<noteq> ''missingProperties'' \<longrightarrow>
            field (findMissingProperties e1 p) key = field (findMissingProperties e2 p) key"
      unfolding f1 f2 using ps(4) by (simp add: field_def jget_def)
    have m: "field (findMissingProperties e1 p) ''missingProperties'' = Some (JArr (map JStr ps1))"
      "field (findMissingProperties e2 p) ''missingProperties'' = Some (JArr (map JStr ps2))"
      unfolding f1 f2 by (simp_all add: field_def jget_def)
    show ?thesis
    proof (intro conjI, rule k, rule exI[of _ ps1], rule exI[of _ ps2], intro conjI)
      show "field (findMissingProperties e1 p) ''missingProperties'' = Some (JArr (map JStr ps1))" by (rule m(1))
      show "field (findMissingProperties e2 p) ''missingProperties'' = Some (JArr (map JStr ps2))" by (rule m(2))
      show "set ps1 = set ps2" by (rule ps(1))
      show "distinct ps1" by (rule ps(2))
      show "distinct ps2" by (rule ps(3))
    qed
  next
    case (Some testProps)
    then have n2: "?t2 = Some testProps" using t by simp
    define m1 where "m1 = filter (\<lambda>prop. \<not> str_includes testProps prop) ps1"
    define m2 where "m2 = filter (\<lambda>prop. \<not> str_includes testProps prop) ps2"
    note f1 = scanned_present[OF s1 Some m1_def] and f2 = scanned_present[OF s2 n2 m2_def]
    have ms: "set m1 = set m2" "distinct m1" "distinct m2" using ps by (auto simp: m1_def m2_def)
    have mlen: "length m1 = length m2"
      using distinct_card[OF ms(2)] distinct_card[OF ms(3)] ms(1) by simp
    have k: "\<forall>key. key \<noteq> ''missingProperties'' \<longrightarrow>
            field (findMissingProperties e1 p) key = field (findMissingProperties e2 p) key"
      unfolding f1 f2 using ps(4) mlen by (simp add: field_def jget_def)
    have m: "field (findMissingProperties e1 p) ''missingProperties'' = Some (JArr (map JStr m1))"
      "field (findMissingProperties e2 p) ''missingProperties'' = Some (JArr (map JStr m2))"
      unfolding f1 f2 by (simp_all add: field_def jget_def)
    show ?thesis
    proof (intro conjI, rule k, rule exI[of _ m1], rule exI[of _ m2], intro conjI)
      show "field (findMissingProperties e1 p) ''missingProperties'' = Some (JArr (map JStr m1))" by (rule m(1))
      show "field (findMissingProperties e2 p) ''missingProperties'' = Some (JArr (map JStr m2))" by (rule m(2))
      show "set m1 = set m2" by (rule ms(1))
      show "distinct m1" by (rule ms(2))
      show "distinct m2" by (rule ms(3))
    qed
  qed
qed

text \<open>
  C9, as the code has it. Each of the ten extractors returns the same result in two runs in
  which \<^verbatim>\<open>glob\<close> returns the same files in the same order and the files have the same text,
  whatever else differs between the runs. When \<^verbatim>\<open>glob\<close> returns the same files in any order,
  the properties extractor returns the same object but for the order of the keys it lists.
\<close>

theorem extractors_same_corpus:
  assumes "same_library e1 e2"
  shows
   "(same_files e1 e2 (src_pattern e1 p ''*JwtTokenUtil*'') \<and>
     same_files e1 e2 (src_pattern e1 p ''*JwtRequestFilter*'') \<longrightarrow>
       investigateJwtClaims e1 p = investigateJwtClaims e2 p)
    \<and> (same_files e1 e2 (src_pattern e1 p ''*Advice*'') \<and>
        same_files e1 e2 (src_pattern e1 p ''*Response*'') \<longrightarrow>
          investigateResponseWrapper e1 p = investigateResponseWrapper e2 p)
    \<and> (same_files e1 e2 (src_pattern e1 p name) \<longrightarrow>
          investigateEntityRelationships e1 p name = investigateEntityRelationships e2 p name \<and>
          analyzeController e1 p name = analyzeController e2 p name \<and>
          analyzeRepository e1 p name = analyzeRepository e2 p name \<and>
          investigateService e1 p name = investigateService e2 p name)
    \<and> (same_files e1 e2 (src_pattern e1 p ''*'') \<longrightarrow>
          findBeansNeedingExclusion e1 p = findBeansNeedingExclusion e2 p \<and>
          (readFile e1 (test_properties_path e1 p) = readFile e2 (test_properties_path e1 p) \<longrightarrow>
             findMissingProperties e1 p = findMissingProperties e2 p))
    \<and> (same_files e1 e2 (dto_pattern e1 p pkg) \<longrightarrow>
          checkJsonNamingStrategy e1 p pkg = checkJsonNamingStrategy e2 p pkg)
    \<and> (readFile e1 (path_join e1 [p, ''pom.xml'']) = readFile e2 (path_join e1 [p, ''pom.xml'']) \<longrightarrow>
          checkSpringBootVersion e1 p = checkSpringBootVersion e2 p)
    \<and> (set (glob e1 (src_pattern e1 p ''*'')) = set (glob e2 (src_pattern e1 p ''*'')) \<and>
        (\<forall>f \<in> set (glob e1 (src_pattern e1 p ''*'')). readFile e1 f \<noteq> None \<and> readFile e1 f = readFile e2 f) \<and>
        readFile e1 (test_properties_path e1 p) = readFile e2 (test_properties_path e1 p) \<longrightarrow>
          (\<forall>key. key \<noteq> ''missingProperties'' \<longrightarrow>
             field (findMissingProperties e1 p) key = field (findMissingProperties e2 p) key) \<and>
          (\<exists>ks1 ks2. field (findMissingProperties e1 p) ''missingProperties'' = Some (JArr (map JStr ks1)) \<and>
                     field (findMissingProperties e2 p) ''missingProperties'' = Some (JArr (map JStr ks2)) \<and>
                     set ks1 = set ks2 \<and> distinct ks1 \<and> distinct ks2))"
proof -
  have l: "path_join e1 = path_join e2" using assms by (simp add: same_library_def)
  have a: "(same_files e1 e2 (src_pattern e1 p ''*JwtTokenUtil*'') \<and>
     same_files e1 e2 (src_pattern e1 p ''*JwtRequestFilter*'') \<longrightarrow>
       investigateJwtClaims e1 p = investigateJwtClaims e2 p)
    \<and> (same_files e1 e2 (src_pattern e1 p ''*Advice*'') \<and>
        same_files e1 e2 (src_pattern e1 p ''*Response*'') \<longrightarrow>
          investigateResponseWrapper e1 p = investigateResponseWrapper e2 p)
    \<and> (same_files e1 e2 (src_pattern e1 p name) \<longrightarrow>
          investigateEntityRelationships e1 p name = investigateEntityRelationships e2 p name \<and>
          analyzeController e1 p name = analyzeController e2 p name \<and>
          analyzeRepository e1 p name = analyzeRepository e2 p name \<and>
          investigateService e1 p name = investigateService e2 p name)
    \<and> (same_files e1 e2 (src_pattern e1 p ''*'') \<longrightarrow>
          findBeansNeedingExclusion e1 p = findBeansNeedingExclusion e2 p \<and>
          (readFile e1 (test_properties_path e1 p) = readFile e2 (test_properties_path e1 p) \<longrightarrow>
             findMissingProperties e1 p = findMissingProperties e2 p))
    \<and> (same_files e1 e2 (dto_pattern e1 p pkg) \<longrightarrow>
          checkJsonNamingStrategy e1 p pkg = checkJsonNamingStrategy e2 p pkg)
    \<and> (readFile e1 (path_join e1 [p, ''pom.xml'']) = readFile e2 (path_join e1 [p, ''pom.xml'']) \<longrightarrow>
          checkSpringBootVersion e1 p = checkSpringBootVersion e2 p)"
    using jwt_same[OF assms] wrapper_same[OF assms] named_same[OF assms] tree_same[OF assms]
          naming_same[OF assms] pom_same[OF assms]
    by blast
  have b: "set (glob e1 (src_pattern e1 p ''*'')) = set (glob e2 (src_pattern e1 p ''*'')) \<and>
        (\<forall>f \<in> set (glob e1 (src_pattern e1 p ''*'')). readFile e1 f \<noteq> None \<and> readFile e1 f = readFile e2 f) \<and>
        readFile e1 (test_properties_path e1 p) = readFile e2 (test_properties_path e1 p) \<longrightarrow>
          (\<forall>key. key \<noteq> ''missingProperties'' \<longrightarrow>
             field (findMissingProperties e1 p) key = field (findMissingProperties e2 p) key) \<and>
          (\<exists>ks1 ks2. field (findMissingProperties e1 p) ''missingProperties'' = Some (JArr (map JStr ks1)) \<and>
                     field (findMissingProperties e2 p) ''missingProperties'' = Some (JArr (map JStr ks2)) \<and>
                     set ks1 = set ks2 \<and> distinct ks1 \<and> distinct ks2)"
  proof (intro impI, elim conjE)
    assume 1: "set (glob e1 (src_pattern e1 p ''*'')) = set (glob e2 (src_pattern e1 p ''*''))"
      and 2: "\<forall>f \<in> set (glob e1 (src_pattern e1 p ''*'')). readFile e1 f \<noteq> None \<and> readFile e1 f = readFile e2 f"
      and 3: "readFile e1 (test_properties_path e1 p) = readFile e2 (test_properties_path e1 p)"
    show "(\<forall>key. key \<noteq> ''missingProperties'' \<longrightarrow>
             field (findMissingProperties e1 p) key = field (findMissingProperties e2 p) key) \<and>
          (\<exists>ks1 ks2. field (findMissingProperties e1 p) ''missingProperties'' = Some (JArr (map JStr ks1)) \<and>
                     field (findMissingProperties e2 p) ''missingProperties'' = Some (JArr (map JStr ks2)) \<and>
                     set ks1 = set ks2 \<and> distinct ks1 \<and> distinct ks2)"
      by (rule missing_any_order[OF l 1 2 3])
  qed
  from a b show ?thesis
    apply (elim conjE)
    apply (intro conjI)
    apply assumption+
    done
qed

lemma runs_library: "same_library first_run second_run"
  by (simp add: same_library_def second_run_def)

lemma runs_glob: "glob second_run = glob first_run"
  by (simp add: second_run_def)

lemma runs_files: "same_files first_run second_run pat"
proof -
  have "\<forall>f \<in> set (glob first_run pat). f = ''/w/src/main/java/shop/Order.java''"
    by (auto simp: first_run_def file_env_def split: if_splits)
  then show ?thesis by (auto simp: same_files_def runs_glob second_run_def)
qed

theorem extractors_same_corpus_witness:
  "same_library first_run second_run \<and>
   same_files first_run second_run (src_pattern first_run ''/w'' ''*JwtTokenUtil*'') \<and>
   same_files first_run second_run (src_pattern first_run ''/w'' ''*JwtRequestFilter*'') \<and>
   same_files first_run second_run (src_pattern first_run ''/w'' ''*Advice*'') \<and>
   same_files first_run second_run (src_pattern first_run ''/w'' ''*Response*'') \<and>
   same_files first_run second_run (src_pattern first_run ''/w'' ''Order'') \<and>
   same_files first_run second_run (src_pattern first_run ''/w'' ''*'') \<and>
   same_files first_run second_run (dto_pattern first_run ''/w'' ''shop.dto'') \<and>
   readFile first_run (test_properties_path first_run ''/w'') = readFile second_run (test_properties_path first_run ''/w'') \<and>
   readFile first_run (path_join first_run [''/w'', ''pom.xml'']) = readFile second_run (path_join first_run [''/w'', ''pom.xml'']) \<and>
   platform first_run \<noteq> platform second_run \<and>
   readFile first_run ''/tmp/notes.txt'' \<noteq> readFile second_run ''/tmp/notes.txt'' \<and>
   glob first_run (src_pattern first_run ''/w'' ''Order'') = [''/w/src/main/java/shop/Order.java''] \<and>
   investigateJwtClaims first_run ''/w'' = investigateJwtClaims second_run ''/w'' \<and>
   investigateResponseWrapper first_run ''/w'' = investigateResponseWrapper second_run ''/w'' \<and>
   investigateEntityRelationships first_run ''/w'' ''Order'' = investigateEntityRelationships second_run ''/w'' ''Order'' \<and>
   analyzeController first_run ''/w'' ''Order'' = analyzeController second_run ''/w'' ''Order'' \<and>
   analyzeRepository first_run ''/w'' ''Order'' = analyzeRepository second_run ''/w'' ''Order'' \<and>
   investigateService first_run ''/w'' ''Order'' = investigateService second_run ''/w'' ''Order'' \<and>
   findBeansNeedingExclusion first_run ''/w'' = findBeansNeedingExclusion second_run ''/w'' \<and>
   findMissingProperties first_run ''/w'' = findMissingProperties second_run ''/w'' \<and>
   checkJsonNamingStrategy first_run ''/w'' ''shop.dto'' = checkJsonNamingStrategy second_run ''/w'' ''shop.dto'' \<and>
   checkSpringBootVersion first_run ''/w'' = checkSpringBootVersion second_run ''/w'' \<and>
   same_library props_env swapped_env \<and>
   glob props_env (src_pattern props_env ''/w'' ''*'') = [''/w/src/main/java/A.java'', ''/w/src/main/java/B.java''] \<and>
   glob swapped_env (src_pattern props_env ''/w'' ''*'') = [''/w/src/main/java/B.java'', ''/w/src/main/java/A.java''] \<and>
   readFile swapped_env = readFile props_env \<and>
   readFile props_env ''/w/src/main/java/A.java'' \<noteq> None \<and>
   readFile props_env ''/w/src/main/java/B.java'' \<noteq> None \<and>
   field (findMissingProperties props_env ''/w'') ''totalProperties''
     = field (findMissingProperties swapped_env ''/w'') ''totalProperties''"
proof -
  have sw: "same_library props_env swapped_env" by (simp add: swapped_env_def same_library_def)
  have g1: "glob props_env (src_pattern props_env ''/w'' ''*'') = [''/w/src/main/java/A.java'', ''/w/src/main/java/B.java'']"
    by (simp add: props_env_def file_env_def src_pattern_def posix_join_def)
  have g2: "glob swapped_env (src_pattern props_env ''/w'' ''*'') = [''/w/src/main/java/B.java'', ''/w/src/main/java/A.java'']"
    using g1 by (simp add: swapped_env_def)
  have rf: "readFile swapped_env = readFile props_env" by (simp add: swapped_env_def)
  have rd: "readFile props_env ''/w/src/main/java/A.java'' \<noteq> None"
    "readFile props_env ''/w/src/main/java/B.java'' \<noteq> None"
    by (simp_all add: props_env_def file_env_def)
  have h1: "set (glob props_env (src_pattern props_env ''/w'' ''*'')) = set (glob swapped_env (src_pattern props_env ''/w'' ''*''))"
    unfolding g1 g2 by auto
  have h2: "\<forall>f \<in> set (glob props_env (src_pattern props_env ''/w'' ''*'')).
              readFile props_env f \<noteq> None \<and> readFile props_env f = readFile swapped_env f"
    unfolding g1 using rd rf by simp
  have h3: "readFile props_env (test_properties_path props_env ''/w'') = readFile swapped_env (test_properties_path props_env ''/w'')"
    using rf by simp
  have "\<forall>key. key \<noteq> ''missingProperties'' \<longrightarrow>
          field (findMissingProperties props_env ''/w'') key = field (findMissingProperties swapped_env ''/w'') key"
    using extractors_same_corpus[OF sw, of "''/w''"] h1 h2 h3 by blast
  then have o: "field (findMissingProperties props_env ''/w'') ''totalProperties''
     = field (findMissingProperties swapped_env ''/w'') ''totalProperties''"
    by simp
  have t: "readFile first_run (test_properties_path first_run ''/w'')
           = readFile second_run (test_properties_path first_run ''/w'')"
    by (simp add: second_run_def first_run_def file_env_def test_properties_path_def posix_join_def)
  have m: "readFile first_run (path_join first_run [''/w'', ''pom.xml''])
           = readFile second_run (path_join first_run [''/w'', ''pom.xml''])"
    by (simp add: second_run_def first_run_def file_env_def posix_join_def)
  have d: "platform first_run \<noteq> platform second_run"
    "readFile first_run ''/tmp/notes.txt'' \<noteq> readFile second_run ''/tmp/notes.txt''"
    by (simp_all add: second_run_def first_run_def file_env_def)
  have g: "glob first_run (src_pattern first_run ''/w'' ''Order'') = [''/w/src/main/java/shop/Order.java'']"
    by (simp add: first_run_def file_env_def src_pattern_def posix_join_def)
  show ?thesis
    using extractors_same_corpus[OF runs_library, of "''/w''" "''Order''" "''shop.dto''"]
          runs_library runs_files t m d g sw g1 g2 rf rd o
    by simp
qed

text \<open>
  C9 as it is written fails: these two runs locate the same two files with the same text, and
  \<^verbatim>\<open>glob\<close> returns them in the other order in the second run (the code takes the order as it
  comes and does not sort). The keys are listed in another order.
\<close>

theorem findMissingProperties_other_order:
  "set (glob swapped_env ''/w/src/main/java/**/*.java'') = set (glob props_env ''/w/src/main/java/**/*.java'') \<and>
   glob props_env ''/w/src/main/java/**/*.java'' = [''/w/src/main/java/A.java'', ''/w/src/main/java/B.java''] \<and>
   readFile swapped_env = readFile props_env \<and>
   same_library props_env swapped_env \<and>
   field (findMissingProperties props_env ''/w'') ''missingProperties''
     = Some (JArr [JStr ''app.name'', JStr ''app.url'']) \<and>
   field (findMissingProperties swapped_env ''/w'') ''missingProperties''
     = Some (JArr [JStr ''app.url'', JStr ''app.name''])"
proof -
  have g: "glob props_env ''/w/src/main/java/**/*.java'' = [''/w/src/main/java/A.java'', ''/w/src/main/java/B.java'']"
    by (simp add: props_env_def file_env_def)
  have s: "set (glob swapped_env ''/w/src/main/java/**/*.java'') = set (glob props_env ''/w/src/main/java/**/*.java'')"
    by (simp add: swapped_env_def)
  have r: "readFile swapped_env = readFile props_env" "same_library props_env swapped_env"
    by (simp_all add: swapped_env_def same_library_def)
  have a: "field (findMissingProperties props_env ''/w'') ''missingProperties''
     = Some (JArr [JStr ''app.name'', JStr ''app.url''])"
    by code_simp
  have b: "field (findMissingProperties swapped_env ''/w'') ''missingProperties''
     = Some (JArr [JStr ''app.url'', JStr ''app.name''])"
    by code_simp
  show ?thesis using g s r a b by simp
qed

section \<open>The request handler\<close>

text \<open>
  Every tool is reached through the handler of \<^verbatim>\<open>CallToolRequestSchema\<close>. It rejects a request
  without an arguments object, resolves the project path and calls the tool; whatever is
  thrown on the way is caught and answered as an error.
\<close>

definition mavenVersionPattern :: re where
  \<comment> \<open>\<^verbatim>\<open>/Apache Maven ([\d.]+)/\<close>\<close>
  "mavenVersionPattern = cat [Lit ''Apache Maven '', Grp 1 (Plus (CUnion CDigit (COneOf ''.'')))]"

definition javaVersionPattern :: re where
  \<comment> \<open>\<^verbatim>\<open>/version "?([^"\s]+)"?/\<close>\<close>
  "javaVersionPattern =
     cat [Lit ''version '', Opt (Lit [CHR 0x22]),
          Grp 1 (Plus (CNot (CUnion (COneOf [CHR 0x22]) CSpace))), Opt (Lit [CHR 0x22])]"

definition runtimeVersionPattern :: re where
  \<comment> \<open>\<^verbatim>\<open>/version ([\d.]+)/\<close>\<close>
  "runtimeVersionPattern = cat [Lit ''version '', Grp 1 (Plus (CUnion CDigit (COneOf ''.'')))]"

definition first_group :: "re \<Rightarrow> string \<Rightarrow> string" where
  \<comment> \<open>\<^verbatim>\<open>version\<close> after \<^verbatim>\<open>if (versionMatch) version = versionMatch[1]\<close>, starting from \<^verbatim>\<open>""\<close>\<close>
  "first_group r stdout = (case re_search r stdout of None \<Rightarrow> [] | Some m \<Rightarrow> grp (groups m) 1)"

definition detectContainerRuntime :: "env \<Rightarrow> string option \<Rightarrow> string \<times> string option" where
  \<comment> \<open>the second argument and the second result are the module variable \<^verbatim>\<open>containerRuntime\<close>
     before and after the call (\<^term>\<open>None\<close> is \<^verbatim>\<open>null\<close>)\<close>
  "detectContainerRuntime e containerRuntime =
     (if containerRuntime \<noteq> None \<and> containerRuntime \<noteq> Some []
      then (the containerRuntime, containerRuntime)
      else
        (case execAsync e ''docker --version'' (process_cwd e) 0 of
           Resolved out err \<Rightarrow> (''docker'', Some ''docker'')
         | Rejected out err \<Rightarrow>
             (case execAsync e ''podman --version'' (process_cwd e) 0 of
                Resolved out' err' \<Rightarrow> (''podman'', Some ''podman'')
              | Rejected out' err' \<Rightarrow> (''none'', containerRuntime))))"

definition checkEnvironment :: "env \<Rightarrow> string option \<Rightarrow> string option \<Rightarrow> json \<times> string option" where
  \<comment> \<open>the second argument and the second result are the module variable \<^verbatim>\<open>containerRuntime\<close>\<close>
  "checkEnvironment e containerRuntime projectPath =
     (let mvnCmd = getMavenCommand e;
          (maven, rec1) =
            (case execAsync e (mvnCmd @ '' -version'') (process_cwd e) 0 of
               Resolved stdout stderr \<Rightarrow>
                 ([(''available'', JBool True), (''version'', JStr (first_group mavenVersionPattern stdout))], [])
             | Rejected out err \<Rightarrow>
                 ([(''available'', JBool False), (''version'', JStr [])],
                  [''Install Maven: https://maven.apache.org/install.html'']));
          (java, rec2) =
            (case execAsync e ''java -version'' (process_cwd e) 0 of
               Resolved stdout stderr \<Rightarrow>
                 ([(''available'', JBool True), (''version'', JStr (first_group javaVersionPattern stdout))], rec1)
             | Rejected out err \<Rightarrow>
                 ([(''available'', JBool False), (''version'', JStr [])],
                  rec1 @ [''Install Java JDK 11+: https://adoptium.net/'']));
          (runtime, containerRuntime') = detectContainerRuntime e containerRuntime;
          (version, rec3) =
            (if runtime \<noteq> ''none''
             then (case execAsync e (runtime @ '' --version'') (process_cwd e) 0 of
                     Resolved stdout stderr \<Rightarrow> (first_group runtimeVersionPattern stdout, rec2)
                   | Rejected out err \<Rightarrow> ([], rec2))
             else ([], rec2 @ [''Optional: Install Docker (https://docs.docker.com/get-docker/) or Podman (https://podman.io/getting-started/installation)'']));
          (wrapper, rec4) =
            (case projectPath of
               None \<Rightarrow> ([], rec3)
             | Some pp \<Rightarrow>
                 if pp = [] then ([], rec3)
                 else if access e (path_join e [pp, if platform e = ''win32'' then ''mvnw.cmd'' else ''mvnw''])
                 then ([(''mavenWrapper'', JBool True)],
                       rec3 @ [''Maven wrapper found - use ./mvnw instead of mvn''])
                 else ([(''mavenWrapper'', JBool False)], rec3));
          rec5 = (if platform e = ''win32''
                  then rec4 @ [''Windows detected - ensure paths use double backslashes in config'']
                  else rec4)
      in (JObj ([(''platform'', JStr (platform e)),
                 (''maven'', JObj maven),
                 (''java'', JObj java),
                 (''container'', JObj [(''runtime'', JStr runtime), (''version'', JStr version)]),
                 (''recommendations'', JArr (map JStr rec5))] @ wrapper),
          containerRuntime'))"

datatype fault = MissingArguments | UnknownTool string | Thrown js_error

datatype reply = Text json | IsError fault | NoReply

text \<open>
  \<^term>\<open>Text\<close> is the answer \<^verbatim>\<open>{content: [{type: "text", text}]}\<close> with the text of the object a
  tool returned. \<^term>\<open>IsError\<close> is the answer of the handler's \<^verbatim>\<open>catch\<close>, marked
  \<^verbatim>\<open>isError: true\<close>; its text holds the message of the error and a stack trace, which the model
  leaves out. \<^term>\<open>NoReply\<close> is a call whose tool does not return.
\<close>

definition reply_of :: "json outcome \<Rightarrow> reply" where
  "reply_of r = (case r of Return j \<Rightarrow> Text j | Throw x \<Rightarrow> IsError (Thrown x) | Never \<Rightarrow> NoReply)"

record arguments =
  projectPath :: "string option"
  entityName :: string
  testClass :: string
  testMethod :: "string option"
  controllerName :: string
  dtoPackage :: string
  repositoryName :: string
  serviceName :: string

text \<open>
  The arguments object of a request, with the types the handler gives its fields:
  \<^verbatim>\<open>args.projectPath\<close> is passed on as \<^verbatim>\<open>string | undefined\<close> to a function that takes an
  optional path, \<^verbatim>\<open>args.testMethod\<close> likewise, and every other field \<^verbatim>\<open>as string\<close>. A tool reads
  only the fields of its own case.
\<close>

definition callTool :: "env \<Rightarrow> string option \<Rightarrow> string \<Rightarrow> arguments option \<Rightarrow> reply \<times> string option" where
  \<comment> \<open>the handler on \<^verbatim>\<open>request.params = {name, arguments}\<close>; the second argument and the second
     result are the module variable \<^verbatim>\<open>containerRuntime\<close>\<close>
  "callTool e containerRuntime name arguments =
     (case arguments of
        None \<Rightarrow> (IsError MissingArguments, containerRuntime)
      | Some args \<Rightarrow>
          if name = ''check_environment''
          then (case checkEnvironment e containerRuntime (Some (resolveProjectPath e (projectPath args))) of
                  (j, c) \<Rightarrow> (Text j, c))
          else if name = ''investigate_jwt_claims''
          then (reply_of (investigateJwtClaims e (resolveProjectPath e (projectPath args))), containerRuntime)
          else if name = ''investigate_response_wrapper''
          then (reply_of (investigateResponseWrapper e (resolveProjectPath e (projectPath args))), containerRuntime)
          else if name = ''investigate_entity_relationships''
          then (reply_of (investigateEntityRelationships e (resolveProjectPath e (projectPath args))
                            (entityName args)), containerRuntime)
          else if name = ''find_missing_properties''
          then (reply_of (findMissingProperties e (resolveProjectPath e (projectPath args))), containerRuntime)
          else if name = ''validate_maven_compile''
          then (reply_of (validateMavenCompile e (resolveProjectPath e (projectPath args))), containerRuntime)
          else if name = ''run_test_checkpoint''
          then (reply_of (runTestCheckpoint e (resolveProjectPath e (projectPath args))
                            (testClass args) (testMethod args)), containerRuntime)
          else if name = ''analyze_controller''
          then (reply_of (analyzeController e (resolveProjectPath e (projectPath args))
                            (controllerName args)), containerRuntime)
          else if name = ''check_json_naming_strategy''
          then (reply_of (checkJsonNamingStrategy e (resolveProjectPath e (projectPath args))
                            (dtoPackage args)), containerRuntime)
          else if name = ''find_beans_needing_exclusion''
          then (reply_of (findBeansNeedingExclusion e (resolveProjectPath e (projectPath args))), containerRuntime)
          else if name = ''analyze_repository''
          then (reply_of (analyzeRepository e (resolveProjectPath e (projectPath args))
                            (repositoryName args)), containerRuntime)
          else if name = ''check_spring_boot_version''
          then (reply_of (checkSpringBootVersion e (resolveProjectPath e (projectPath args))), containerRuntime)
          else if name = ''investigate_service''
          then (reply_of (investigateService e (resolveProjectPath e (projectPath args))
                            (serviceName args)), containerRuntime)
          else (IsError (UnknownTool name), containerRuntime))"

subsection \<open>The project path\<close>

text \<open>
  The words of C10, to compare with the code: a path that is empty or holds only white
  space, and a path that begins with a letter, a colon and a backslash.
\<close>

definition spec_blank :: "string \<Rightarrow> bool" where
  "spec_blank i = (\<forall>c \<in> set i. is_space c)"

definition spec_drive_prefix :: "string \<Rightarrow> bool" where
  "spec_drive_prefix i =
     (case i of l # c1 # c2 # rest \<Rightarrow> is_letter l \<and> c1 = CHR '':'' \<and> c2 = CHR 0x5C | _ \<Rightarrow> False)"

lemma trim_empty: "trim i = [] \<longleftrightarrow> (\<forall>c \<in> set i. is_space c)"
proof -
  have "trim i = [] \<longleftrightarrow> (\<forall>c \<in> set (dropWhile is_space i). is_space c)"
    by (simp add: trim_def dropWhile_eq_Nil_conv)
  also have "\<dots> \<longleftrightarrow> dropWhile is_space i = []"
    using hd_dropWhile[of is_space i]
    by (cases "dropWhile is_space i") (auto dest: set_dropWhileD)
  also have "\<dots> \<longleftrightarrow> (\<forall>c \<in> set i. is_space c)"
    by (simp add: dropWhile_eq_Nil_conv)
  finally show ?thesis .
qed

lemma drive_letter_hit: "hit_at driveLetterPattern i \<noteq> None \<longleftrightarrow> spec_drive_prefix i"
  by (auto simp: hit_at_def driveLetterPattern_def spec_drive_prefix_def is_letter_def prefix_def
           split: list.splits option.splits)

lemma resolveProjectPath_cases:
  "resolveProjectPath e input =
     (case input of
        None \<Rightarrow> DEFAULT_WORKSPACE e
      | Some i \<Rightarrow> if spec_blank i \<or> spec_drive_prefix i then DEFAULT_WORKSPACE e else i)"
  using trim_empty[of "the input"] drive_letter_hit[of "the input"]
  by (auto simp: resolveProjectPath_def spec_blank_def split: option.splits)

definition target :: "env \<Rightarrow> arguments \<Rightarrow> string" where
  \<comment> \<open>the path C10 names for a request with these arguments\<close>
  "target e args =
     (case projectPath args of
        None \<Rightarrow> DEFAULT_WORKSPACE e
      | Some i \<Rightarrow> if spec_blank i \<or> spec_drive_prefix i then DEFAULT_WORKSPACE e else i)"

definition smoke_args :: "string option \<Rightarrow> arguments" where
  "smoke_args path =
     \<lparr>projectPath = path, entityName = ''Order'', testClass = ''Smoke'', testMethod = None,
      controllerName = ''OrderController'', dtoPackage = ''shop.dto'',
      repositoryName = ''OrderRepository'', serviceName = ''OrderService''\<rparr>"

definition echo_env :: env where
  \<comment> \<open>every command ends normally and prints where it ran; \<^verbatim>\<open>/workspace/mvnw\<close> exists\<close>
  "echo_env =
     (build_env (Resolved [] []))\<lparr>execAsync := (\<lambda>cmd cwd ms. Resolved (cmd @ '' in '' @ cwd) []),
                                  access := (\<lambda>p. p = ''/workspace/mvnw'')\<rparr>"

text \<open>
  C10, as the code has it. A request that carries an arguments object runs its tool on the
  default workspace when \<^verbatim>\<open>projectPath\<close> is absent, empty, white space only, or begins with a
  Windows drive letter prefix, and on the given path otherwise; this holds for each of the
  thirteen tools. The default workspace is \<^verbatim>\<open>MCP_WORKSPACE\<close> when that is set to a non-empty value
  and \<^verbatim>\<open>/workspace\<close> otherwise. A request without an arguments object is answered with an error
  and runs no tool.
\<close>

theorem callTool_project_path:
  "resolveProjectPath e input =
     (case input of
        None \<Rightarrow> DEFAULT_WORKSPACE e
      | Some i \<Rightarrow> if spec_blank i \<or> spec_drive_prefix i then DEFAULT_WORKSPACE e else i)
   \<and> callTool e st ''check_environment'' (Some args) =
     (case checkEnvironment e st (Some (target e args)) of (j, c) \<Rightarrow> (Text j, c))
   \<and> callTool e st ''investigate_jwt_claims'' (Some args) =
       (reply_of (investigateJwtClaims e (target e args)), st)
   \<and> callTool e st ''investigate_response_wrapper'' (Some args) =
       (reply_of (investigateResponseWrapper e (target e args)), st)
   \<and> callTool e st ''investigate_entity_relationships'' (Some args) =
       (reply_of (investigateEntityRelationships e (target e args) (entityName args)), st)
   \<and> callTool e st ''find_missing_properties'' (Some args) =
       (reply_of (findMissingProperties e (target e args)), st)
   \<and> callTool e st ''validate_maven_compile'' (Some args) =
       (reply_of (validateMavenCompile e (target e args)), st)
   \<and> callTool e st ''run_test_checkpoint'' (Some args) =
       (reply_of (runTestCheckpoint e (target e args) (testClass args) (testMethod args)), st)
   \<and> callTool e st ''analyze_controller'' (Some args) =
       (reply_of (analyzeController e (target e args) (controllerName args)), st)
   \<and> callTool e st ''check_json_naming_strategy'' (Some args) =
       (reply_of (checkJsonNamingStrategy e (target e args) (dtoPackage args)), st)
   \<and> callTool e st ''find_beans_needing_exclusion'' (Some args) =
       (reply_of (findBeansNeedingExclusion e (target e args)), st)
   \<and> callTool e st ''analyze_repository'' (Some args) =
       (reply_of (analyzeRepository e (target e args) (repositoryName args)), st)
   \<and> callTool e st ''check_spring_boot_version'' (Some args) =
       (reply_of (checkSpringBootVersion e (target e args)), st)
   \<and> callTool e st ''investigate_service'' (Some args) =
       (reply_of (investigateService e (target e args) (serviceName args)), st)
   \<and> target e args =
       (case projectPath args of
          None \<Rightarrow> DEFAULT_WORKSPACE e
        | Some i \<Rightarrow> if spec_blank i \<or> spec_drive_prefix i then DEFAULT_WORKSPACE e else i)
   \<and> DEFAULT_WORKSPACE e = (case MCP_WORKSPACE e of Some (c # cs) \<Rightarrow> c # cs | _ \<Rightarrow> ''/workspace'')
   \<and> callTool e st name None = (IsError MissingArguments, st)"
proof -
  have t: "resolveProjectPath e (projectPath args) = target e args"
    by (simp add: resolveProjectPath_cases target_def)
  have d: "DEFAULT_WORKSPACE e = (case MCP_WORKSPACE e of Some (c # cs) \<Rightarrow> c # cs | _ \<Rightarrow> ''/workspace'')"
    by (simp add: DEFAULT_WORKSPACE_def split: option.splits list.splits)
  show ?thesis
    by (intro conjI) (simp_all add: callTool_def t d[symmetric] target_def resolveProjectPath_cases)
qed

theorem callTool_project_path_witness:
  "spec_blank ''  '' \<and> spec_drive_prefix (''C:'' @ [CHR 0x5C] @ ''proj'') \<and>
   \<not> spec_blank ''/home/me/proj'' \<and> \<not> spec_drive_prefix ''/home/me/proj'' \<and>
   callTool echo_env None ''run_test_checkpoint'' (Some (smoke_args None)) =
     (Text (JObj [(''success'', JBool False), (''message'', JStr ''Could not parse test results''),
                  (''output'', JStr ''mvn test -Dtest=Smoke in /workspace'')]), None) \<and>
   callTool echo_env None ''run_test_checkpoint'' (Some (smoke_args (Some ''  ''))) =
     (Text (JObj [(''success'', JBool False), (''message'', JStr ''Could not parse test results''),
                  (''output'', JStr ''mvn test -Dtest=Smoke in /workspace'')]), None) \<and>
   callTool echo_env None ''run_test_checkpoint'' (Some (smoke_args (Some (''C:'' @ [CHR 0x5C] @ ''proj'')))) =
     (Text (JObj [(''success'', JBool False), (''message'', JStr ''Could not parse test results''),
                  (''output'', JStr ''mvn test -Dtest=Smoke in /workspace'')]), None) \<and>
   callTool echo_env None ''run_test_checkpoint'' (Some (smoke_args (Some ''/home/me/proj''))) =
     (Text (JObj [(''success'', JBool False), (''message'', JStr ''Could not parse test results''),
                  (''output'', JStr ''mvn test -Dtest=Smoke in /home/me/proj'')]), None)"
proof -
  have b: "spec_blank ''  ''" "\<not> spec_blank ''/home/me/proj''" "\<not> spec_blank (''C:'' @ [CHR 0x5C] @ ''proj'')"
    by (simp_all add: spec_blank_def is_space_def)
  have d: "spec_drive_prefix (''C:'' @ [CHR 0x5C] @ ''proj'')" "\<not> spec_drive_prefix ''/home/me/proj''"
    "\<not> spec_drive_prefix ''  ''"
    by (simp_all add: spec_drive_prefix_def is_letter_def)
  have w: "DEFAULT_WORKSPACE echo_env = ''/workspace''"
    by (simp add: DEFAULT_WORKSPACE_def echo_env_def build_env_def)
  have r: "runTestCheckpoint echo_env q ''Smoke'' None =
             Return (JObj [(''success'', JBool False), (''message'', JStr ''Could not parse test results''),
                           (''output'', JStr (''mvn test -Dtest=Smoke in '' @ q))])"
    if "CHR ''T'' \<notin> set q" and "length q \<le> 400" for q
  proof -
    have "re_search testsRunPattern ((''mvn test -Dtest=Smoke in '' @ q) @ []) = None"
      using that(1) by (intro no_summary_without_T) simp
    then show ?thesis using that(2)
      by (simp add: runTestCheckpoint_def echo_env_def build_env_def getMavenCommand_def slice_tail_def
               del: re_search.simps)
  qed
  have r1: "runTestCheckpoint echo_env ''/workspace'' ''Smoke'' None =
             Return (JObj [(''success'', JBool False), (''message'', JStr ''Could not parse test results''),
                           (''output'', JStr ''mvn test -Dtest=Smoke in /workspace'')])"
    using r[of "''/workspace''"] by simp
  have r2: "runTestCheckpoint echo_env ''/home/me/proj'' ''Smoke'' None =
             Return (JObj [(''success'', JBool False), (''message'', JStr ''Could not parse test results''),
                           (''output'', JStr ''mvn test -Dtest=Smoke in /home/me/proj'')])"
    using r[of "''/home/me/proj''"] by simp
  show ?thesis
    using callTool_project_path[where e = echo_env and st = None and args = "smoke_args None"]
          callTool_project_path[where e = echo_env and st = None and args = "smoke_args (Some ''  '')"]
          callTool_project_path[where e = echo_env and st = None
                                  and args = "smoke_args (Some (''C:'' @ [CHR 0x5C] @ ''proj''))"]
          callTool_project_path[where e = echo_env and st = None and args = "smoke_args (Some ''/home/me/proj'')"]
          b d w r1 r2
    by (simp add: smoke_args_def reply_of_def)
qed

text \<open>
  C10 as it is written fails: a request for \<^verbatim>\<open>check_environment\<close>, whose arguments are all
  optional, sent without an arguments object. The path is absent, and nothing is run on the
  default workspace: the guard at the head of the handler answers with the error
  \<^verbatim>\<open>Missing required arguments\<close>. The same request with an empty arguments object is answered,
  and looks for the Maven wrapper in the default workspace.
\<close>

theorem callTool_no_arguments:
  "callTool echo_env None ''check_environment'' None = (IsError MissingArguments, None) \<and>
   callTool echo_env None ''check_environment'' (Some (smoke_args None)) =
     (Text (JObj
        [(''platform'', JStr ''linux''),
         (''maven'', JObj [(''available'', JBool True), (''version'', JStr [])]),
         (''java'', JObj [(''available'', JBool True), (''version'', JStr ''in'')]),
         (''container'', JObj [(''runtime'', JStr ''docker''), (''version'', JStr [])]),
         (''recommendations'', JArr [JStr ''Maven wrapper found - use ./mvnw instead of mvn'']),
         (''mavenWrapper'', JBool True)]),
      Some ''docker'')"
  by code_simp

end
